(* ===== verification/Prelude.thy ===== *)
theory Prelude
  imports Main "HOL-Library.Char_ord" "HOL-Library.List_Lexorder"
begin

text \<open>
  Shared vocabulary of the development: results of operations that may raise, Python
  dictionaries as association lists that keep insertion order, the collections the
  components add their simplification rules to, and the generic lemmas on lists and
  options they use.
\<close>

named_theorems dict_simps \<open>rules for Python dictionaries as association lists\<close>
named_theorems res_simps \<open>rules for sequencing results that may be errors\<close>

section \<open>Exceptions and results\<close>

text \<open>
  The classes of exception the modelled code raises or catches. The text is what
  \<open>str(exc)\<close> gives, which the gateway writes into the audit log.
\<close>

datatype exn_kind =
    ValueErr | TypeErr | KeyErr | IndexErr | AttributeErr | RuntimeErr | AssertionErr
  | NotImplementedErr | UnknownCustomPolicyErr | ResponsePolicyErr
  | HttpErr | DbErr | LLMErr | ToolCallErr | OverflowErr | CsvErr | ZeroDivisionErr | SparkErr

datatype exn = Exn (exn_kind: exn_kind) (exn_text: string)

type_synonym 'a res = "exn + 'a"

definition bind_res :: "'a res \<Rightarrow> ('a \<Rightarrow> 'b res) \<Rightarrow> 'b res" where
  "bind_res r f = (case r of Inl e \<Rightarrow> Inl e | Inr a \<Rightarrow> f a)"

lemma bind_res_simps [res_simps, simp]:
  "bind_res (Inl e) f = Inl e"
  "bind_res (Inr a) f = f a"
  by (simp_all add: bind_res_def)

lemma bind_res_eq_Inr [res_simps]:
  "bind_res r f = Inr b \<longleftrightarrow> (\<exists>a. r = Inr a \<and> f a = Inr b)"
  by (auto simp: bind_res_def split: sum.splits)

lemma bind_res_eq_Inl [res_simps]:
  "bind_res r f = Inl e \<longleftrightarrow> r = Inl e \<or> (\<exists>a. r = Inr a \<and> f a = Inl e)"
  by (auto simp: bind_res_def split: sum.splits)

text \<open>A comprehension whose body may raise: the first exception ends it.\<close>

fun map_res :: "('a \<Rightarrow> 'b res) \<Rightarrow> 'a list \<Rightarrow> 'b list res" where
  "map_res f [] = Inr []"
| "map_res f (x # xs) = bind_res (f x) (\<lambda>y. bind_res (map_res f xs) (\<lambda>ys. Inr (y # ys)))"

lemma map_res_cong [fundef_cong]:
  assumes "xs = ys" and "\<And>x. x \<in> set ys \<Longrightarrow> f x = g x"
  shows "map_res f xs = map_res g ys"
  unfolding assms(1) using assms(2) by (induction ys) auto

lemma map_res_Inr_iff:
  "map_res f xs = Inr ys \<longleftrightarrow> list_all2 (\<lambda>x y. f x = Inr y) xs ys"
  by (induction xs arbitrary: ys) (auto simp: bind_res_eq_Inr list_all2_Cons1)

section \<open>Dictionaries with insertion order\<close>

type_synonym ('k, 'v) dict = "('k \<times> 'v) list"

text \<open>\<open>d[k] = v\<close>: an existing key keeps its position, a new one goes to the end.\<close>

fun dict_set :: "'k \<Rightarrow> 'v \<Rightarrow> ('k, 'v) dict \<Rightarrow> ('k, 'v) dict" where
  "dict_set k v [] = [(k, v)]"
| "dict_set k v ((k', v') # d) = (if k' = k then (k', v) # d else (k', v') # dict_set k v d)"

text \<open>\<open>dict(pairs)\<close>: later pairs overwrite earlier ones.\<close>

definition dict_of_pairs :: "('k \<times> 'v) list \<Rightarrow> ('k, 'v) dict" where
  "dict_of_pairs ps = foldl (\<lambda>d (k, v). dict_set k v d) [] ps"

lemma map_of_dict_set [dict_simps, simp]: "map_of (dict_set k v d) = (map_of d)(k \<mapsto> v)"
  by (induction k v d rule: dict_set.induct) (auto simp: fun_eq_iff)

lemma keys_dict_set [dict_simps]: "fst ` set (dict_set k v d) = insert k (fst ` set d)"
  by (induction k v d rule: dict_set.induct) auto

lemma distinct_dict_set [intro]:
  "distinct (map fst d) \<Longrightarrow> distinct (map fst (dict_set k v d))"
  by (induction k v d rule: dict_set.induct) (auto simp: keys_dict_set)

lemma dict_set_fresh: "k \<notin> fst ` set d \<Longrightarrow> dict_set k v d = d @ [(k, v)]"
  by (induction k v d rule: dict_set.induct) auto

lemma dict_of_pairs_append_distinct:
  "distinct (map fst (d @ ps)) \<Longrightarrow> foldl (\<lambda>d (k, v). dict_set k v d) d ps = d @ ps"
proof (induction ps arbitrary: d)
  case Nil
  then show ?case by simp
next
  case (Cons p ps)
  obtain k v where p: "p = (k, v)" by (cases p)
  have "k \<notin> fst ` set d" using Cons.prems p by auto
  then have "dict_set k v d = d @ [p]" by (simp add: dict_set_fresh p)
  moreover have "distinct (map fst ((d @ [p]) @ ps))" using Cons.prems by auto
  ultimately show ?case using Cons.IH [of "d @ [p]"] p by simp
qed

lemma dict_of_pairs_distinct: "distinct (map fst ps) \<Longrightarrow> dict_of_pairs ps = ps"
  using dict_of_pairs_append_distinct [of "[]" ps] by (simp add: dict_of_pairs_def)

lemma distinct_dict_of_pairs: "distinct (map fst (dict_of_pairs ps))"
proof -
  have "distinct (map fst d) \<Longrightarrow> distinct (map fst (foldl (\<lambda>d (k, v). dict_set k v d) d ps))" for d
    by (induction ps arbitrary: d) auto
  then show ?thesis by (simp add: dict_of_pairs_def)
qed

section \<open>Lists\<close>

text \<open>\<open>for x in xs: if x not in acc: acc.append(x)\<close>\<close>

definition add_missing :: "'a list \<Rightarrow> 'a list \<Rightarrow> 'a list" where
  "add_missing acc xs = foldl (\<lambda>acc x. if x \<in> set acc then acc else acc @ [x]) acc xs"

lemma add_missing_Nil [simp]: "add_missing acc [] = acc"
  by (simp add: add_missing_def)

lemma add_missing_Cons:
  "add_missing acc (x # xs) = add_missing (if x \<in> set acc then acc else acc @ [x]) xs"
  by (simp add: add_missing_def)

lemma set_add_missing [simp]: "set (add_missing acc xs) = set acc \<union> set xs"
  by (induction xs arbitrary: acc) (auto simp: add_missing_Cons)

lemma distinct_add_missing [intro]: "distinct acc \<Longrightarrow> distinct (add_missing acc xs)"
  by (induction xs arbitrary: acc) (auto simp: add_missing_Cons)

lemma find_Some_first:
  "find P xs = Some x \<longleftrightarrow> (\<exists>us vs. xs = us @ x # vs \<and> P x \<and> (\<forall>u \<in> set us. \<not> P u))"
proof (induction xs)
  case Nil
  then show ?case by simp
next
  case (Cons a xs)
  show ?case
  proof (cases "P a")
    case True
    then show ?thesis by (auto simp: Cons_eq_append_conv)
  next
    case False
    then have "find P (a # xs) = Some x \<longleftrightarrow> find P xs = Some x" by simp
    also have "\<dots> \<longleftrightarrow> (\<exists>us vs. a # xs = us @ x # vs \<and> P x \<and> (\<forall>u \<in> set us. \<not> P u))"
      unfolding Cons.IH using False
      by (auto simp: Cons_eq_append_conv) (metis append_Cons set_ConsD)+
    finally show ?thesis .
  qed
qed

lemma find_SomeD: "find P xs = Some x \<Longrightarrow> x \<in> set xs \<and> P x"
  by (auto simp: find_Some_first)

lemma find_None_all: "find P xs = None \<longleftrightarrow> (\<forall>x \<in> set xs. \<not> P x)"
  by (auto simp: find_None_iff)

text \<open>Python's \<open>sep.join(parts)\<close>.\<close>

fun join :: "'a list \<Rightarrow> 'a list list \<Rightarrow> 'a list" where
  "join sep [] = []"
| "join sep [x] = x"
| "join sep (x # y # zs) = x @ sep @ join sep (y # zs)"

lemma join_Cons: "join sep (x # xs) = (if xs = [] then x else x @ sep @ join sep xs)"
  by (cases xs) auto

end
