(* ===== verification/Interfaces.thy ===== *)
theory Interfaces
  imports Prelude
begin

text \<open>
  The contracts between components that do not depend on what is stored, encoded or queued: codecs,
  memo tables, append-only logs, queues and scrubbers. Each is interpreted where its provider is
  modelled, and the provider's clients use the facts proved here.
\<close>

section \<open>Codecs\<close>

text \<open>
  \<open>wrap\<close> is the success of the decoder, \<open>ok\<close> what can be encoded, \<open>norm\<close> what is lost on the way.
\<close>

locale codec =
  fixes enc :: "'a \<Rightarrow> 'b" and dec :: "'b \<Rightarrow> 'r" and wrap :: "'a \<Rightarrow> 'r" and ok :: "'a \<Rightarrow> bool"
    and norm :: "'a \<Rightarrow> 'a"
  assumes decodes: "ok x \<Longrightarrow> dec (enc x) = wrap (norm x)"
    and wrap_inject: "wrap x = wrap y \<Longrightarrow> x = y"
begin

lemma encoded_apart: "ok x \<Longrightarrow> ok y \<Longrightarrow> enc x = enc y \<Longrightarrow> norm x = norm y"
  by (metis decodes wrap_inject)

end

locale exact_codec = codec enc dec wrap ok "\<lambda>x. x"
  for enc :: "'a \<Rightarrow> 'b" and dec :: "'b \<Rightarrow> 'r" and wrap :: "'a \<Rightarrow> 'r" and ok :: "'a \<Rightarrow> bool"
begin

lemma inject: "ok x \<Longrightarrow> ok y \<Longrightarrow> enc x = enc y \<longleftrightarrow> x = y"
  using encoded_apart by blast

end

section \<open>Memo tables\<close>

text \<open>A lookup that may fill the table on the way; \<open>fresh\<close> is the computation it saves.\<close>

locale memo_table =
  fixes get :: "'k \<Rightarrow> 's \<Rightarrow> 'v \<times> 's" and fresh :: "'k \<Rightarrow> 'v" and ok :: "'s \<Rightarrow> bool"
  assumes get_fresh: "ok s \<Longrightarrow> fst (get k s) = fresh k"
    and get_ok: "ok s \<Longrightarrow> ok (snd (get k s))"
begin

lemma ok_after: "ok s \<Longrightarrow> ok (foldl (\<lambda>s k. snd (get k s)) s ks)"
  by (induction ks arbitrary: s) (simp_all add: get_ok)

lemma fresh_after: "ok s \<Longrightarrow> fst (get k (foldl (\<lambda>s k. snd (get k s)) s ks)) = fresh k"
  by (simp add: get_fresh ok_after)

end

section \<open>Append-only logs\<close>

locale append_log =
  fixes log_row :: "'a \<Rightarrow> 't \<Rightarrow> 'e res \<times> 't" and rows :: "'t \<Rightarrow> 'e list" and ok :: "'t \<Rightarrow> bool"
  assumes write_ok: "ok t \<Longrightarrow> ok (snd (log_row a t))"
    and write_rows: "ok t \<Longrightarrow>
      rows (snd (log_row a t)) = rows t @ (case fst (log_row a t) of Inl x \<Rightarrow> [] | Inr e \<Rightarrow> [e])"
begin

lemma writes_ok: "ok t \<Longrightarrow> ok (foldl (\<lambda>t a. snd (log_row a t)) t ws)"
  by (induction ws arbitrary: t) (simp_all add: write_ok)

text \<open>Any sequence of writes, failed ones included, adds at most one row each and removes none.\<close>

lemma writes_rows:
  "ok t \<Longrightarrow> \<exists>new. rows (foldl (\<lambda>t a. snd (log_row a t)) t ws) = rows t @ new \<and> length new \<le> length ws"
proof (induction ws arbitrary: t)
  case (Cons a ws)
  obtain new where n: "rows (foldl (\<lambda>t a. snd (log_row a t)) (snd (log_row a t)) ws) = rows (snd (log_row a t)) @ new"
    "length new \<le> length ws"
    using Cons.IH [OF write_ok [OF Cons.prems]] by blast
  then show ?case
    using write_rows [OF Cons.prems, of a] by (cases "fst (log_row a t)") auto
qed simp

lemma written_stays:
  assumes "ok t" and "log_row a t = (Inr e, t')"
  shows "e \<in> set (rows (foldl (\<lambda>t a. snd (log_row a t)) t' ws))"
proof -
  have "ok t'" "rows t' = rows t @ [e]"
    using write_ok [OF assms(1), of a] write_rows [OF assms(1), of a] assms(2) by simp_all
  with writes_rows [of t' ws] show ?thesis by auto
qed

end

section \<open>Queues\<close>

text \<open>\<open>fifo_run put take q0 ps ts q\<close>: some interleaving put \<open>ps\<close> and took \<open>ts\<close>, and \<open>q\<close> is left.\<close>

inductive fifo_run :: "('e \<Rightarrow> 'q \<Rightarrow> 'q) \<Rightarrow> ('q \<Rightarrow> ('e \<times> 'q) option) \<Rightarrow> 'q \<Rightarrow> 'e list \<Rightarrow> 'e list \<Rightarrow> 'q \<Rightarrow> bool"
  for put take_one q0 where
  fifo_start: "fifo_run put take_one q0 [] [] q0"
| fifo_put: "fifo_run put take_one q0 ps ts q \<Longrightarrow> fifo_run put take_one q0 (ps @ [x]) ts (put x q)"
| fifo_take: "fifo_run put take_one q0 ps ts q \<Longrightarrow> take_one q = Some (x, q') \<Longrightarrow>
    fifo_run put take_one q0 ps (ts @ [x]) q'"

locale fifo_queue =
  fixes put :: "'e \<Rightarrow> 'q \<Rightarrow> 'q" and take_one :: "'q \<Rightarrow> ('e \<times> 'q) option" and items :: "'q \<Rightarrow> 'e list"
    and empty :: 'q
  assumes items_empty: "items empty = []"
    and items_put: "items (put x q) = items q @ [x]"
    and take_None: "take_one q = None \<Longrightarrow> items q = []"
    and take_Some: "take_one q = Some (x, q') \<Longrightarrow> items q = x # items q'"
begin

text \<open>Nothing is lost, doubled or reordered, and what waits can be taken.\<close>

lemma in_order: "fifo_run put take_one empty ps ts q \<Longrightarrow> ts @ items q = ps"
  by (induction rule: fifo_run.induct) (auto simp: items_empty items_put dest: take_Some)

lemma waiting_taken:
  assumes "fifo_run put take_one empty ps ts q" and "ts \<noteq> ps"
  obtains x q' where "take_one q = Some (x, q')"
  using in_order [OF assms(1)] take_None [of q] assms(2) by (cases "take_one q") auto

end

section \<open>Scrubbers\<close>

text \<open>A function that removes what it looks for and leaves clean values alone.\<close>

locale scrubber =
  fixes scrub :: "'a \<Rightarrow> 'a" and clean :: "'a \<Rightarrow> bool"
  assumes scrub_clean: "clean (scrub x)"
    and clean_id: "clean x \<Longrightarrow> scrub x = x"
begin

lemma idem: "scrub (scrub x) = scrub x"
  by (rule clean_id [OF scrub_clean])

lemma fixed_iff: "scrub x = x \<longleftrightarrow> clean x"
  by (metis clean_id scrub_clean)

end

locale shape_scrubber = scrubber scrub clean
  for scrub :: "'a \<Rightarrow> 'a" and clean :: "'a \<Rightarrow> bool" +
  fixes shape :: "'a \<Rightarrow> 'f"
  assumes shape_scrub: "shape (scrub x) = shape x"
begin

lemma same_shape: "shape (scrub x) = shape (scrub y) \<longleftrightarrow> shape x = shape y"
  by (simp add: shape_scrub)

end

end
