(* ===== verification/PyText.thy ===== *)
theory PyText
  imports Interfaces
begin

text \<open>
  Python's text operations the code uses, on strings of code points below 256:
  character classes, decimal integers, \<open>repr\<close> of a string, \<open>str.strip\<close>, prefix tests,
  splitting and the UTF-8 codec.
\<close>

section \<open>Characters\<close>

abbreviation ord :: "char \<Rightarrow> nat" where
  "ord c \<equiv> of_char c"

definition is_digit :: "char \<Rightarrow> bool" where
  "is_digit c \<longleftrightarrow> 48 \<le> ord c \<and> ord c \<le> 57"

definition digit_char :: "nat \<Rightarrow> char" where
  "digit_char d = char_of (48 + d)"

definition digit_val :: "char \<Rightarrow> nat" where
  "digit_val c = ord c - 48"

text \<open>\<open>str.lower\<close> on one character (the upper-case letters of Latin-1 shift by 32).\<close>

definition lower_char :: "char \<Rightarrow> char" where
  "lower_char c = (let n = ord c in
     if 65 \<le> n \<and> n \<le> 90 \<or> 192 \<le> n \<and> n \<le> 222 \<and> n \<noteq> 215
     then char_of (n + 32) else c)"

definition lower :: "string \<Rightarrow> string" where
  "lower s = map lower_char s"

text \<open>\<open>str.isspace\<close> below 256.\<close>

definition is_space :: "char \<Rightarrow> bool" where
  "is_space c \<longleftrightarrow> (let n = ord c in 9 \<le> n \<and> n \<le> 13 \<or> 28 \<le> n \<and> n \<le> 32 \<or> n = 133 \<or> n = 160)"

lemma ord_char_of: "n < 256 \<Longrightarrow> ord (char_of n) = n"
  by (simp add: of_char_of take_bit_nat_def)

lemma ord_digit_char: "d < 10 \<Longrightarrow> ord (digit_char d) = 48 + d"
  by (simp add: digit_char_def ord_char_of)

lemma is_digit_digit_char [simp]: "d < 10 \<Longrightarrow> is_digit (digit_char d)"
  by (simp add: is_digit_def ord_digit_char)

lemma digit_val_digit_char [simp]: "d < 10 \<Longrightarrow> digit_val (digit_char d) = d"
  by (simp add: digit_val_def ord_digit_char)

lemma digit_char_digit_val [simp]: "is_digit c \<Longrightarrow> digit_char (digit_val c) = c"
  by (auto simp: digit_char_def digit_val_def is_digit_def)

lemma digit_val_less [simp]: "is_digit c \<Longrightarrow> digit_val c < 10"
  by (auto simp: digit_val_def is_digit_def)

lemma ord_inject [simp]: "ord c = ord d \<longleftrightarrow> c = d"
  by (rule of_char_eq_iff)

section \<open>Decimal integers\<close>

fun show_nat :: "nat \<Rightarrow> string" where
  "show_nat n = (if n < 10 then [digit_char n] else show_nat (n div 10) @ [digit_char (n mod 10)])"

declare show_nat.simps [simp del]

text \<open>\<open>str(i)\<close> of an int.\<close>

definition show_int :: "int \<Rightarrow> string" where
  "show_int i = (if i < 0 then CHR ''-'' # show_nat (nat (- i)) else show_nat (nat i))"

definition read_nat :: "string \<Rightarrow> nat" where
  "read_nat s = foldl (\<lambda>a c. 10 * a + digit_val c) 0 s"

lemma show_nat_digits: "\<forall>c \<in> set (show_nat n). is_digit c"
proof (induction n rule: show_nat.induct)
  case (1 n)
  then show ?case by (subst show_nat.simps) auto
qed

lemma show_nat_nonempty [simp]: "show_nat n \<noteq> []"
  by (subst show_nat.simps) simp

lemma read_show_nat [simp]: "read_nat (show_nat n) = n"
proof (induction n rule: show_nat.induct)
  case (1 n)
  show ?case
  proof (cases "n < 10")
    case True
    then show ?thesis by (simp add: show_nat.simps [of n] read_nat_def)
  next
    case False
    have "read_nat (s @ [digit_char (n mod 10)]) = 10 * read_nat s + n mod 10" for s
      by (simp add: read_nat_def)
    with "1.IH" False show ?thesis by (simp add: show_nat.simps [of n])
  qed
qed

lemma show_nat_inject [simp]: "show_nat m = show_nat n \<longleftrightarrow> m = n"
  by (metis read_show_nat)

text \<open>No leading zero: a numeral that starts with \<open>0\<close> is \<open>0\<close>.\<close>

lemma show_nat_leading_zero: "show_nat n = CHR ''0'' # s \<Longrightarrow> s = [] \<and> n = 0"
proof (induction n arbitrary: s rule: show_nat.induct)
  case (1 n)
  have zero: "digit_char d = CHR ''0'' \<longleftrightarrow> d = 0" if "d < 10" for d
    using that ord_digit_char [OF that] by (simp flip: ord_inject)
  show ?case
  proof (cases "n < 10")
    case True
    with "1.prems" zero show ?thesis by (auto simp: show_nat.simps [of n])
  next
    case False
    with "1.prems" obtain t where "show_nat (n div 10) = CHR ''0'' # t"
      by (cases "show_nat (n div 10)") (auto simp: show_nat.simps [of n])
    with "1.IH" [OF False] False show ?thesis by fastforce
  qed
qed

text \<open>
  \<open>int(s)\<close>: surrounding whitespace, one optional sign, then digits in which single
  underscores may separate two digits; anything else raises \<open>ValueError\<close>.
\<close>

fun int_digits :: "string \<Rightarrow> string option" where
  "int_digits [] = None"
| "int_digits [c] = (if is_digit c then Some [c] else None)"
| "int_digits (c # d # s) =
     (if \<not> is_digit c then None
      else if d = CHR ''_'' then map_option (Cons c) (int_digits s)
      else map_option (Cons c) (int_digits (d # s)))"

definition strip_by :: "(char \<Rightarrow> bool) \<Rightarrow> string \<Rightarrow> string" where
  "strip_by p s = rev (dropWhile p (rev (dropWhile p s)))"

definition strip :: "string \<Rightarrow> string" where
  "strip s = strip_by is_space s"

fun unsign :: "string \<Rightarrow> bool \<times> string" where
  "unsign [] = (False, [])"
| "unsign (c # s) =
     (if c = CHR ''-'' then (True, s) else if c = CHR ''+'' then (False, s) else (False, c # s))"

definition py_int :: "string \<Rightarrow> int res" where
  "py_int s = (case unsign (strip s) of (neg, ds) \<Rightarrow>
     (case int_digits ds of
        None \<Rightarrow> Inl (Exn ValueErr ''invalid literal for int()'')
      | Some t \<Rightarrow> Inr (if neg then - int (read_nat t) else int (read_nat t))))"

section \<open>\<open>repr\<close>\<close>

definition lower_hex :: "nat \<Rightarrow> char" where
  "lower_hex d = (if d < 10 then char_of (48 + d) else char_of (87 + d))"

text \<open>One character of \<open>repr(s)\<close>, inside the quote \<open>q\<close>.\<close>

definition repr_char :: "char \<Rightarrow> char \<Rightarrow> string" where
  "repr_char q c = (let n = ord c in
     if c = q \<or> n = 92 then [char_of (92::nat), c]
     else if n = 9 then [char_of (92::nat), CHR ''t'']
     else if n = 10 then [char_of (92::nat), CHR ''n'']
     else if n = 13 then [char_of (92::nat), CHR ''r'']
     else if n < 32 \<or> 127 \<le> n \<and> n \<le> 160 \<or> n = 173
       then [char_of (92::nat), CHR ''x'', lower_hex (n div 16), lower_hex (n mod 16)]
     else [c])"

text \<open>\<open>repr(s)\<close>: single quotes, unless the string has one and no double quote.\<close>

definition py_repr :: "string \<Rightarrow> string" where
  "py_repr s =
     (let dq = char_of (34::nat); sq = char_of (39::nat);
          q = (if sq \<in> set s \<and> dq \<notin> set s then dq else sq)
      in q # concat (map (repr_char q) s) @ [q])"

text \<open>\<open>repr\<close> of a list of strings.\<close>

definition py_repr_list :: "string list \<Rightarrow> string" where
  "py_repr_list xs = ''['' @ join '', '' (map py_repr xs) @ '']''"

lemma int_digits_all_digits:
  "s \<noteq> [] \<Longrightarrow> \<forall>c \<in> set s. is_digit c \<Longrightarrow> int_digits s = Some s"
proof (induction s rule: int_digits.induct)
  case (3 c d s)
  moreover have "\<not> is_digit (CHR ''_'')" by (simp add: is_digit_def)
  ultimately show ?case by auto
qed auto

lemma digit_not_space: "is_digit c \<Longrightarrow> \<not> is_space c"
  by (auto simp: is_digit_def is_space_def Let_def)

lemma strip_by_id: "s \<noteq> [] \<Longrightarrow> \<not> p (hd s) \<Longrightarrow> \<not> p (last s) \<Longrightarrow> strip_by p s = s"
  by (simp add: strip_by_def dropWhile_eq_self_iff [THEN iffD2] hd_rev)

lemma py_int_show_nat: "py_int (show_nat n) = Inr (int n)"
proof -
  let ?s = "show_nat n"
  have d: "\<forall>c \<in> set ?s. is_digit c" by (rule show_nat_digits)
  then have h: "is_digit (hd ?s)" and "is_digit (last ?s)" by (auto intro: hd_in_set last_in_set)
  then have strip: "strip ?s = ?s"
    unfolding strip_def by (intro strip_by_id) (auto simp: digit_not_space)
  moreover have "unsign ?s = (False, ?s)"
    using h by (cases ?s) (auto simp: is_digit_def)
  ultimately show ?thesis using d by (simp add: py_int_def int_digits_all_digits)
qed

lemma py_int_show_int: "py_int (show_int i) = Inr i"
proof (cases "i < 0")
  case False
  then show ?thesis by (simp add: show_int_def py_int_show_nat)
next
  case True
  let ?s = "show_nat (nat (- i))"
  have d: "\<forall>c \<in> set ?s. is_digit c" by (rule show_nat_digits)
  then have "is_digit (last ?s)" by (auto intro: last_in_set)
  moreover have "\<not> is_space (CHR ''-'')" by (simp add: is_space_def)
  ultimately have "strip (CHR ''-'' # ?s) = CHR ''-'' # ?s"
    unfolding strip_def by (intro strip_by_id) (auto simp: digit_not_space)
  with d True show ?thesis by (simp add: py_int_def show_int_def int_digits_all_digits)
qed

interpretation int_text: exact_codec show_int py_int Inr "\<lambda>i. True"
  by standard (simp_all add: py_int_show_int)

end
