(* ===== verification/PyJson.thy ===== *)
theory PyJson
  imports PyText
begin

text \<open>
  JSON values and the parts of Python's \<open>json\<close> module the code calls: \<open>json.dumps\<close> with
  its default separators or the compact ones, \<open>sort_keys=True\<close>, \<open>ensure_ascii\<close> escapes, and
  \<open>json.loads\<close>. A float is represented by its \<open>repr\<close>, which determines it; \<open>json.loads\<close>
  takes the function from a numeral to the \<open>repr\<close> of the float it denotes as a parameter.
  Code points from 256 on have no representation, so \<open>\u\<close> escapes above that are refused.
\<close>

datatype json =
    JNull | JBool bool | JInt int | JFloat string | JStr string
  | JList "json list" | JObj "(string \<times> json) list"

section \<open>Printing\<close>

definition hex_char :: "nat \<Rightarrow> char" where
  "hex_char d = (if d < 10 then char_of (48 + d) else char_of (87 + d))"

text \<open>The escapes of \<open>ensure_ascii=True\<close>.\<close>

definition esc_char :: "char \<Rightarrow> string" where
  "esc_char c = (let n = ord c in
     if n = 34 then [char_of (92::nat), char_of (34::nat)]
     else if n = 92 then [char_of (92::nat), char_of (92::nat)]
     else if n = 10 then [char_of (92::nat), CHR ''n'']
     else if n = 13 then [char_of (92::nat), CHR ''r'']
     else if n = 9 then [char_of (92::nat), CHR ''t'']
     else if n = 12 then [char_of (92::nat), CHR ''f'']
     else if n = 8 then [char_of (92::nat), CHR ''b'']
     else if 32 \<le> n \<and> n \<le> 126 then [c]
     else [char_of (92::nat), CHR ''u'', CHR ''0'', CHR ''0'', hex_char (n div 16), hex_char (n mod 16)])"

definition quote :: char where
  "quote = char_of (34::nat)"

definition esc_string :: "string \<Rightarrow> string" where
  "esc_string s = quote # concat (map esc_char s) @ [quote]"

fun dumps :: "string \<Rightarrow> string \<Rightarrow> json \<Rightarrow> string" where
  "dumps isep ksep JNull = ''null''"
| "dumps isep ksep (JBool b) = (if b then ''true'' else ''false'')"
| "dumps isep ksep (JInt i) = show_int i"
| "dumps isep ksep (JFloat t) = t"
| "dumps isep ksep (JStr s) = esc_string s"
| "dumps isep ksep (JList xs) = CHR ''['' # join isep (map (dumps isep ksep) xs) @ '']''"
| "dumps isep ksep (JObj kvs) =
     CHR ''{'' # join isep (map (\<lambda>(k, v). esc_string k @ ksep @ dumps isep ksep v) kvs) @ ''}''"

text \<open>\<open>json.dumps(x)\<close> with no options.\<close>

definition json_dumps :: "json \<Rightarrow> string" where
  "json_dumps = dumps '', '' '': ''"

text \<open>\<open>sort_keys=True\<close>: every dictionary, at any depth, is written in key order.\<close>

fun sort_keys :: "json \<Rightarrow> json" where
  "sort_keys (JList xs) = JList (map sort_keys xs)"
| "sort_keys (JObj kvs) = JObj (sort_key fst (map (\<lambda>(k, v). (k, sort_keys v)) kvs))"
| "sort_keys j = j"

section \<open>Parsing\<close>

definition json_ws :: "char \<Rightarrow> bool" where
  "json_ws c \<longleftrightarrow> ord c \<in> {32, 9, 10, 13}"

abbreviation skip_ws :: "string \<Rightarrow> string" where
  "skip_ws s \<equiv> dropWhile json_ws s"

definition hex_val :: "char \<Rightarrow> nat option" where
  "hex_val c = (let n = ord c in
     if 48 \<le> n \<and> n \<le> 57 then Some (n - 48)
     else if 97 \<le> n \<and> n \<le> 102 then Some (n - 87)
     else if 65 \<le> n \<and> n \<le> 70 then Some (n - 55)
     else None)"

text \<open>The character an escape stands for, after its backslash.\<close>

definition hex_escape :: "string \<Rightarrow> (char \<times> string) option" where
  "hex_escape s = (case s of
     a # b # c # d # t \<Rightarrow>
       (case (hex_val a, hex_val b, hex_val c, hex_val d) of
          (Some w, Some x, Some y, Some z) \<Rightarrow>
            (let n = ((w * 16 + x) * 16 + y) * 16 + z in if n < 256 then Some (char_of n, t) else None)
        | _ \<Rightarrow> None)
   | _ \<Rightarrow> None)"

definition unescape :: "string \<Rightarrow> (char \<times> string) option" where
  "unescape s = (case s of
     [] \<Rightarrow> None
   | e # t \<Rightarrow>
       if ord e \<in> {34, 92, 47} then Some (e, t)
       else if e = CHR ''b'' then Some (char_of (8::nat), t)
       else if e = CHR ''f'' then Some (char_of (12::nat), t)
       else if e = CHR ''n'' then Some (char_of (10::nat), t)
       else if e = CHR ''r'' then Some (char_of (13::nat), t)
       else if e = CHR ''t'' then Some (char_of (9::nat), t)
       else if e = CHR ''u'' then hex_escape t
       else None)"

lemma unescape_shorter [termination_simp]:
  "unescape s = Some (c, t) \<Longrightarrow> length t < length s"
  by (auto simp: unescape_def hex_escape_def Let_def split: list.splits if_splits option.splits)

text \<open>\<open>scanstring\<close>, strict, after the opening quote.\<close>

fun scan_string :: "string \<Rightarrow> (string \<times> string) option" where
  "scan_string [] = None"
| "scan_string (c # s) =
     (if ord c = 34 then Some ([], s)
      else if ord c = 92 then
        (case unescape s of
           None \<Rightarrow> None
         | Some (d, t) \<Rightarrow> map_option (\<lambda>(u, r). (d # u, r)) (scan_string t))
      else if ord c < 32 then None
      else map_option (\<lambda>(u, r). (c # u, r)) (scan_string s))"

text \<open>\<open>NUMBER_RE\<close>: \<open>(-?(?:0|[1-9][0-9]*))(\.[0-9]+)?([eE][-+]?[0-9]+)?\<close>\<close>

definition lex_digits :: "string \<Rightarrow> (string \<times> string) option" where
  "lex_digits s =
     (if takeWhile is_digit s = [] then None else Some (takeWhile is_digit s, dropWhile is_digit s))"

definition lex_uint :: "string \<Rightarrow> (string \<times> string) option" where
  "lex_uint s = (case s of
     [] \<Rightarrow> None
   | c # t \<Rightarrow> if c = CHR ''0'' then Some ([c], t) else lex_digits s)"

definition lex_int :: "string \<Rightarrow> (string \<times> string) option" where
  "lex_int s = (case s of
     [] \<Rightarrow> None
   | c # t \<Rightarrow> if c = CHR ''-'' then map_option (\<lambda>(i, r). (c # i, r)) (lex_uint t) else lex_uint s)"

definition lex_frac :: "string \<Rightarrow> string \<times> string" where
  "lex_frac s = (case s of
     [] \<Rightarrow> ([], [])
   | c # t \<Rightarrow>
       if c = CHR ''.'' then
         (case lex_digits t of Some (d, r) \<Rightarrow> (c # d, r) | None \<Rightarrow> ([], s))
       else ([], s))"

definition lex_signed :: "string \<Rightarrow> (string \<times> string) option" where
  "lex_signed s = (case s of
     [] \<Rightarrow> None
   | c # t \<Rightarrow>
       if c = CHR ''-'' \<or> c = CHR ''+'' then map_option (\<lambda>(d, r). (c # d, r)) (lex_digits t)
       else lex_digits s)"

definition lex_exp :: "string \<Rightarrow> string \<times> string" where
  "lex_exp s = (case s of
     [] \<Rightarrow> ([], [])
   | c # t \<Rightarrow>
       if c = CHR ''e'' \<or> c = CHR ''E'' then
         (case lex_signed t of Some (d, r) \<Rightarrow> (c # d, r) | None \<Rightarrow> ([], s))
       else ([], s))"

definition lex_number :: "string \<Rightarrow> (string \<times> bool \<times> string) option" where
  "lex_number s = (case lex_int s of
     None \<Rightarrow> None
   | Some (i, s1) \<Rightarrow>
       (let (f, s2) = lex_frac s1; (e, s3) = lex_exp s2
        in Some (i @ f @ e, f \<noteq> [] \<or> e \<noteq> [], s3)))"

text \<open>The int a matched numeral denotes.\<close>

definition int_of_lexeme :: "string \<Rightarrow> int" where
  "int_of_lexeme t = (case unsign t of (neg, ds) \<Rightarrow> if neg then - int (read_nat ds) else int (read_nat ds))"

fun strip_prefix :: "string \<Rightarrow> string \<Rightarrow> string option" where
  "strip_prefix [] s = Some s"
| "strip_prefix (c # p) [] = None"
| "strip_prefix (c # p) (d # s) = (if c = d then strip_prefix p s else None)"

definition parse_atom :: "(string \<Rightarrow> string) \<Rightarrow> string \<Rightarrow> (json \<times> string) option" where
  "parse_atom fr s =
     (case strip_prefix ''null'' s of Some r \<Rightarrow> Some (JNull, r) | None \<Rightarrow>
      (case strip_prefix ''true'' s of Some r \<Rightarrow> Some (JBool True, r) | None \<Rightarrow>
      (case strip_prefix ''false'' s of Some r \<Rightarrow> Some (JBool False, r) | None \<Rightarrow>
      (case lex_number s of
         Some (t, fl, r) \<Rightarrow> Some (if fl then JFloat (fr t) else JInt (int_of_lexeme t), r)
       | None \<Rightarrow>
      (case strip_prefix ''NaN'' s of Some r \<Rightarrow> Some (JFloat ''NaN'', r) | None \<Rightarrow>
      (case strip_prefix ''Infinity'' s of Some r \<Rightarrow> Some (JFloat ''Infinity'', r) | None \<Rightarrow>
      (case strip_prefix ''-Infinity'' s of Some r \<Rightarrow> Some (JFloat ''-Infinity'', r) | None \<Rightarrow>
       None)))))))"

text \<open>
  \<open>scan_once\<close>, \<open>JSONArray\<close> and \<open>JSONObject\<close>. Every call spends one unit of fuel; the
  length of the text plus one is enough.
\<close>

fun parse_value :: "(string \<Rightarrow> string) \<Rightarrow> nat \<Rightarrow> string \<Rightarrow> (json \<times> string) option"
  and parse_elems :: "(string \<Rightarrow> string) \<Rightarrow> nat \<Rightarrow> string \<Rightarrow> (json list \<times> string) option"
  and parse_members :: "(string \<Rightarrow> string) \<Rightarrow> nat \<Rightarrow> string \<Rightarrow> ((string \<times> json) list \<times> string) option"
where
  "parse_value fr 0 s = None"
| "parse_value fr (Suc n) s = (case s of
     [] \<Rightarrow> None
   | c # t \<Rightarrow>
       if c = quote then map_option (\<lambda>(u, r). (JStr u, r)) (scan_string t)
       else if c = CHR ''{'' then
         (case skip_ws t of
            [] \<Rightarrow> None
          | d # u \<Rightarrow> if d = CHR ''}'' then Some (JObj [], u)
                    else map_option (\<lambda>(ps, r). (JObj (dict_of_pairs ps), r)) (parse_members fr n (d # u)))
       else if c = CHR ''['' then
         (case skip_ws t of
            [] \<Rightarrow> None
          | d # u \<Rightarrow> if d = CHR '']'' then Some (JList [], u)
                    else map_option (\<lambda>(xs, r). (JList xs, r)) (parse_elems fr n (d # u)))
       else parse_atom fr s)"
| "parse_elems fr 0 s = None"
| "parse_elems fr (Suc n) s = (case parse_value fr n s of
     None \<Rightarrow> None
   | Some (x, r) \<Rightarrow>
       (case skip_ws r of
          [] \<Rightarrow> None
        | d # u \<Rightarrow>
            if d = CHR '']'' then Some ([x], u)
            else if d = CHR '','' then map_option (\<lambda>(xs, r'). (x # xs, r')) (parse_elems fr n (skip_ws u))
            else None))"
| "parse_members fr 0 s = None"
| "parse_members fr (Suc n) s = (case s of
     [] \<Rightarrow> None
   | q # s1 \<Rightarrow>
     if q \<noteq> quote then None
     else (case scan_string s1 of
       None \<Rightarrow> None
     | Some (k, s2) \<Rightarrow>
       (case skip_ws s2 of
          [] \<Rightarrow> None
        | d # s3 \<Rightarrow>
          if d \<noteq> CHR '':'' then None
          else (case parse_value fr n (skip_ws s3) of
            None \<Rightarrow> None
          | Some (v, s4) \<Rightarrow>
            (case skip_ws s4 of
               [] \<Rightarrow> None
             | e # s5 \<Rightarrow>
                 if e = CHR ''}'' then Some ([(k, v)], s5)
                 else if e = CHR '','' then
                   map_option (\<lambda>(ps, r). ((k, v) # ps, r)) (parse_members fr n (skip_ws s5))
                 else None)))))"

definition json_loads :: "(string \<Rightarrow> string) \<Rightarrow> string \<Rightarrow> json option" where
  "json_loads fr s = (case parse_value fr (Suc (length s)) (skip_ws s) of
     None \<Rightarrow> None
   | Some (j, r) \<Rightarrow> if skip_ws r = [] then Some j else None)"

end
