(* ===== verification/PyJsonProps.thy ===== *)
theory PyJsonProps
  imports PyJson Interfaces "HOL-Library.Multiset"
begin

text \<open>
  What the JSON printer and parser promise: parsing a printed value returns the value,
  so printing is injective, and the text of a value with sorted keys does not depend on
  the order its dictionaries were built in.
\<close>

section \<open>Well-formed values\<close>

text \<open>A float's text is a JSON numeral that is its own \<open>repr\<close>, or one of the three special names.\<close>

definition float_text :: "(string \<Rightarrow> string) \<Rightarrow> string \<Rightarrow> bool" where
  "float_text fr t \<longleftrightarrow>
     t \<in> {''NaN'', ''Infinity'', ''-Infinity''} \<or> lex_number t = Some (t, True, []) \<and> fr t = t"

fun wf_json :: "(string \<Rightarrow> string) \<Rightarrow> json \<Rightarrow> bool" where
  "wf_json fr (JFloat t) = float_text fr t"
| "wf_json fr (JList xs) = (\<forall>x \<in> set xs. wf_json fr x)"
| "wf_json fr (JObj kvs) = (distinct (map fst kvs) \<and> (\<forall>(k, v) \<in> set kvs. wf_json fr v))"
| "wf_json fr _ = True"

section \<open>Strings\<close>

lemma ord_quote [simp]: "ord quote = 34"
  by (simp add: quote_def)

lemma hex_val_hex_char [simp]: "d < 16 \<Longrightarrow> hex_val (hex_char d) = Some d"
  by (auto simp: hex_val_def hex_char_def Let_def ord_char_of)

lemma ord_eq_iff: "n < 256 \<Longrightarrow> ord c = n \<longleftrightarrow> c = char_of n"
  by (auto simp: ord_char_of)

lemma scan_esc_char:
  "scan_string (esc_char c @ t) = map_option (\<lambda>(u, r). (c # u, r)) (scan_string t)"
proof -
  let ?n = "ord c"
  consider (esc) "?n \<in> {34, 92, 10, 13, 9, 12, 8}" | (plain) "?n \<notin> {34, 92}" "32 \<le> ?n" "?n \<le> 126"
    | (hex) "?n \<notin> {34, 92, 10, 13, 9, 12, 8}" "\<not> (32 \<le> ?n \<and> ?n \<le> 126)"
    by auto
  then show ?thesis
  proof cases
    case esc
    then show ?thesis
      by (auto simp: esc_char_def unescape_def ord_eq_iff)
  next
    case plain
    then show ?thesis by (auto simp: esc_char_def Let_def)
  next
    case hex
    have "?n < 256" by simp
    then have d: "?n div 16 < 16" by linarith
    have zero: "hex_val (CHR ''0'') = Some 0" by (simp add: hex_val_def)
    have "hex_escape (CHR ''0'' # CHR ''0'' # hex_char (?n div 16) # hex_char (?n mod 16) # t) = Some (c, t)"
      using d by (simp add: hex_escape_def zero Let_def)
    then have "unescape (CHR ''u'' # CHR ''0'' # CHR ''0'' # hex_char (?n div 16) # hex_char (?n mod 16) # t) = Some (c, t)"
      by (simp add: unescape_def)
    then show ?thesis using hex by (auto simp: esc_char_def Let_def)
  qed
qed

lemma scan_esc_string: "scan_string (concat (map esc_char s) @ quote # r) = Some (s, r)"
  by (induction s) (auto simp: scan_esc_char)

section \<open>Numerals\<close>

text \<open>What may follow a value: nothing that would extend a numeral.\<close>

definition num_end :: "string \<Rightarrow> bool" where
  "num_end r \<longleftrightarrow> (case r of [] \<Rightarrow> True | c # _ \<Rightarrow>
     \<not> is_digit c \<and> c \<notin> {CHR ''.'', CHR ''e'', CHR ''E'', CHR ''-'', CHR ''+''})"

lemma num_end_Nil [simp]: "num_end []"
  and num_end_Cons: "num_end (c # r) \<longleftrightarrow>
    \<not> is_digit c \<and> c \<noteq> CHR ''.'' \<and> c \<noteq> CHR ''e'' \<and> c \<noteq> CHR ''E'' \<and> c \<noteq> CHR ''-'' \<and> c \<noteq> CHR ''+''"
  by (simp_all add: num_end_def)

lemma takeWhile_digit_num_end: "num_end r \<Longrightarrow> takeWhile is_digit (s @ r) = takeWhile is_digit s"
  by (induction s) (auto simp: num_end_def split: list.splits)

lemma dropWhile_digit_num_end: "num_end r \<Longrightarrow> dropWhile is_digit (s @ r) = dropWhile is_digit s @ r"
  by (induction s) (auto simp: num_end_def split: list.splits)

definition append_rest :: "string \<Rightarrow> string \<times> string \<Rightarrow> string \<times> string" where
  "append_rest r p = (case p of (a, b) \<Rightarrow> (a, b @ r))"

lemma append_rest_simp [simp]: "append_rest r (a, b) = (a, b @ r)"
  by (simp add: append_rest_def)

lemma lex_digits_append: "num_end r \<Longrightarrow> lex_digits (s @ r) = map_option (append_rest r) (lex_digits s)"
  by (simp add: lex_digits_def takeWhile_digit_num_end dropWhile_digit_num_end)

lemma lex_digits_num_end: "num_end r \<Longrightarrow> lex_digits r = None"
  by (cases r) (auto simp: lex_digits_def num_end_Cons)

lemma lex_uint_append:
  assumes "num_end r"
  shows "lex_uint (s @ r) = map_option (append_rest r) (lex_uint s)"
proof (cases s)
  case Nil
  have "lex_uint r = None"
  proof (cases r)
    case (Cons c t)
    have "is_digit (CHR ''0'')" by (simp add: is_digit_def)
    with assms Cons have "c \<noteq> CHR ''0''" by (auto simp: num_end_Cons)
    with lex_digits_num_end [OF assms] Cons show ?thesis by (simp add: lex_uint_def)
  qed (simp add: lex_uint_def)
  with Nil show ?thesis by (simp add: lex_uint_def)
next
  case (Cons c t)
  then show ?thesis using lex_digits_append [OF assms, of s] by (simp add: lex_uint_def)
qed

lemma lex_int_append:
  assumes "num_end r"
  shows "lex_int (s @ r) = map_option (append_rest r) (lex_int s)"
proof (cases s)
  case Nil
  have "lex_uint r = None" using lex_uint_append [OF assms, of "[]"] by (simp add: lex_uint_def)
  moreover have "lex_int r = None"
  proof (cases r)
    case (Cons c t)
    with assms have "c \<noteq> CHR ''-''" by (auto simp: num_end_Cons)
    with Cons \<open>lex_uint r = None\<close> show ?thesis by (simp add: lex_int_def)
  qed (simp add: lex_int_def)
  ultimately show ?thesis using Nil by (simp add: lex_int_def)
next
  case (Cons c t)
  show ?thesis
  proof (cases "c = CHR ''-''")
    case True
    with Cons lex_uint_append [OF assms, of t] show ?thesis
      by (cases "lex_uint t") (auto simp: lex_int_def)
  next
    case False
    with Cons lex_uint_append [OF assms, of s] show ?thesis by (simp add: lex_int_def)
  qed
qed

lemma lex_frac_append:
  assumes "num_end r"
  shows "lex_frac (s @ r) = append_rest r (lex_frac s)"
proof (cases s)
  case Nil
  with assms show ?thesis by (cases r) (auto simp: lex_frac_def num_end_Cons)
next
  case (Cons c t)
  then show ?thesis using lex_digits_append [OF assms, of t]
    by (cases "lex_digits t") (auto simp: lex_frac_def)
qed

lemma lex_signed_append:
  assumes "num_end r"
  shows "lex_signed (s @ r) = map_option (append_rest r) (lex_signed s)"
proof (cases s)
  case Nil
  have "lex_digits r = None" using assms by (rule lex_digits_num_end)
  moreover have "lex_signed r = None"
  proof (cases r)
    case (Cons c t)
    with assms have "c \<noteq> CHR ''-''" "c \<noteq> CHR ''+''" by (auto simp: num_end_Cons)
    with Cons \<open>lex_digits r = None\<close> show ?thesis by (simp add: lex_signed_def)
  qed (simp add: lex_signed_def)
  ultimately show ?thesis using Nil by (simp add: lex_signed_def)
next
  case (Cons c t)
  show ?thesis
  proof (cases "c = CHR ''-'' \<or> c = CHR ''+''")
    case True
    with Cons lex_digits_append [OF assms, of t] show ?thesis
      by (cases "lex_digits t") (auto simp: lex_signed_def)
  next
    case False
    with Cons lex_digits_append [OF assms, of s] show ?thesis by (simp add: lex_signed_def)
  qed
qed

lemma lex_exp_append:
  assumes "num_end r"
  shows "lex_exp (s @ r) = append_rest r (lex_exp s)"
proof (cases s)
  case Nil
  with assms show ?thesis by (cases r) (auto simp: lex_exp_def num_end_Cons)
next
  case (Cons c t)
  then show ?thesis using lex_signed_append [OF assms, of t]
    by (cases "lex_signed t") (auto simp: lex_exp_def)
qed

lemma lex_number_append:
  assumes "num_end r" and "lex_number s = Some (t, b, u)"
  shows "lex_number (s @ r) = Some (t, b, u @ r)"
  using assms by (auto simp: lex_number_def lex_int_append lex_frac_append lex_exp_append
      split: option.splits prod.splits)

lemma takeWhile_all_digits: "\<forall>c \<in> set s. is_digit c \<Longrightarrow> takeWhile is_digit s = s"
  and dropWhile_all_digits: "\<forall>c \<in> set s. is_digit c \<Longrightarrow> dropWhile is_digit s = []"
  by (simp_all add: takeWhile_eq_all_conv)

lemma lex_int_show_nat: "lex_int (show_nat n) = Some (show_nat n, [])"
proof -
  let ?s = "show_nat n"
  have d: "\<forall>c \<in> set ?s. is_digit c" by (rule show_nat_digits)
  obtain c t where s: "?s = c # t" by (cases ?s) auto
  have m: "c \<noteq> CHR ''-''" using d s by (auto simp: is_digit_def)
  have z: "c = CHR ''0'' \<Longrightarrow> t = []" using show_nat_leading_zero [of n t] s by simp
  show ?thesis using d s m z
    by (auto simp: lex_int_def lex_uint_def lex_digits_def takeWhile_all_digits dropWhile_all_digits)
qed

lemma lex_int_show_int: "lex_int (show_int i) = Some (show_int i, [])"
proof (cases "i < 0")
  case False
  then show ?thesis by (simp add: show_int_def lex_int_show_nat)
next
  case True
  let ?s = "show_nat (nat (- i))"
  have d: "\<forall>c \<in> set ?s. is_digit c" by (rule show_nat_digits)
  obtain c t where s: "?s = c # t" by (cases ?s) auto
  have z: "c = CHR ''0'' \<Longrightarrow> t = []" using show_nat_leading_zero [of "nat (- i)" t] s by simp
  show ?thesis using d s z True
    by (auto simp: lex_int_def lex_uint_def lex_digits_def show_int_def takeWhile_all_digits dropWhile_all_digits)
qed

lemma lex_number_show_int: "num_end r \<Longrightarrow> lex_number (show_int i @ r) = Some (show_int i, False, r)"
  using lex_number_append [of r "show_int i" "show_int i" False "[]"]
  by (simp add: lex_number_def lex_int_show_int lex_frac_def lex_exp_def)

lemma int_of_lexeme_show_int [simp]: "int_of_lexeme (show_int i) = i"
proof (cases "i < 0")
  case True
  then show ?thesis by (simp add: int_of_lexeme_def show_int_def)
next
  case False
  have "\<forall>c \<in> set (show_nat (nat i)). is_digit c" by (rule show_nat_digits)
  then have "unsign (show_nat (nat i)) = (False, show_nat (nat i))"
    by (cases "show_nat (nat i)") (auto simp: is_digit_def)
  with False show ?thesis by (simp add: int_of_lexeme_def show_int_def)
qed

text \<open>A numeral starts with a digit or a minus sign, unlike every other value.\<close>

lemma lex_number_first: "lex_number (c # s) \<noteq> None \<Longrightarrow> is_digit c \<or> c = CHR ''-''"
  by (auto simp: lex_number_def lex_int_def lex_uint_def lex_digits_def is_digit_def
      split: if_splits option.splits)

lemma lex_number_nonempty: "lex_number s = Some (t, b, r) \<Longrightarrow> s \<noteq> []"
  by (auto simp: lex_number_def lex_int_def)

lemma parse_atom_number:
  assumes "lex_number s = Some (t, b, r)"
  shows "parse_atom fr s = Some (if b then JFloat (fr t) else JInt (int_of_lexeme t), r)"
proof -
  obtain c u where s: "s = c # u" using lex_number_nonempty [OF assms] by (cases s) auto
  have "is_digit c \<or> c = CHR ''-''" using lex_number_first [of c u] assms s by simp
  then have "c \<noteq> CHR ''n''" "c \<noteq> CHR ''t''" "c \<noteq> CHR ''f''" by (auto simp: is_digit_def)
  with assms s show ?thesis by (simp add: parse_atom_def)
qed


section \<open>Parsing a printed value\<close>

text \<open>The separators the code uses: a comma or a colon, then white space.\<close>

definition json_sep :: "char \<Rightarrow> string \<Rightarrow> bool" where
  "json_sep c s \<longleftrightarrow> (\<exists>w. s = c # w \<and> (\<forall>x \<in> set w. json_ws x))"

lemma json_sep_simps [simp]:
  "json_sep (CHR '','') '',''" "json_sep (CHR '':'') '':''"
  "json_sep (CHR '','') '', ''" "json_sep (CHR '':'') '': ''"
  by (auto simp: json_sep_def json_ws_def)

lemma skip_ws_append: "\<forall>x \<in> set w. json_ws x \<Longrightarrow> skip_ws (w @ s) = skip_ws s"
  by (induction w) auto

definition starts_value :: "string \<Rightarrow> bool" where
  "starts_value s \<longleftrightarrow> (\<exists>c t. s = c # t \<and> \<not> json_ws c \<and> c \<noteq> CHR '']'' \<and> c \<noteq> CHR ''}'')"

lemma starts_value_append: "starts_value s \<Longrightarrow> starts_value (s @ r)"
  by (auto simp: starts_value_def)

lemma skip_ws_starts: "starts_value s \<Longrightarrow> skip_ws (s @ r) = s @ r"
  by (auto simp: starts_value_def)

lemma starts_value_digit: "is_digit c \<Longrightarrow> starts_value (c # s)"
  by (auto simp: starts_value_def json_ws_def is_digit_def)

lemma starts_value_minus: "starts_value (CHR ''-'' # s)"
  by (simp add: starts_value_def json_ws_def)

lemma starts_value_show_int: "starts_value (show_int i)"
proof (cases "i < 0")
  case True
  then show ?thesis by (simp add: show_int_def starts_value_minus)
next
  case False
  obtain c t where "show_nat (nat i) = c # t" by (cases "show_nat (nat i)") auto
  moreover have "\<forall>c \<in> set (show_nat (nat i)). is_digit c" by (rule show_nat_digits)
  ultimately show ?thesis using False by (simp add: show_int_def starts_value_digit)
qed

lemma starts_value_float: "float_text fr t \<Longrightarrow> starts_value t"
proof -
  assume "float_text fr t"
  then consider "t \<in> {''NaN'', ''Infinity'', ''-Infinity''}" | "lex_number t = Some (t, True, [])"
    by (auto simp: float_text_def)
  then show ?thesis
  proof cases
    case 2
    then obtain c u where t: "t = c # u" using lex_number_nonempty by (cases t) auto
    then have "is_digit c \<or> c = CHR ''-''"
      using lex_number_first [of c u] 2 by (simp del: not_None_eq)
    then show ?thesis using t by (auto intro: starts_value_digit starts_value_minus)
  next
    case 1
    then show ?thesis
      by (elim insertE emptyE) (simp_all add: starts_value_def json_ws_def)
  qed
qed

lemma quote_neq [simp]:
  "quote \<noteq> CHR ''{''" "quote \<noteq> CHR ''[''" "quote \<noteq> CHR '']''" "quote \<noteq> CHR ''}''"
  "CHR ''{'' \<noteq> quote" "CHR ''['' \<noteq> quote" "CHR '']'' \<noteq> quote" "CHR ''}'' \<noteq> quote"
  by (simp_all flip: ord_inject)

lemma starts_value_dumps: "wf_json fr j \<Longrightarrow> starts_value (dumps isep ksep j)"
proof (cases j)
  case (JInt i)
  then show ?thesis by (simp add: starts_value_show_int)
next
  case (JFloat t)
  moreover assume "wf_json fr j"
  ultimately show ?thesis by (simp add: starts_value_float)
next
  case (JStr s)
  then show ?thesis
    by (simp add: esc_string_def starts_value_def json_ws_def)
qed (auto simp: starts_value_def json_ws_def)

lemma parse_elems_join:
  assumes sep: "json_sep (CHR '','') isep"
    and ne: "xs \<noteq> []"
    and pv: "\<And>x n r. x \<in> set xs \<Longrightarrow> num_end r \<Longrightarrow> length (d x) \<le> n \<Longrightarrow>
               parse_value fr n (d x @ r) = Some (x, r)"
    and st: "\<And>x. x \<in> set xs \<Longrightarrow> starts_value (d x)"
    and n: "length (join isep (map d xs)) < n"
  shows "parse_elems fr n (join isep (map d xs) @ CHR '']'' # r) = Some (xs, r)"
  using ne pv st n
proof (induction xs arbitrary: n)
  case Nil
  then show ?case by simp
next
  case (Cons x xs)
  obtain m where m: "n = Suc m" using Cons.prems(4) by (cases n) auto
  have ws: "\<not> json_ws (CHR '']'')" "\<not> json_ws (CHR '','')" by (simp_all add: json_ws_def)
  have ne: "num_end (CHR '']'' # t)" "num_end (CHR '','' # t)" for t
    by (simp_all add: num_end_Cons is_digit_def)
  show ?case
  proof (cases xs)
    case Nil
    have "parse_value fr m (d x @ CHR '']'' # r) = Some (x, CHR '']'' # r)"
      using Cons.prems(2,4) m Nil ne by simp
    then show ?thesis using Nil m ws by simp
  next
    case (Cons y ys)
    obtain w where w: "isep = CHR '','' # w" and ww: "\<forall>x \<in> set w. json_ws x"
      using sep by (auto simp: json_sep_def)
    let ?rest = "join isep (map d xs) @ CHR '']'' # r"
    have eq: "join isep (map d (x # xs)) @ CHR '']'' # r = d x @ CHR '','' # w @ ?rest"
      using Cons w by (simp add: join_Cons)
    have len: "length (d x) \<le> m" "length (join isep (map d xs)) < m"
      using Cons.prems(4) m Cons w by (auto simp: join_Cons)
    have v: "parse_value fr m (d x @ CHR '','' # w @ ?rest) = Some (x, CHR '','' # w @ ?rest)"
      using Cons.prems(2) len(1) ne by simp
    have "starts_value (join isep (map d xs))"
      using Cons Cons.prems(3) [of y] by (auto simp: join_Cons intro: starts_value_append)
    then have "skip_ws (w @ ?rest) = ?rest"
      using ww by (simp add: skip_ws_append skip_ws_starts)
    moreover have "parse_elems fr m ?rest = Some (xs, r)"
      using Cons.IH [of m] Cons Cons.prems(2,3) len(2) by simp
    ultimately show ?thesis unfolding eq m using v ws by simp
  qed
qed


definition member_text :: "string \<Rightarrow> ('v \<Rightarrow> string) \<Rightarrow> string \<times> 'v \<Rightarrow> string" where
  "member_text ksep d p = esc_string (fst p) @ ksep @ d (snd p)"

lemma dumps_JObj: "dumps isep ksep (JObj kvs) =
    CHR ''{'' # join isep (map (member_text ksep (dumps isep ksep)) kvs) @ ''}''"
  by (simp add: member_text_def [abs_def] case_prod_beta')

lemma member_text_length: "length (d (snd p)) < length (member_text ksep d p)"
  by (simp add: member_text_def esc_string_def)

lemma starts_value_member: "starts_value (member_text ksep d p)"
  by (simp add: member_text_def esc_string_def starts_value_def json_ws_def)

lemma parse_members_join:
  assumes isep: "json_sep (CHR '','') isep" and ksep: "json_sep (CHR '':'') ksep"
    and ne: "ps \<noteq> []"
    and pv: "\<And>p n r. p \<in> set ps \<Longrightarrow> num_end r \<Longrightarrow> length (d (snd p)) \<le> n \<Longrightarrow>
               parse_value fr n (d (snd p) @ r) = Some (snd p, r)"
    and st: "\<And>p. p \<in> set ps \<Longrightarrow> starts_value (d (snd p))"
    and n: "length (join isep (map (member_text ksep d) ps)) < n"
  shows "parse_members fr n (join isep (map (member_text ksep d) ps) @ CHR ''}'' # r) = Some (ps, r)"
  using ne pv st n
proof (induction ps arbitrary: n)
  case Nil
  then show ?case by simp
next
  case (Cons p ps)
  let ?k = "fst p" and ?v = "snd p"
  obtain m where m: "n = Suc m" using Cons.prems(4) by (cases n) auto
  obtain w where w: "ksep = CHR '':'' # w" and ww: "\<forall>x \<in> set w. json_ws x"
    using ksep by (auto simp: json_sep_def)
  have ws: "\<not> json_ws (CHR ''}'')" "\<not> json_ws (CHR '','')" "\<not> json_ws (CHR '':'')"
    by (simp_all add: json_ws_def)
  have ne: "num_end (CHR ''}'' # t)" "num_end (CHR '','' # t)" for t
    by (simp_all add: num_end_Cons is_digit_def)
  have key: "member_text ksep d p @ t =
      quote # concat (map esc_char ?k) @ quote # CHR '':'' # w @ d ?v @ t" for t
    by (simp add: member_text_def esc_string_def w)
  have skip: "skip_ws (w @ d ?v @ t) = d ?v @ t" for t
    using ww Cons.prems(3) [of p] by (simp add: skip_ws_append skip_ws_starts)
  show ?case
  proof (cases ps)
    case Nil
    have "length (d ?v) \<le> m"
      using Cons.prems(4) m Nil by (simp add: member_text_def)
    then have "parse_value fr m (d ?v @ CHR ''}'' # r) = Some (?v, CHR ''}'' # r)"
      using Cons.prems(2) ne by simp
    then have "parse_members fr n (member_text ksep d p @ CHR ''}'' # r) = Some ([p], r)"
      unfolding key m using ws skip by (simp add: scan_esc_string)
    then show ?thesis using Nil by simp
  next
    case (Cons q qs)
    obtain w' where w': "isep = CHR '','' # w'" and ww': "\<forall>x \<in> set w'. json_ws x"
      using isep by (auto simp: json_sep_def)
    let ?rest = "join isep (map (member_text ksep d) ps) @ CHR ''}'' # r"
    have eq: "join isep (map (member_text ksep d) (p # ps)) @ CHR ''}'' # r =
        member_text ksep d p @ CHR '','' # w' @ ?rest"
      using Cons w' by (simp add: join_Cons)
    have len: "length (d ?v) \<le> m" "length (join isep (map (member_text ksep d) ps)) < m"
      using Cons.prems(4) m Cons w' member_text_length [of d p ksep] by (auto simp: join_Cons)
    have v: "parse_value fr m (d ?v @ CHR '','' # w' @ ?rest) = Some (?v, CHR '','' # w' @ ?rest)"
      using Cons.prems(2) len(1) ne by simp
    have "starts_value (join isep (map (member_text ksep d) ps))"
      using Cons by (auto simp: join_Cons intro: starts_value_append starts_value_member)
    then have "skip_ws (w' @ ?rest) = ?rest"
      using ww' by (simp add: skip_ws_append skip_ws_starts)
    moreover have "parse_members fr m ?rest = Some (ps, r)"
      using Cons.IH [of m] Cons Cons.prems(2,3) len(2) by simp
    ultimately show ?thesis unfolding eq key m using v ws skip by (simp add: scan_esc_string)
  qed
qed

lemma parse_value_atom:
  assumes "starts_value s" and "hd s \<noteq> quote" and "hd s \<noteq> CHR ''{''" and "hd s \<noteq> CHR ''[''"
  shows "parse_value fr (Suc n) s = parse_atom fr s"
  using assms by (cases s) (auto simp: starts_value_def)

lemma parse_atom_literals:
  "parse_atom fr (''null'' @ r) = Some (JNull, r)"
  "parse_atom fr (''true'' @ r) = Some (JBool True, r)"
  "parse_atom fr (''false'' @ r) = Some (JBool False, r)"
  by (simp_all add: parse_atom_def)

lemma parse_atom_float_names:
  "parse_atom fr (''NaN'' @ r) = Some (JFloat ''NaN'', r)"
  "parse_atom fr (''Infinity'' @ r) = Some (JFloat ''Infinity'', r)"
  "parse_atom fr (''-Infinity'' @ r) = Some (JFloat ''-Infinity'', r)"
  by (simp_all add: parse_atom_def lex_number_def lex_int_def lex_uint_def lex_digits_def is_digit_def)

lemma number_head:
  assumes "lex_number s = Some (t, b, r)"
  shows "s \<noteq> [] \<and> hd s \<noteq> quote \<and> hd s \<noteq> CHR ''{'' \<and> hd s \<noteq> CHR ''[''"
proof -
  obtain c u where s: "s = c # u" using lex_number_nonempty [OF assms] by (cases s) auto
  have "is_digit c \<or> c = CHR ''-''"
    using lex_number_first [of c u] assms s by simp
  then have "ord c \<noteq> 34 \<and> ord c \<noteq> 123 \<and> ord c \<noteq> 91" by (auto simp: is_digit_def)
  then show ?thesis using s by auto
qed

lemma parse_value_number:
  assumes "lex_number s = Some (t, b, r)"
  shows "parse_value fr (Suc n) s = Some (if b then JFloat (fr t) else JInt (int_of_lexeme t), r)"
proof -
  obtain c u where s: "s = c # u" using number_head [OF assms] by (cases s) auto
  then show ?thesis using number_head [OF assms] parse_atom_number [OF assms] by simp
qed

lemma skip_ws_cons: "\<not> json_ws c \<Longrightarrow> skip_ws (c # s) = c # s"
  by simp

lemma parse_value_dumps:
  assumes isep: "json_sep (CHR '','') isep" and ksep: "json_sep (CHR '':'') ksep"
  shows "wf_json fr j \<Longrightarrow> num_end r \<Longrightarrow> length (dumps isep ksep j) \<le> n \<Longrightarrow>
    parse_value fr n (dumps isep ksep j @ r) = Some (j, r)"
proof (induction j arbitrary: n r)
  case JNull
  then obtain m where "n = Suc m" by (cases n) auto
  then show ?case using parse_value_atom [of "''null'' @ r"] parse_atom_literals(1) [of fr r]
    by (simp add: starts_value_def json_ws_def quote_neq flip: ord_inject)
next
  case (JBool b)
  then obtain m where "n = Suc m" by (cases n) (auto split: if_splits)
  then show ?case
    using parse_value_atom [of "''true'' @ r"] parse_atom_literals(2) [of fr r]
      parse_value_atom [of "''false'' @ r"] parse_atom_literals(3) [of fr r]
    by (simp add: starts_value_def json_ws_def flip: ord_inject)
next
  case (JInt i)
  then obtain m where "n = Suc m" by (cases n) (auto simp: show_int_def split: if_splits)
  then show ?case
    using parse_value_number [OF lex_number_show_int [OF JInt.prems(2)]] int_of_lexeme_show_int
    by (simp del: parse_value.simps)
next
  case (JFloat t)
  have "starts_value t" using JFloat.prems(1) by (simp add: starts_value_float)
  then obtain m where m: "n = Suc m" using JFloat.prems(3) by (cases n) (auto simp: starts_value_def)
  from JFloat.prems(1) consider "t = ''NaN''" | "t = ''Infinity''" | "t = ''-Infinity''"
    | "lex_number t = Some (t, True, [])" "fr t = t"
    by (auto simp: float_text_def)
  then show ?case
  proof cases
    case 4
    then have "lex_number (t @ r) = Some (t, True, r)"
      using lex_number_append [OF JFloat.prems(2), of t t True "[]"] by simp
    from parse_value_number [OF this] show ?thesis using 4 m by (simp del: parse_value.simps)
  qed (use m parse_atom_float_names [of fr r] in
      \<open>simp_all add: flip: ord_inject\<close>)
next
  case (JStr s)
  then obtain m where "n = Suc m" by (cases n) (auto simp: esc_string_def)
  then show ?case by (simp add: esc_string_def scan_esc_string)
next
  case (JList xs)
  then obtain m where m: "n = Suc m" by (cases n) auto
  show ?case
  proof (cases "xs = []")
    case True
    then show ?thesis using m by (simp add: json_ws_def quote_neq)
  next
    case False
    let ?t = "join isep (map (dumps isep ksep) xs)"
    have "parse_elems fr m (?t @ CHR '']'' # r) = Some (xs, r)"
      using JList False m
      by (intro parse_elems_join [OF isep]) (auto intro: starts_value_dumps)
    moreover have "starts_value ?t"
      using JList.prems(1) False
      by (cases xs) (auto simp: join_Cons intro: starts_value_append starts_value_dumps)
    ultimately show ?thesis
      using m by (auto simp: starts_value_def quote_neq)
  qed
next
  case (JObj kvs)
  then obtain m where m: "n = Suc m" by (cases n) auto
  show ?case
  proof (cases "kvs = []")
    case True
    then show ?thesis using m by (simp add: json_ws_def quote_neq)
  next
    case False
    let ?t = "join isep (map (member_text ksep (dumps isep ksep)) kvs)"
    have "parse_members fr m (?t @ CHR ''}'' # r) = Some (kvs, r)"
      using JObj False m
      by (intro parse_members_join [OF isep ksep])
        (fastforce simp: dumps_JObj simp del: dumps.simps intro: starts_value_dumps)+
    moreover have "starts_value ?t"
      using False by (cases kvs) (auto simp: join_Cons intro: starts_value_append starts_value_member)
    moreover have "distinct (map fst kvs)" using JObj.prems(1) by simp
    ultimately show ?thesis
      using m unfolding dumps_JObj by (auto simp: starts_value_def dict_of_pairs_distinct quote_neq)
  qed
qed

section \<open>Round trip and injectivity\<close>

lemma json_sep_default: "json_sep (CHR '','') '', ''" "json_sep (CHR '':'') '': ''"
  by (simp_all add: json_sep_def json_ws_def)

lemma json_sep_compact: "json_sep (CHR '','') '',''" "json_sep (CHR '':'') '':''"
  by (simp_all add: json_sep_def)

lemma json_loads_dumps:
  assumes "json_sep (CHR '','') isep" and "json_sep (CHR '':'') ksep" and "wf_json fr j"
  shows "json_loads fr (dumps isep ksep j) = Some j"
proof -
  let ?s = "dumps isep ksep j"
  have "skip_ws ?s = ?s"
    using skip_ws_starts [OF starts_value_dumps [OF assms(3)], of isep ksep "[]"] by simp
  moreover have "parse_value fr (Suc (length ?s)) ?s = Some (j, [])"
    using parse_value_dumps [OF assms, of "[]" "Suc (length ?s)"] by simp
  ultimately show ?thesis by (simp add: json_loads_def del: parse_value.simps)
qed

lemma json_loads_json_dumps: "wf_json fr j \<Longrightarrow> json_loads fr (json_dumps j) = Some j"
  unfolding json_dumps_def by (rule json_loads_dumps [OF json_sep_default])

lemma dumps_codec:
  "json_sep (CHR '','') isep \<Longrightarrow> json_sep (CHR '':'') ksep \<Longrightarrow>
    exact_codec (dumps isep ksep) (json_loads fr) Some (wf_json fr)"
  by unfold_locales (simp_all add: json_loads_dumps)

interpretation js: exact_codec json_dumps "json_loads fr" Some "wf_json fr" for fr
  by standard (simp_all add: json_loads_json_dumps)

interpretation cj: exact_codec "dumps '','' '':''" "json_loads fr" Some "wf_json fr" for fr
  by (rule dumps_codec [OF json_sep_compact])

section \<open>Key order\<close>

lemma map_fst_sorted: "map fst (sort_key fst (map (\<lambda>(k, v). (k, f v)) kvs)) = sort (map fst kvs)"
proof (rule sym, rule properties_for_sort)
  show "mset (map fst (sort_key fst (map (\<lambda>(k, v). (k, f v)) kvs))) = mset (map fst kvs)"
    by (simp add: multiset.map_comp comp_def case_prod_beta')
qed simp

lemma wf_sort_keys: "wf_json fr j \<Longrightarrow> wf_json fr (sort_keys j)"
proof (induction j)
  case (JObj kvs)
  have "distinct (map fst kvs)" using JObj.prems by simp
  moreover have "wf_json fr (sort_keys v)" if "(k, v) \<in> set kvs" for k v
    using JObj.IH [OF that, of v] JObj.prems that by auto
  ultimately show ?case
    using map_fst_sorted [of sort_keys kvs]
    by (auto simp: map_fst_sorted)
qed auto

text \<open>Two dictionaries with the same items, whatever their order, print the same text.\<close>

lemma sort_key_perm_distinct:
  assumes "mset xs = mset ys" and "distinct (map f xs)"
  shows "sort_key f xs = sort_key f ys"
  using assms by (intro sort_key_inj_key_eq) (auto simp: distinct_map)

end
