(* ===== verification/PolicySchema.thy ===== *)
theory PolicySchema
  imports PyJson Complex_Main
begin

text \<open>
  \<open>policies/schema.py\<close>: the typed shape of a policy. An effect is a datatype with the
  eight members of the discriminated union, its field constraints are \<open>effect_ok\<close>, and
  \<open>EFFECT_ORDER\<close> gives the rank a compiled policy set is sorted by.
\<close>

datatype policy_stage = RequestStage | ResponseStage

datatype effect =
    AllowlistEffect
  | DenylistEffect (deny_reason: string)
  | RateLimitEffect (rate_limit: int) (rate_window: int)
  | PiiRedactionEffect (pii_patterns: "string list")
  | HitlGateEffect (reviewer_group_of: string) (hitl_timeout: int)
  | CustomEffect (custom_name: string) (custom_stage: policy_stage) (custom_params: "(string, json) dict")
  | TagOnlyEffect
  | CostCapEffect (session_limit_usd: rat) (warn_at_ratio: rat)

text \<open>The \<open>Field(gt=..., le=...)\<close> constraints of the effect models.\<close>

fun effect_ok :: "effect \<Rightarrow> bool" where
  "effect_ok (RateLimitEffect limit window) = (limit > 0 \<and> window > 0)"
| "effect_ok (HitlGateEffect g timeout) = (timeout > 0)"
| "effect_ok (CostCapEffect usd ratio) = (usd > 0 \<and> ratio > 0 \<and> ratio \<le> 1)"
| "effect_ok _ = True"

fun effect_type :: "effect \<Rightarrow> string" where
  "effect_type AllowlistEffect = ''allowlist''"
| "effect_type (DenylistEffect r) = ''denylist''"
| "effect_type (RateLimitEffect l w) = ''rate_limit''"
| "effect_type (PiiRedactionEffect ps) = ''pii_redaction''"
| "effect_type (HitlGateEffect g t) = ''hitl_gate''"
| "effect_type (CustomEffect n st p) = ''custom''"
| "effect_type TagOnlyEffect = ''tag_only''"
| "effect_type (CostCapEffect u r) = ''cost_cap''"

definition EFFECT_ORDER :: "string list" where
  "EFFECT_ORDER =
     [''tag_only'', ''allowlist'', ''denylist'', ''rate_limit'', ''custom'', ''hitl_gate'',
      ''cost_cap'', ''pii_redaction'']"

text \<open>\<open>xs.index(x)\<close>, for an element that is present.\<close>

fun index_of :: "'a \<Rightarrow> 'a list \<Rightarrow> nat" where
  "index_of x [] = 0"
| "index_of x (y # ys) = (if x = y then 0 else Suc (index_of x ys))"

definition effect_rank :: "effect \<Rightarrow> nat" where
  "effect_rank e = index_of (effect_type e) EFFECT_ORDER"

record applies_to =
  at_server :: string
  at_tools :: "string list"

definition applies_matches :: "applies_to \<Rightarrow> string \<Rightarrow> string \<Rightarrow> bool" where
  "applies_matches a srv tool =
     (let server_matches = at_server a = ''*'' \<or> at_server a = srv
      in server_matches \<and> (''*'' \<in> set (at_tools a) \<or> tool \<in> set (at_tools a)))"

datatype severity = SevLow | SevMedium | SevHigh

record audit_meta =
  am_severity :: severity
  am_tag :: "string list"

record policy =
  pol_name :: string
  pol_description :: string
  pol_applies :: applies_to
  pol_effect :: effect
  pol_audit :: audit_meta

record pack_manifest =
  pm_name :: string
  pm_version :: string
  pm_description :: string
  pm_maintainer :: string
  pm_regulation_references :: "string list"
  pm_tags :: "string list"
  pm_policies :: "string list"

text \<open>Every effect has an entry in \<open>EFFECT_ORDER\<close>, so \<open>index\<close> never raises.\<close>

lemma effect_type_in_order: "effect_type e \<in> set EFFECT_ORDER"
  by (cases e) (simp_all add: EFFECT_ORDER_def)

lemma effect_rank_simps [simp]:
  "effect_rank TagOnlyEffect = 0"
  "effect_rank AllowlistEffect = 1"
  "effect_rank (DenylistEffect r) = 2"
  "effect_rank (RateLimitEffect l w) = 3"
  "effect_rank (CustomEffect n st p) = 4"
  "effect_rank (HitlGateEffect g t) = 5"
  "effect_rank (CostCapEffect u q) = 6"
  "effect_rank (PiiRedactionEffect ps) = 7"
  by (simp_all add: effect_rank_def EFFECT_ORDER_def)

lemma applies_matches_wildcard:
  "at_server a = ''*'' \<Longrightarrow> ''*'' \<in> set (at_tools a) \<Longrightarrow> applies_matches a srv tool"
  by (simp add: applies_matches_def)

end
