(* ===== verification/PackLoader.thy ===== *)
theory PackLoader
  imports PolicySchema
begin

text \<open>
  \<open>policies/loader.py\<close>: a policy pack is a directory of policy files and an optional
  manifest. The directory is the association list of its \<open>*.yaml\<close> file names to their
  text, in the order the file system lists them. Parsing and validating a file (PyYAML and
  pydantic) is a parameter.
\<close>

definition MANIFEST_FILENAME :: string where
  "MANIFEST_FILENAME = ''pack.yaml''"

type_synonym directory = "(string \<times> string) list"

text \<open>\<open>sorted(f for f in glob("*.yaml") if f.name != MANIFEST_FILENAME)\<close>\<close>

definition policy_files :: "directory \<Rightarrow> directory" where
  "policy_files dir = sort_key fst (filter (\<lambda>f. fst f \<noteq> MANIFEST_FILENAME) dir)"

definition file_path :: "string \<Rightarrow> string \<times> string \<Rightarrow> string" where
  "file_path path f = path @ ''/'' @ fst f"

definition load_pack_manifest ::
    "(string \<Rightarrow> pack_manifest res) \<Rightarrow> directory \<Rightarrow> pack_manifest option res" where
  "load_pack_manifest parse dir =
     (case map_of dir MANIFEST_FILENAME of
        None \<Rightarrow> Inr None
      | Some s \<Rightarrow> bind_res (parse s) (\<lambda>m. Inr (Some m)))"

text \<open>The duplicate check: \<open>seen\<close> maps a policy name to the file it came from.\<close>

fun check_duplicates ::
    "(string, string) dict \<Rightarrow> (policy \<times> string) list \<Rightarrow> (string, string) dict res" where
  "check_duplicates seen [] = Inr seen"
| "check_duplicates seen ((p, file) # rest) =
     (case map_of seen (pol_name p) of
        Some other \<Rightarrow>
          Inl (Exn ValueErr (''duplicate policy name '' @ py_repr (pol_name p) @ '' in '' @ file @
                             '' (already used by '' @ other @ '')''))
      | None \<Rightarrow> check_duplicates (dict_set (pol_name p) file seen) rest)"

text \<open>\<open>manifest_names - directory_names\<close>, in the order \<open>sorted\<close> shows it.\<close>

definition name_diff :: "string list \<Rightarrow> string list \<Rightarrow> string list" where
  "name_diff xs ys = sort (remdups (filter (\<lambda>x. x \<notin> set ys) xs))"

definition check_manifest ::
    "string \<Rightarrow> pack_manifest option \<Rightarrow> (string, string) dict \<Rightarrow> unit res" where
  "check_manifest path mf seen =
     (case mf of
        None \<Rightarrow> Inr ()
      | Some m \<Rightarrow>
          (let missing = name_diff (pm_policies m) (map fst seen);
               extra = name_diff (map fst seen) (pm_policies m)
           in if missing \<noteq> [] \<or> extra \<noteq> []
              then Inl (Exn ValueErr (path @ ''/'' @ MANIFEST_FILENAME @
                '''s policies list doesn't match the directory contents: missing '' @
                py_repr_list missing @ '', unlisted extra '' @ py_repr_list extra))
              else Inr ()))"

definition load_policy_pack ::
    "(string \<Rightarrow> policy res) \<Rightarrow> (string \<Rightarrow> pack_manifest res) \<Rightarrow> string \<Rightarrow> directory \<Rightarrow>
     policy list res" where
  "load_policy_pack parse_policy parse_manifest path dir =
     (let files = policy_files dir in
      bind_res (map_res (\<lambda>f. parse_policy (snd f)) files) (\<lambda>policies.
      bind_res (check_duplicates [] (zip policies (map (file_path path) files))) (\<lambda>seen.
      bind_res (load_pack_manifest parse_manifest dir) (\<lambda>mf.
      bind_res (check_manifest path mf seen) (\<lambda>_.
      Inr policies)))))"

section \<open>What a loaded pack satisfies\<close>

lemma check_duplicates_Inr:
  "check_duplicates seen ps = Inr seen' \<Longrightarrow>
     distinct (map (pol_name \<circ> fst) ps) \<and>
     fst ` set seen \<inter> set (map (pol_name \<circ> fst) ps) = {} \<and>
     fst ` set seen' = fst ` set seen \<union> set (map (pol_name \<circ> fst) ps)"
proof (induction seen ps rule: check_duplicates.induct)
  case (2 seen p f rest)
  then have none: "map_of seen (pol_name p) = None"
    and rec: "check_duplicates (dict_set (pol_name p) f seen) rest = Inr seen'"
    by (auto split: option.splits)
  from none have "pol_name p \<notin> fst ` set seen" by (simp add: map_of_eq_None_iff)
  with "2.IH" [OF none rec] show ?case by (auto simp: keys_dict_set)
qed auto

lemma check_duplicates_ok:
  "distinct (map (pol_name \<circ> fst) ps) \<Longrightarrow> fst ` set seen \<inter> set (map (pol_name \<circ> fst) ps) = {} \<Longrightarrow>
     \<exists>seen'. check_duplicates seen ps = Inr seen'"
proof (induction seen ps rule: check_duplicates.induct)
  case (2 seen p f rest)
  then have none: "map_of seen (pol_name p) = None" by (auto simp: map_of_eq_None_iff)
  with 2 show ?case by (auto simp: keys_dict_set)
qed auto

lemma check_manifest_Inr:
  "check_manifest path mf seen = Inr () \<longleftrightarrow>
     (\<forall>m. mf = Some m \<longrightarrow> set (pm_policies m) = fst ` set seen)"
proof -
  have "name_diff xs ys = [] \<longleftrightarrow> set xs \<subseteq> set ys" for xs ys
    by (auto simp: name_diff_def filter_empty_conv simp flip: set_empty)
  then show ?thesis by (auto simp: check_manifest_def Let_def split: option.splits)
qed

lemma zip_names: "length ps = length fs \<Longrightarrow> map (pol_name \<circ> fst) (zip ps fs) = map pol_name ps"
  by (induction ps fs rule: list_induct2) auto

lemma load_policy_pack_sound:
  assumes "load_policy_pack pp pm path dir = Inr ps"
  shows "list_all2 (\<lambda>f p. pp (snd f) = Inr p) (policy_files dir) ps"
    and "distinct (map pol_name ps)"
    and "\<And>m. load_pack_manifest pm dir = Inr (Some m) \<Longrightarrow> set (pm_policies m) = pol_name ` set ps"
proof -
  let ?fs = "policy_files dir"
  from assms obtain seen mf where m: "map_res (\<lambda>f. pp (snd f)) ?fs = Inr ps"
    and d: "check_duplicates [] (zip ps (map (file_path path) ?fs)) = Inr seen"
    and mf: "load_pack_manifest pm dir = Inr mf" and c: "check_manifest path mf seen = Inr ()"
    by (auto simp: load_policy_pack_def bind_res_eq_Inr Let_def)
  from m show all: "list_all2 (\<lambda>f p. pp (snd f) = Inr p) ?fs ps"
    by (simp add: map_res_Inr_iff)
  then have len: "length ps = length (map (file_path path) ?fs)" by (simp add: list_all2_lengthD)
  note seen = check_duplicates_Inr [OF d, unfolded zip_names [OF len]]
  from seen show "distinct (map pol_name ps)" by simp
  show "set (pm_policies m) = pol_name ` set ps"
    if "load_pack_manifest pm dir = Inr (Some m)" for m
    using c that mf seen by (auto simp: check_manifest_Inr)
qed

lemma load_policy_pack_complete:
  assumes "list_all2 (\<lambda>f p. pp (snd f) = Inr p) (policy_files dir) ps"
    and "distinct (map pol_name ps)"
    and "load_pack_manifest pm dir = Inr mf"
    and "\<And>m. mf = Some m \<Longrightarrow> set (pm_policies m) = pol_name ` set ps"
  shows "load_policy_pack pp pm path dir = Inr ps"
proof -
  let ?fs = "policy_files dir"
  have m: "map_res (\<lambda>f. pp (snd f)) ?fs = Inr ps" using assms(1) by (simp add: map_res_Inr_iff)
  have len: "length ps = length (map (file_path path) ?fs)" using assms(1) by (simp add: list_all2_lengthD)
  obtain seen where d: "check_duplicates [] (zip ps (map (file_path path) ?fs)) = Inr seen"
    using check_duplicates_ok [of "zip ps (map (file_path path) ?fs)" "[]"] assms(2) zip_names [OF len] by auto
  have "fst ` set seen = pol_name ` set ps"
    using check_duplicates_Inr [OF d, unfolded zip_names [OF len]] by simp
  then have "check_manifest path mf seen = Inr ()" using assms(4) by (simp add: check_manifest_Inr)
  with m d assms(3) show ?thesis by (simp add: load_policy_pack_def Let_def)
qed

text \<open>
  A directory that holds, in any order, the files \<open>fs\<close> and perhaps a manifest: it loads as their
  policies in the order of the file names.
\<close>

lemma policy_files_listed:
  assumes "distinct (map fst dir)" and "set dir = M \<union> set fs" and "fst ` M \<subseteq> {MANIFEST_FILENAME}"
    and "MANIFEST_FILENAME \<notin> fst ` set fs" and "sorted_wrt (<) (map fst fs)"
  shows "policy_files dir = fs"
proof -
  have inj: "inj_on fst (set dir)" using assms(1) by (simp add: distinct_map)
  have "set (policy_files dir) = {f \<in> M \<union> set fs. fst f \<noteq> MANIFEST_FILENAME}"
    by (simp add: policy_files_def assms(2))
  also have "\<dots> = set fs"
  proof -
    have "fst f = MANIFEST_FILENAME" if "f \<in> M" for f using assms(3) that by (metis image_subset_iff singletonD)
    moreover have "fst f \<noteq> MANIFEST_FILENAME" if "f \<in> set fs" for f using assms(4) that by (metis imageI)
    ultimately show ?thesis by auto
  qed
  finally have files: "set (policy_files dir) = set fs" .
  show ?thesis
  proof (rule map_sorted_distinct_set_unique [OF _ _ _ _ _ files])
    show "inj_on fst (set (policy_files dir) \<union> set fs)"
      using inj assms(2) files by (simp add: inj_on_subset)
    show "sorted (map fst (policy_files dir))" by (simp add: policy_files_def)
    show "distinct (map fst (policy_files dir))"
      using assms(1) by (simp add: policy_files_def distinct_map inj_on_def)
    show "sorted (map fst fs)" "distinct (map fst fs)" using assms(5) by (simp_all add: strict_sorted_iff)
  qed
qed

end
