(* ===== verification/Sha256.thy ===== *)
theory Sha256
  imports PyText "HOL-Library.Word"
begin

text \<open>
  What the audit log uses of \<open>hashlib\<close>: \<open>hashlib.sha256(s.encode("utf-8")).hexdigest()\<close>,
  on 32-bit words (FIPS 180-4), and the UTF-8 codec for code points below 256.
\<close>

unbundle bit_operations_syntax

section \<open>UTF-8\<close>

definition utf8_char :: "char \<Rightarrow> nat list" where
  "utf8_char c = (let n = ord c in if n < 128 then [n] else [192 + n div 64, 128 + n mod 64])"

definition utf8_encode :: "string \<Rightarrow> nat list" where
  "utf8_encode s = concat (map utf8_char s)"

text \<open>\<open>bytes.decode("utf-8")\<close>; \<open>None\<close> where it raises or the code point is not below 256.\<close>

fun utf8_decode :: "nat list \<Rightarrow> string option" where
  "utf8_decode [] = Some []"
| "utf8_decode [b] = (if b < 128 then Some [char_of b] else None)"
| "utf8_decode (b # c # bs) =
     (if b < 128 then map_option (Cons (char_of b)) (utf8_decode (c # bs))
      else if (b = 194 \<or> b = 195) \<and> 128 \<le> c \<and> c < 192
        then map_option (Cons (char_of ((b - 192) * 64 + (c - 128)))) (utf8_decode bs)
      else None)"

lemma utf8_decode_low: "b < 128 \<Longrightarrow> utf8_decode (b # bs) = map_option (Cons (char_of b)) (utf8_decode bs)"
  by (cases bs) auto

lemma utf8_decode_char: "utf8_decode (utf8_char c @ bs) = map_option (Cons c) (utf8_decode bs)"
proof (cases "ord c < 128")
  case True
  then show ?thesis by (simp add: utf8_char_def utf8_decode_low)
next
  case False
  let ?n = "ord c"
  have "?n < 256" by simp
  with False have "?n div 64 = 2 \<or> ?n div 64 = 3" by linarith
  moreover have "?n div 64 * 64 + ?n mod 64 = ?n" by simp
  ultimately show ?thesis using False by (auto simp: utf8_char_def Let_def)
qed

lemma utf8_decode_encode [simp]: "utf8_decode (utf8_encode s) = Some s"
  by (induction s) (auto simp: utf8_encode_def utf8_decode_char)

lemma utf8_encode_inject [simp]: "utf8_encode s = utf8_encode t \<longleftrightarrow> s = t"
  by (metis option.inject utf8_decode_encode)

section \<open>The compression function\<close>

type_synonym w32 = "32 word"

definition sha_k :: "w32 list" where
  "sha_k =
     [1116352408, 1899447441, 3049323471, 3921009573, 961987163, 1508970993,
      2453635748, 2870763221, 3624381080, 310598401, 607225278, 1426881987,
      1925078388, 2162078206, 2614888103, 3248222580, 3835390401, 4022224774,
      264347078, 604807628, 770255983, 1249150122, 1555081692, 1996064986,
      2554220882, 2821834349, 2952996808, 3210313671, 3336571891, 3584528711,
      113926993, 338241895, 666307205, 773529912, 1294757372, 1396182291,
      1695183700, 1986661051, 2177026350, 2456956037, 2730485921, 2820302411,
      3259730800, 3345764771, 3516065817, 3600352804, 4094571909, 275423344,
      430227734, 506948616, 659060556, 883997877, 958139571, 1322822218,
      1537002063, 1747873779, 1955562222, 2024104815, 2227730452, 2361852424,
      2428436474, 2756734187, 3204031479, 3329325298]"

definition sha_init :: "w32 list" where
  "sha_init =
     [1779033703, 3144134277, 1013904242, 2773480762, 1359893119, 2600822924,
      528734635, 1541459225]"

definition rotr :: "nat \<Rightarrow> w32 \<Rightarrow> w32" where
  "rotr n x = drop_bit n x OR push_bit (32 - n) x"

definition sha_ch :: "w32 \<Rightarrow> w32 \<Rightarrow> w32 \<Rightarrow> w32" where
  "sha_ch x y z = (x AND y) XOR (NOT x AND z)"

definition sha_maj :: "w32 \<Rightarrow> w32 \<Rightarrow> w32 \<Rightarrow> w32" where
  "sha_maj x y z = (x AND y) XOR (x AND z) XOR (y AND z)"

text \<open>The message schedule, newest word first.\<close>

definition schedule_word :: "w32 list \<Rightarrow> w32" where
  "schedule_word ws =
     (let w2 = ws ! 1; w7 = ws ! 6; w15 = ws ! 14; w16 = ws ! 15
      in (rotr 17 w2 XOR rotr 19 w2 XOR drop_bit 10 w2) + w7 +
         (rotr 7 w15 XOR rotr 18 w15 XOR drop_bit 3 w15) + w16)"

fun extend_schedule :: "nat \<Rightarrow> w32 list \<Rightarrow> w32 list" where
  "extend_schedule 0 ws = ws"
| "extend_schedule (Suc n) ws = extend_schedule n (schedule_word ws # ws)"

text \<open>One round on the eight working variables.\<close>

fun sha_round :: "w32 list \<Rightarrow> w32 \<times> w32 \<Rightarrow> w32 list" where
  "sha_round [a, b, c, d, e, f, g, h] (k, w) =
     (let t1 = h + (rotr 6 e XOR rotr 11 e XOR rotr 25 e) + sha_ch e f g + k + w;
          t2 = (rotr 2 a XOR rotr 13 a XOR rotr 22 a) + sha_maj a b c
      in [t1 + t2, a, b, c, d + t1, e, f, g])"
| "sha_round s _ = s"

definition sha_block :: "w32 list \<Rightarrow> w32 list \<Rightarrow> w32 list" where
  "sha_block st blk =
     (let ws = rev (extend_schedule 48 (rev blk))
      in map2 (+) st (foldl sha_round st (zip sha_k ws)))"

section \<open>Padding and the digest\<close>

definition be_bytes :: "nat \<Rightarrow> nat \<Rightarrow> nat list" where
  "be_bytes len n = map (\<lambda>i. n div 256 ^ (len - 1 - i) mod 256) [0..<len]"

definition sha_pad :: "nat list \<Rightarrow> nat list" where
  "sha_pad bs =
     (let l = length bs; z = (119 - l mod 64) mod 64
      in bs @ [128] @ replicate z 0 @ be_bytes 8 (8 * l))"

fun words_of :: "nat list \<Rightarrow> w32 list" where
  "words_of (a # b # c # d # bs) =
     of_nat (((a * 256 + b) * 256 + c) * 256 + d) # words_of bs"
| "words_of _ = []"

function blocks_of :: "w32 list \<Rightarrow> w32 list list" where
  "blocks_of ws = (if length ws < 16 then [] else take 16 ws # blocks_of (drop 16 ws))"
  by pat_completeness auto
termination
  by (relation "measure length") auto

declare blocks_of.simps [simp del]

definition sha256 :: "nat list \<Rightarrow> w32 list" where
  "sha256 bs = foldl sha_block sha_init (blocks_of (words_of (sha_pad bs)))"

definition word_hex :: "w32 \<Rightarrow> string" where
  "word_hex w = map (\<lambda>i. lower_hex (unat w div 16 ^ (7 - i) mod 16)) [0..<8]"

text \<open>\<open>hashlib.sha256(s.encode("utf-8")).hexdigest()\<close>\<close>

definition sha256_hex :: "string \<Rightarrow> string" where
  "sha256_hex s = concat (map word_hex (sha256 (utf8_encode s)))"

section \<open>The shape of a digest\<close>

definition is_lower_hex :: "char \<Rightarrow> bool" where
  "is_lower_hex c \<longleftrightarrow> is_digit c \<or> 97 \<le> ord c \<and> ord c \<le> 102"

lemma is_lower_hex_lower_hex: "d < 16 \<Longrightarrow> is_lower_hex (lower_hex d)"
  by (auto simp: is_lower_hex_def lower_hex_def is_digit_def ord_char_of)

lemma length_sha_round: "length (sha_round s kw) = length s"
  by (induction s kw rule: sha_round.induct) (auto simp: Let_def)

lemma length_foldl_round: "length (foldl sha_round s kws) = length s"
  by (induction kws arbitrary: s) (auto simp: length_sha_round)

lemma length_sha_block: "length (sha_block st blk) = length st"
  by (simp add: sha_block_def length_foldl_round)

lemma length_sha256: "length (sha256 bs) = 8"
proof -
  have "length (foldl sha_block st bls) = length st" for st bls
    by (induction bls arbitrary: st) (auto simp: length_sha_block)
  then show ?thesis by (simp add: sha256_def sha_init_def)
qed

lemma sha256_hex_length [simp]: "length (sha256_hex s) = 64"
proof -
  have "length (concat (map word_hex ws)) = 8 * length ws" for ws
    by (induction ws) (auto simp: word_hex_def)
  then show ?thesis by (simp add: sha256_hex_def length_sha256)
qed

lemma sha256_hex_chars: "\<forall>c \<in> set (sha256_hex s). is_lower_hex c"
  by (auto simp: sha256_hex_def word_hex_def intro!: is_lower_hex_lower_hex)

text \<open>The padded message is a whole number of 64-byte blocks.\<close>

lemma sha_pad_length: "\<exists>k. length (sha_pad bs) = 64 * k"
proof -
  let ?l = "length bs"
  obtain q m where l: "?l = 64 * q + m" and m: "m < 64"
    by (metis mult_div_mod_eq mod_less_divisor zero_less_numeral)
  then have "?l mod 64 = m" by simp
  then have len: "length (sha_pad bs) = 64 * q + m + 1 + (119 - m) mod 64 + 8"
    using l by (simp add: sha_pad_def Let_def be_bytes_def)
  show ?thesis
  proof (cases "m \<le> 55")
    case True
    then have "119 - m = 55 - m + 64" by simp
    then have "(119 - m) mod 64 = (55 - m) mod 64" by (simp only: mod_add_self2)
    also have "\<dots> = 55 - m" by (rule mod_less) simp
    finally have "(119 - m) mod 64 = 55 - m" .
    then have "length (sha_pad bs) = 64 * (q + 1)" using len True by simp
    then show ?thesis ..
  next
    case False
    then have "(119 - m) mod 64 = 119 - m" using m by simp
    then have "length (sha_pad bs) = 64 * (q + 2)" using len m by simp
    then show ?thesis ..
  qed
qed

end
