(* ===== verification/HashChain.thy ===== *)
theory HashChain
  imports Main
begin

text \<open>
  Hash chains in general: rows that point to their predecessor's digest. The locale states
  what a digest function has to give, and proves that two chains with the same tip have the
  same contents unless two rows' digest inputs clash or a digest hits the genesis value.
\<close>

text \<open>The row list is linked from \<open>h\<close>: each row stores its predecessor's digest and its own.\<close>

fun linked :: "('e \<Rightarrow> 'h) \<Rightarrow> ('e \<Rightarrow> 'h) \<Rightarrow> ('h \<Rightarrow> 'e \<Rightarrow> 'h) \<Rightarrow> 'h \<Rightarrow> 'e list \<Rightarrow> bool" where
  "linked prev this digest h [] = True"
| "linked prev this digest h (e # es) =
     (prev e = h \<and> this e = digest h e \<and> linked prev this digest (this e) es)"

definition chain_tip :: "('e \<Rightarrow> 'h) \<Rightarrow> 'h \<Rightarrow> 'e list \<Rightarrow> 'h" where
  "chain_tip this h es = (if es = [] then h else this (last es))"

lemma chain_tip_simps [simp]:
  "chain_tip this h [] = h"
  "chain_tip this h (e # es) = chain_tip this (this e) es"
  "chain_tip this h (es @ [e]) = this e"
  by (auto simp: chain_tip_def)

locale hash_chain =
  fixes prev :: "'e \<Rightarrow> 'h" and this :: "'e \<Rightarrow> 'h" and digest :: "'h \<Rightarrow> 'e \<Rightarrow> 'h"
    and genesis :: 'h and sealed :: "'h \<Rightarrow> bool" and ok :: "'e \<Rightarrow> bool"
    and content :: "'e \<Rightarrow> 'c" and clash :: "'h \<Rightarrow> 'e \<Rightarrow> 'h \<Rightarrow> 'e \<Rightarrow> bool"
  assumes sealed_genesis: "sealed genesis"
    and sealed_digest: "sealed (digest h e)"
    and binding: "sealed h \<Longrightarrow> sealed h' \<Longrightarrow> ok e \<Longrightarrow> ok e' \<Longrightarrow> digest h e = digest h' e' \<Longrightarrow>
      h = h' \<and> content e = content e' \<or> clash h e h' e'"
begin

abbreviation chain :: "'h \<Rightarrow> 'e list \<Rightarrow> bool" where
  "chain \<equiv> linked prev this digest"

abbreviation tip :: "'h \<Rightarrow> 'e list \<Rightarrow> 'h" where
  "tip \<equiv> chain_tip this"

lemma chain_append: "chain h (es @ fs) \<longleftrightarrow> chain h es \<and> chain (tip h es) fs"
  by (induction es arbitrary: h) auto

lemma chain_snoc: "chain h (es @ [e]) \<longleftrightarrow> chain h es \<and> prev e = tip h es \<and> this e = digest (tip h es) e"
  by (simp add: chain_append)

lemma chain_prefix: "chain h (es @ fs) \<Longrightarrow> chain h es"
  by (simp add: chain_append)

lemma chain_sealed: "sealed h \<Longrightarrow> chain h es \<Longrightarrow> sealed (tip h es)"
  by (cases es rule: rev_cases) (auto simp: chain_snoc sealed_digest)

text \<open>Where two chains disagree although their tips agree, an input clash can be exhibited.\<close>

lemma same_tip:
  assumes "chain genesis es" and "chain genesis fs" and "tip genesis es = tip genesis fs"
    and "\<forall>e \<in> set es. ok e" and "\<forall>f \<in> set fs. ok f"
  shows "map content es = map content fs \<or>
    (\<exists>e \<in> set es. \<exists>f \<in> set fs. clash (prev e) e (prev f) f) \<or>
    (\<exists>e \<in> set es \<union> set fs. this e = genesis)"
  using assms
proof (induction es arbitrary: fs rule: rev_induct)
  case Nil
  then show ?case by (cases fs rule: rev_cases) auto
next
  case (snoc e es)
  show ?case
  proof (cases fs rule: rev_cases)
    case Nil
    then show ?thesis using snoc.prems(3) by auto
  next
    case (snoc gs f)
    have e: "chain genesis es" "prev e = tip genesis es" "this e = digest (tip genesis es) e"
      using snoc.prems(1) by (auto simp: chain_snoc)
    have f: "chain genesis gs" "prev f = tip genesis gs" "this f = digest (tip genesis gs) f"
      using snoc.prems(2) snoc by (auto simp: chain_snoc)
    have "digest (tip genesis es) e = digest (tip genesis gs) f"
      using snoc.prems(3) snoc e(3) f(3) by simp
    with binding [OF chain_sealed [OF sealed_genesis e(1)] chain_sealed [OF sealed_genesis f(1)]]
    consider "tip genesis es = tip genesis gs" "content e = content f" | "clash (prev e) e (prev f) f"
      using snoc.prems(4,5) snoc e(2) f(2) by auto
    then show ?thesis
    proof cases
      case 1
      from snoc.IH [OF e(1) f(1) 1(1)] snoc.prems(4,5) snoc 1(2) show ?thesis by auto
    next
      case 2
      then show ?thesis using snoc by auto
    qed
  qed
qed

text \<open>Appending a row sealed against the tip keeps the chain.\<close>

lemma chain_extend:
  "chain h es \<Longrightarrow> prev e = tip h es \<Longrightarrow> this e = digest (tip h es) e \<Longrightarrow> chain h (es @ [e])"
  by (simp add: chain_snoc)

end

end
