(* ===== verification/AuditChain.thy ===== *)
theory AuditChain
  imports PyJsonProps Sha256 HashChain
begin

text \<open>
  \<open>audit/models.py\<close> and \<open>audit/chain.py\<close>: a row of the audit table, the canonical JSON
  of a row, the entry hash and the verification of a chain. A row handed to the chain is a
  dictionary from column names to Python values, as in the code.
\<close>

section \<open>Timestamps\<close>

text \<open>An aware \<open>datetime\<close>; the offset from UTC is in minutes.\<close>

record datetime =
  dt_year :: nat
  dt_month :: nat
  dt_day :: nat
  dt_hour :: nat
  dt_minute :: nat
  dt_second :: nat
  dt_micro :: nat
  dt_offset :: int

definition datetime_ok :: "datetime \<Rightarrow> bool" where
  "datetime_ok d \<longleftrightarrow> dt_year d \<le> 9999 \<and> dt_month d \<le> 12 \<and> dt_day d \<le> 31 \<and> dt_hour d < 24 \<and>
     dt_minute d < 60 \<and> dt_second d < 60 \<and> dt_micro d < 1000000 \<and> \<bar>dt_offset d\<bar> < 24 * 60"

definition pad0 :: "nat \<Rightarrow> nat \<Rightarrow> string" where
  "pad0 w n = replicate (w - length (show_nat n)) (CHR ''0'') @ show_nat n"

definition iso_offset :: "int \<Rightarrow> string" where
  "iso_offset m = (let a = nat \<bar>m\<bar> in
     (if m < 0 then ''-'' else ''+'') @ pad0 2 (a div 60) @ '':'' @ pad0 2 (a mod 60))"

definition isoformat :: "datetime \<Rightarrow> string" where
  "isoformat d =
     pad0 4 (dt_year d) @ ''-'' @ pad0 2 (dt_month d) @ ''-'' @ pad0 2 (dt_day d) @ ''T'' @
     pad0 2 (dt_hour d) @ '':'' @ pad0 2 (dt_minute d) @ '':'' @ pad0 2 (dt_second d) @
     (if dt_micro d = 0 then [] else CHR ''.'' # pad0 6 (dt_micro d)) @ iso_offset (dt_offset d)"

section \<open>Python values and canonical JSON\<close>

text \<open>The values a row dictionary holds; \<open>PyOther\<close> is any other object, with its type's name.\<close>

datatype pyobj = PyJ json | PyTime datetime | PyUuid string | PyOther string

fun json_default :: "pyobj \<Rightarrow> json res" where
  "json_default (PyTime t) = Inr (JStr (isoformat t))"
| "json_default (PyUuid u) = Inr (JStr u)"
| "json_default (PyOther ty) = Inl (Exn TypeErr (''not JSON-serializable for hashing: '' @ ty))"
| "json_default (PyJ j) = Inr j"

type_synonym row_dict = "(string, pyobj) dict"

text \<open>\<open>json.dumps(x, sort_keys=True, separators=(",", ":"))\<close> on a plain JSON value.\<close>

definition canonical_dumps :: "json \<Rightarrow> string" where
  "canonical_dumps j = dumps '','' '':'' (sort_keys j)"

definition canonical_json :: "row_dict \<Rightarrow> string res" where
  "canonical_json payload =
     bind_res (map_res (\<lambda>(k, v). bind_res (json_default v) (\<lambda>j. Inr (k, j))) payload) (\<lambda>kvs.
       Inr (canonical_dumps (JObj kvs)))"

definition EXCLUDED_FROM_HASH :: "string list" where
  "EXCLUDED_FROM_HASH = [''id'', ''this_hash'']"

definition hashable_payload :: "row_dict \<Rightarrow> row_dict" where
  "hashable_payload entry = filter (\<lambda>(k, v). k \<notin> set EXCLUDED_FROM_HASH) entry"

definition compute_entry_hash :: "string \<Rightarrow> row_dict \<Rightarrow> string res" where
  "compute_entry_hash prev_hash entry =
     bind_res (canonical_json (hashable_payload entry)) (\<lambda>c. Inr (sha256_hex (prev_hash @ c)))"

definition GENESIS_HASH :: string where
  "GENESIS_HASH = replicate 64 (CHR ''0'')"

section \<open>Rows\<close>

definition STATUSES :: "string list" where
  "STATUSES = [''INTENT'', ''COMPLETED'', ''DENIED'', ''HELD'', ''UPSTREAM_ERROR'']"

record audit_entry =
  ae_id :: int
  ae_trace_id :: string
  ae_span_id :: string
  ae_parent_id :: "int option"
  ae_timestamp :: datetime
  ae_status :: string
  ae_agent_id :: string
  ae_session_id :: string
  ae_server :: string
  ae_tool :: string
  ae_args_hash :: string
  ae_args_redacted :: json
  ae_policies_fired :: json
  ae_decision :: json
  ae_latency_ms :: "int option"
  ae_tokens :: json
  ae_prev_hash :: string
  ae_this_hash :: string
  ae_hitl_ticket_id :: "string option"
  ae_hitl_reviewer :: "string option"
  ae_hitl_decision :: "string option"
  ae_hitl_rationale :: "string option"
  ae_tags :: "string list"

fun py_str :: "string \<Rightarrow> pyobj" where
  "py_str s = PyJ (JStr s)"

fun py_opt :: "('a \<Rightarrow> pyobj) \<Rightarrow> 'a option \<Rightarrow> pyobj" where
  "py_opt f None = PyJ JNull"
| "py_opt f (Some a) = f a"

definition py_int_val :: "int \<Rightarrow> pyobj" where
  "py_int_val i = PyJ (JInt i)"

text \<open>A stored row as the dictionary of its columns, in the order the table declares them.\<close>

definition row_of_entry :: "audit_entry \<Rightarrow> row_dict" where
  "row_of_entry e =
     [(''id'', py_int_val (ae_id e)),
      (''trace_id'', PyUuid (ae_trace_id e)),
      (''span_id'', PyUuid (ae_span_id e)),
      (''parent_id'', py_opt py_int_val (ae_parent_id e)),
      (''timestamp'', PyTime (ae_timestamp e)),
      (''status'', py_str (ae_status e)),
      (''agent_id'', py_str (ae_agent_id e)),
      (''session_id'', py_str (ae_session_id e)),
      (''server'', py_str (ae_server e)),
      (''tool'', py_str (ae_tool e)),
      (''args_hash'', py_str (ae_args_hash e)),
      (''args_redacted'', PyJ (ae_args_redacted e)),
      (''policies_fired'', PyJ (ae_policies_fired e)),
      (''decision'', PyJ (ae_decision e)),
      (''latency_ms'', py_opt py_int_val (ae_latency_ms e)),
      (''tokens'', PyJ (ae_tokens e)),
      (''prev_hash'', py_str (ae_prev_hash e)),
      (''this_hash'', py_str (ae_this_hash e)),
      (''hitl_ticket_id'', py_opt PyUuid (ae_hitl_ticket_id e)),
      (''hitl_reviewer'', py_opt py_str (ae_hitl_reviewer e)),
      (''hitl_decision'', py_opt py_str (ae_hitl_decision e)),
      (''hitl_rationale'', py_opt py_str (ae_hitl_rationale e)),
      (''tags'', PyJ (JList (map JStr (ae_tags e))))]"

section \<open>Verification\<close>

record verification_result =
  vr_valid :: bool
  vr_checked :: nat
  vr_first_mismatch_id :: "int option"
  vr_detail :: "string option"

definition broken_link_detail :: "audit_entry \<Rightarrow> string \<Rightarrow> string" where
  "broken_link_detail e expected =
     ''entry '' @ show_int (ae_id e) @ '' has prev_hash='' @ py_repr (ae_prev_hash e) @
     '', expected '' @ py_repr expected @ '' (the prior entry's this_hash)''"

definition modified_detail :: "audit_entry \<Rightarrow> string \<Rightarrow> string" where
  "modified_detail e recomputed =
     ''entry '' @ show_int (ae_id e) @ '' this_hash='' @ py_repr (ae_this_hash e) @
     '' does not match recomputed '' @ py_repr recomputed @
     '' -- content was modified after writing''"

text \<open>The loop of \<open>verify_chain\<close>, with its index and the hash the next row must point to.\<close>

fun verify_from :: "nat \<Rightarrow> string \<Rightarrow> audit_entry list \<Rightarrow> verification_result res" where
  "verify_from i expected_prev [] =
     Inr \<lparr>vr_valid = True, vr_checked = i, vr_first_mismatch_id = None, vr_detail = None\<rparr>"
| "verify_from i expected_prev (e # es) =
     (if ae_prev_hash e \<noteq> expected_prev then
        Inr \<lparr>vr_valid = False, vr_checked = i, vr_first_mismatch_id = Some (ae_id e),
             vr_detail = Some (broken_link_detail e expected_prev)\<rparr>
      else bind_res (compute_entry_hash expected_prev (row_of_entry e)) (\<lambda>recomputed.
        if recomputed \<noteq> ae_this_hash e then
          Inr \<lparr>vr_valid = False, vr_checked = i, vr_first_mismatch_id = Some (ae_id e),
               vr_detail = Some (modified_detail e recomputed)\<rparr>
        else verify_from (Suc i) (ae_this_hash e) es))"

definition verify_chain :: "audit_entry list \<Rightarrow> verification_result res" where
  "verify_chain entries = verify_from 0 GENESIS_HASH entries"

section \<open>Injectivity of the timestamp text\<close>

lemma read_nat_append: "read_nat (s @ t) = foldl (\<lambda>a c. 10 * a + digit_val c) (read_nat s) t"
  by (simp add: read_nat_def)

lemma read_nat_zeros: "read_nat (replicate k (CHR ''0'') @ s) = read_nat s"
  by (induction k) (simp_all add: read_nat_def digit_val_def)

lemma pad0_inject [simp]: "pad0 w m = pad0 w n \<longleftrightarrow> m = n"
  by (metis pad0_def read_nat_zeros read_show_nat)

lemma show_nat_length: "0 < w \<Longrightarrow> n < 10 ^ w \<Longrightarrow> length (show_nat n) \<le> w"
proof (induction n arbitrary: w rule: show_nat.induct)
  case (1 n)
  show ?case
  proof (cases "n < 10")
    case True
    then show ?thesis using 1 by (simp add: show_nat.simps [of n])
  next
    case False
    then obtain v where v: "w = Suc v" "0 < v" using 1(2,3) by (cases w; cases "w - 1") auto
    then have "n div 10 < 10 ^ v" using 1(3) by (simp add: less_mult_imp_div_less mult.commute)
    then show ?thesis using 1(1) [OF False v(2)] v False by (simp add: show_nat.simps [of n])
  qed
qed

lemma pad0_length: "0 < w \<Longrightarrow> n < 10 ^ w \<Longrightarrow> length (pad0 w n) = w"
  using show_nat_length by (simp add: pad0_def)

lemma pad0_append_inject:
  "0 < w \<Longrightarrow> m < 10 ^ w \<Longrightarrow> n < 10 ^ w \<Longrightarrow> pad0 w m @ s = pad0 w n @ t \<longleftrightarrow> m = n \<and> s = t"
  using pad0_length by (simp add: append_eq_append_conv)

lemma iso_offset_inject:
  assumes "\<bar>m\<bar> < 24 * 60" and "\<bar>n\<bar> < 24 * 60"
  shows "iso_offset m = iso_offset n \<longleftrightarrow> m = n"
proof
  assume eq: "iso_offset m = iso_offset n"
  have small: "nat \<bar>k\<bar> div 60 < 10 ^ 2" "nat \<bar>k\<bar> mod 60 < 10 ^ 2" if "\<bar>k\<bar> < 24 * 60" for k :: int
    using that by (simp_all add: less_mult_imp_div_less nat_less_iff)
  have "(m < 0) = (n < 0)" using eq by (auto simp: iso_offset_def Let_def split: if_splits)
  with eq have "nat \<bar>m\<bar> div 60 = nat \<bar>n\<bar> div 60 \<and> nat \<bar>m\<bar> mod 60 = nat \<bar>n\<bar> mod 60"
    using small [OF assms(1)] small [OF assms(2)]
    by (auto simp: iso_offset_def Let_def pad0_append_inject split: if_splits)
  then have "nat \<bar>m\<bar> = nat \<bar>n\<bar>" by (metis div_mult_mod_eq)
  with \<open>(m < 0) = (n < 0)\<close> show "m = n" by linarith
qed simp

lemma pad0_no_dot: "c \<in> set (pad0 w n) \<Longrightarrow> is_digit c"
  using show_nat_digits by (auto simp: pad0_def is_digit_def)

lemma iso_micro_inject:
  assumes "m < 1000000" and "n < 1000000" and "\<bar>a\<bar> < 24 * 60" and "\<bar>b\<bar> < 24 * 60"
    and "(if m = 0 then [] else CHR ''.'' # pad0 6 m) @ iso_offset a =
         (if n = 0 then [] else CHR ''.'' # pad0 6 n) @ iso_offset b"
  shows "m = n \<and> a = b"
proof -
  have hd: "hd (iso_offset k) \<noteq> CHR ''.''" "iso_offset k \<noteq> []" for k
    by (simp_all add: iso_offset_def Let_def)
  show ?thesis
  proof (cases "m = 0"; cases "n = 0")
    assume "m = 0" "n = 0"
    then show ?thesis using assms iso_offset_inject by simp
  next
    assume "m = 0" "n \<noteq> 0"
    then have "iso_offset a = CHR ''.'' # pad0 6 n @ iso_offset b" using assms(5) by simp
    then show ?thesis using hd(1) [of a] by simp
  next
    assume "m \<noteq> 0" "n = 0"
    then have "CHR ''.'' # pad0 6 m @ iso_offset a = iso_offset b" using assms(5) by simp
    then show ?thesis using hd(1) [of b] by (metis list.sel(1))
  next
    assume "m \<noteq> 0" "n \<noteq> 0"
    then show ?thesis using assms by (simp add: pad0_append_inject iso_offset_inject)
  qed
qed

lemma isoformat_inject:
  assumes "datetime_ok c" and "datetime_ok d" and "isoformat c = isoformat d"
  shows "c = d"
proof -
  note ok = assms(1,2) [unfolded datetime_ok_def]
  have p: "dt_year c < 10 ^ 4" "dt_year d < 10 ^ 4" "dt_month c < 10 ^ 2" "dt_month d < 10 ^ 2"
    "dt_day c < 10 ^ 2" "dt_day d < 10 ^ 2" "dt_hour c < 10 ^ 2" "dt_hour d < 10 ^ 2"
    "dt_minute c < 10 ^ 2" "dt_minute d < 10 ^ 2" "dt_second c < 10 ^ 2" "dt_second d < 10 ^ 2"
    using ok by simp_all
  have eq: "dt_year c = dt_year d \<and> dt_month c = dt_month d \<and> dt_day c = dt_day d \<and>
      dt_hour c = dt_hour d \<and> dt_minute c = dt_minute d \<and> dt_second c = dt_second d \<and>
      (if dt_micro c = 0 then [] else CHR ''.'' # pad0 6 (dt_micro c)) @ iso_offset (dt_offset c) =
      (if dt_micro d = 0 then [] else CHR ''.'' # pad0 6 (dt_micro d)) @ iso_offset (dt_offset d)"
    using assms(3) p unfolding isoformat_def
    by (simp only: pad0_append_inject append_Cons append_Nil list.inject zero_less_numeral simp_thms)
  with iso_micro_inject [of "dt_micro c" "dt_micro d" "dt_offset c" "dt_offset d"] ok
  show ?thesis by (cases c; cases d) auto
qed

section \<open>The text a row is hashed as\<close>

fun opt_json :: "('a \<Rightarrow> json) \<Rightarrow> 'a option \<Rightarrow> json" where
  "opt_json f None = JNull"
| "opt_json f (Some a) = f a"

text \<open>The hashed columns of a row as JSON, in table order.\<close>

definition entry_pairs :: "audit_entry \<Rightarrow> (string \<times> json) list" where
  "entry_pairs e =
     [(''trace_id'', JStr (ae_trace_id e)),
      (''span_id'', JStr (ae_span_id e)),
      (''parent_id'', opt_json JInt (ae_parent_id e)),
      (''timestamp'', JStr (isoformat (ae_timestamp e))),
      (''status'', JStr (ae_status e)),
      (''agent_id'', JStr (ae_agent_id e)),
      (''session_id'', JStr (ae_session_id e)),
      (''server'', JStr (ae_server e)),
      (''tool'', JStr (ae_tool e)),
      (''args_hash'', JStr (ae_args_hash e)),
      (''args_redacted'', ae_args_redacted e),
      (''policies_fired'', ae_policies_fired e),
      (''decision'', ae_decision e),
      (''latency_ms'', opt_json JInt (ae_latency_ms e)),
      (''tokens'', ae_tokens e),
      (''prev_hash'', JStr (ae_prev_hash e)),
      (''hitl_ticket_id'', opt_json JStr (ae_hitl_ticket_id e)),
      (''hitl_reviewer'', opt_json JStr (ae_hitl_reviewer e)),
      (''hitl_decision'', opt_json JStr (ae_hitl_decision e)),
      (''hitl_rationale'', opt_json JStr (ae_hitl_rationale e)),
      (''tags'', JList (map JStr (ae_tags e)))]"

definition entry_text :: "audit_entry \<Rightarrow> string" where
  "entry_text e = canonical_dumps (JObj (entry_pairs e))"

definition entry_digest :: "string \<Rightarrow> audit_entry \<Rightarrow> string" where
  "entry_digest prev_hash e = sha256_hex (prev_hash @ entry_text e)"

lemma json_default_opt [simp]:
  "json_default (py_opt py_int_val x) = Inr (opt_json JInt x)"
  "json_default (py_opt PyUuid u) = Inr (opt_json JStr u)"
  "json_default (py_opt py_str u) = Inr (opt_json JStr u)"
  by (cases x; simp add: py_int_val_def) (cases u; simp)+

lemma canonical_row:
  "canonical_json (hashable_payload (row_of_entry e)) = Inr (entry_text e)"
  by (simp add: canonical_json_def hashable_payload_def row_of_entry_def EXCLUDED_FROM_HASH_def
      entry_text_def entry_pairs_def)

lemma compute_entry_hash_row:
  "compute_entry_hash h (row_of_entry e) = Inr (entry_digest h e)"
  by (simp add: compute_entry_hash_def canonical_row entry_digest_def)

section \<open>What the text determines\<close>

definition entry_ok :: "(string \<Rightarrow> string) \<Rightarrow> audit_entry \<Rightarrow> bool" where
  "entry_ok fr e \<longleftrightarrow> datetime_ok (ae_timestamp e) \<and> wf_json fr (ae_args_redacted e) \<and>
     wf_json fr (ae_policies_fired e) \<and> wf_json fr (ae_decision e) \<and> wf_json fr (ae_tokens e)"

text \<open>A row without its id and digest, its JSON columns up to key order.\<close>

definition entry_content :: "audit_entry \<Rightarrow> audit_entry" where
  "entry_content e = e\<lparr>ae_id := 0, ae_this_hash := [],
     ae_args_redacted := sort_keys (ae_args_redacted e),
     ae_policies_fired := sort_keys (ae_policies_fired e),
     ae_decision := sort_keys (ae_decision e),
     ae_tokens := sort_keys (ae_tokens e)\<rparr>"

lemma opt_json_inject [simp]:
  "opt_json JInt x = opt_json JInt y \<longleftrightarrow> x = y"
  "opt_json JStr u = opt_json JStr v \<longleftrightarrow> u = v"
  by (cases x; cases y; simp) (cases u; cases v; simp)

lemma sort_keys_opt [simp]:
  "sort_keys (opt_json JInt x) = opt_json JInt x"
  "sort_keys (opt_json JStr u) = opt_json JStr u"
  "wf_json fr (opt_json JInt x)" "wf_json fr (opt_json JStr u)"
  by (cases x; cases u; simp)+

lemma same_keys_same_items:
  "map fst xs = map fst ys \<Longrightarrow> distinct (map fst xs) \<Longrightarrow> set xs = set ys \<Longrightarrow> xs = ys"
proof (induction xs arbitrary: ys)
  case (Cons x xs)
  then obtain y zs where ys: "ys = y # zs" "fst y = fst x" "map fst zs = map fst xs"
    by (cases ys) auto
  have "x = y"
  proof (rule ccontr)
    assume "x \<noteq> y"
    then have "x \<in> set zs" using Cons.prems(3) ys(1) by auto
    then have "fst x \<in> set (map fst xs)" using ys(3) by (metis image_eqI list.set_map)
    then show False using Cons.prems(2) by simp
  qed
  moreover have "x \<notin> set xs"
  proof
    assume "x \<in> set xs"
    then have "fst x \<in> fst ` set xs" by (rule imageI)
    then show False using Cons.prems(2) by simp
  qed
  moreover have "y \<notin> set zs"
  proof
    assume "y \<in> set zs"
    then have "fst y \<in> set (map fst zs)" by simp
    then have "fst x \<in> set (map fst xs)" unfolding ys(2,3) .
    then show False using Cons.prems(2) by simp
  qed
  ultimately have "set xs = set zs" using Cons.prems(3) ys(1) by (simp add: insert_ident)
  then have "xs = zs" using Cons.IH [of zs] Cons.prems(2) ys(3) by simp
  then show ?case using \<open>x = y\<close> ys(1) by simp
qed simp

lemma map_fst_sort_keys: "map fst (map (\<lambda>(k, v). (k, sort_keys v)) xs) = map fst xs"
  by (simp add: comp_def case_prod_beta')

lemma sort_keys_JObj_inject:
  assumes "map fst xs = map fst ys" and "distinct (map fst xs)"
    and "sort_keys (JObj xs) = sort_keys (JObj ys)"
  shows "map (\<lambda>(k, v). (k, sort_keys v)) xs = map (\<lambda>(k, v). (k, sort_keys v)) ys"
proof (rule same_keys_same_items)
  have "sort_key fst (map (\<lambda>(k, v). (k, sort_keys v)) xs) = sort_key fst (map (\<lambda>(k, v). (k, sort_keys v)) ys)"
    using assms(3) by simp
  then show "set (map (\<lambda>(k, v). (k, sort_keys v)) xs) = set (map (\<lambda>(k, v). (k, sort_keys v)) ys)"
    by (metis set_sort)
qed (use assms(1,2) in \<open>simp_all only: map_fst_sort_keys\<close>)

lemma entry_pairs_keys: "map fst (entry_pairs e) = map fst (entry_pairs e')"
  by (simp add: entry_pairs_def)

lemma entry_pairs_distinct: "distinct (map fst (entry_pairs e))"
  by (simp add: entry_pairs_def)

lemma wf_entry_pairs: "entry_ok fr e \<Longrightarrow> wf_json fr (JObj (entry_pairs e))"
  using entry_pairs_distinct [of e] by (simp add: entry_pairs_def entry_ok_def)

lemma entry_text_inject:
  assumes "entry_ok fr e" and "entry_ok fr e'" and "entry_text e = entry_text e'"
  shows "entry_content e = entry_content e'"
proof -
  have "sort_keys (JObj (entry_pairs e)) = sort_keys (JObj (entry_pairs e'))"
    using cj.inject [of fr, OF wf_sort_keys wf_sort_keys] assms
    by (simp add: entry_text_def canonical_dumps_def wf_entry_pairs del: sort_keys.simps wf_json.simps)
  from sort_keys_JObj_inject [OF entry_pairs_keys entry_pairs_distinct this]
  have eq: "map (\<lambda>(k, v). (k, sort_keys v)) (entry_pairs e) = map (\<lambda>(k, v). (k, sort_keys v)) (entry_pairs e')" .
  then have "isoformat (ae_timestamp e) = isoformat (ae_timestamp e')"
    by (simp add: entry_pairs_def)
  then have ts: "ae_timestamp e = ae_timestamp e'"
    using assms(1,2) isoformat_inject by (simp add: entry_ok_def)
  have tags: "ae_tags e = ae_tags e'"
  proof -
    have "map JStr (ae_tags e) = map JStr (ae_tags e')"
      using eq by (simp add: entry_pairs_def comp_def)
    then show ?thesis by (simp add: inj_map_eq_map inj_def)
  qed
  show ?thesis
    unfolding entry_content_def
    by (rule audit_entry.equality) (use eq ts tags in \<open>simp_all add: entry_pairs_def\<close>)
qed

lemma entry_text_obj: "\<exists>t. entry_text e = CHR ''{'' # t"
  by (simp add: entry_text_def canonical_dumps_def)

end
