(* ===== verification/AuditVerify.thy ===== *)
theory AuditVerify
  imports AuditChain
begin

text \<open>
  What \<open>verify_chain\<close> decides, and what it protects: it accepts exactly the linked chains
  and otherwise names the first bad row; two accepted logs with the same tip have the same
  rows unless a SHA-256 clash between two of their rows can be exhibited. The interpretation
  of the hash chain locale on audit rows carries the proofs.
\<close>

section \<open>Audit rows form a hash chain\<close>

abbreviation audit_linked :: "string \<Rightarrow> audit_entry list \<Rightarrow> bool" where
  "audit_linked \<equiv> linked ae_prev_hash ae_this_hash entry_digest"

abbreviation audit_tip :: "string \<Rightarrow> audit_entry list \<Rightarrow> string" where
  "audit_tip \<equiv> chain_tip ae_this_hash"

definition digest_input :: "string \<Rightarrow> audit_entry \<Rightarrow> string" where
  "digest_input h e = h @ entry_text e"

text \<open>Two different digest inputs with the same SHA-256 digest.\<close>

definition sha_clash :: "string \<Rightarrow> audit_entry \<Rightarrow> string \<Rightarrow> audit_entry \<Rightarrow> bool" where
  "sha_clash h e h' e' \<longleftrightarrow>
     digest_input h e \<noteq> digest_input h' e' \<and>
     sha256_hex (digest_input h e) = sha256_hex (digest_input h' e')"

interpretation ac: hash_chain ae_prev_hash ae_this_hash entry_digest GENESIS_HASH
    "\<lambda>h. length h = 64" "entry_ok fr" entry_content sha_clash
  for fr
proof
  show "length GENESIS_HASH = 64" by (simp add: GENESIS_HASH_def)
  show "length (entry_digest h e) = 64" for h e by (simp add: entry_digest_def)
  fix h h' e e'
  assume len: "length h = 64" "length h' = 64" and ok: "entry_ok fr e" "entry_ok fr e'"
    and d: "entry_digest h e = entry_digest h' e'"
  show "h = h' \<and> entry_content e = entry_content e' \<or> sha_clash h e h' e'"
  proof (cases "digest_input h e = digest_input h' e'")
    case True
    then have "h = h'" and "entry_text e = entry_text e'"
      using len by (simp_all add: digest_input_def)
    then show ?thesis using entry_text_inject [OF ok] by simp
  next
    case False
    then show ?thesis using d by (simp add: sha_clash_def entry_digest_def digest_input_def)
  qed
qed

section \<open>The verdict\<close>

lemma verify_from_valid:
  "audit_linked h es \<Longrightarrow> verify_from i h es =
     Inr \<lparr>vr_valid = True, vr_checked = i + length es, vr_first_mismatch_id = None, vr_detail = None\<rparr>"
  by (induction i h es rule: verify_from.induct) (auto simp: compute_entry_hash_row)

lemma verify_from_invalid:
  "\<not> audit_linked h es \<Longrightarrow>
     \<exists>us e vs r. es = us @ e # vs \<and> audit_linked h us \<and> \<not> audit_linked h (us @ [e]) \<and>
       verify_from i h es = Inr r \<and> \<not> vr_valid r \<and> vr_checked r = i + length us \<and>
       vr_first_mismatch_id r = Some (ae_id e)"
proof (induction i h es rule: verify_from.induct)
  case (2 i h e es)
  show ?case
  proof (cases "ae_prev_hash e = h \<and> ae_this_hash e = entry_digest h e")
    case False
    then show ?thesis
      by (intro exI [of _ "[]"] exI [of _ e] exI [of _ es]) (auto simp: compute_entry_hash_row)
  next
    case True
    then have "\<not> audit_linked (ae_this_hash e) es" using 2(2) by simp
    with 2(1) [of "entry_digest h e"] True obtain us f vs r where
      "es = us @ f # vs" "audit_linked (ae_this_hash e) us"
      "\<not> audit_linked (ae_this_hash e) (us @ [f])" "verify_from (Suc i) (ae_this_hash e) es = Inr r"
      "\<not> vr_valid r" "vr_checked r = Suc i + length us" "vr_first_mismatch_id r = Some (ae_id f)"
      by auto
    then show ?thesis using True
      by (intro exI [of _ "e # us"] exI [of _ f] exI [of _ vs] exI [of _ r])
        (auto simp: compute_entry_hash_row)
  qed
qed simp

lemma verify_chain_valid_iff:
  "(\<exists>r. verify_chain es = Inr r \<and> vr_valid r) \<longleftrightarrow> audit_linked GENESIS_HASH es"
proof (cases "audit_linked GENESIS_HASH es")
  case True
  then show ?thesis by (simp add: verify_chain_def verify_from_valid)
next
  case False
  from verify_from_invalid [OF this, of 0] show ?thesis using False
    by (auto simp: verify_chain_def)
qed

definition audit_valid :: "audit_entry list \<Rightarrow> bool" where
  "audit_valid es = (case verify_chain es of Inl e \<Rightarrow> False | Inr r \<Rightarrow> vr_valid r)"

lemma audit_valid_iff: "audit_valid es \<longleftrightarrow> audit_linked GENESIS_HASH es"
  using verify_chain_valid_iff [of es] by (auto simp: audit_valid_def split: sum.splits)

section \<open>Tampering\<close>

lemma audit_same_tip:
  assumes "audit_valid es" and "audit_valid fs"
    and "audit_tip GENESIS_HASH es = audit_tip GENESIS_HASH fs"
    and "\<forall>e \<in> set es. entry_ok fr e" and "\<forall>f \<in> set fs. entry_ok fr f"
  shows "map entry_content es = map entry_content fs \<or>
    (\<exists>e \<in> set es. \<exists>f \<in> set fs. sha_clash (ae_prev_hash e) e (ae_prev_hash f) f) \<or>
    (\<exists>e \<in> set es \<union> set fs. ae_this_hash e = GENESIS_HASH)"
  using ac.same_tip [of es fs fr] assms by (simp add: audit_valid_iff)

text \<open>One row changed in place, its stored hashes kept: that row is reported.\<close>

lemma modified_row_reported:
  assumes valid: "audit_valid (us @ e # vs)"
    and ok: "entry_ok fr e" "entry_ok fr e'"
    and keep: "ae_this_hash e' = ae_this_hash e" "ae_prev_hash e' = ae_prev_hash e"
    and changed: "entry_content e' \<noteq> entry_content e"
  shows "(\<exists>r. verify_chain (us @ e' # vs) = Inr r \<and> \<not> vr_valid r \<and> vr_checked r = length us \<and>
      vr_first_mismatch_id r = Some (ae_id e')) \<or>
    sha_clash (ae_prev_hash e) e (ae_prev_hash e') e'"
proof -
  have l: "audit_linked GENESIS_HASH (us @ e # vs)" using valid by (simp add: audit_valid_iff)
  then have us: "audit_linked GENESIS_HASH us" and e: "audit_linked (audit_tip GENESIS_HASH us) [e]"
    by (simp_all add: ac.chain_append)
  let ?h = "audit_tip GENESIS_HASH us"
  have sealed: "length ?h = 64" using ac.chain_sealed [OF ac.sealed_genesis us] .
  show ?thesis
  proof (cases "ae_this_hash e' = entry_digest ?h e'")
    case True
    then have "entry_digest ?h e = entry_digest ?h e'" using e keep by simp
    with ac.binding [OF sealed sealed ok this] changed e keep show ?thesis by auto
  next
    case False
    then have bad: "\<not> audit_linked GENESIS_HASH (us @ [e'])" by (simp add: ac.chain_append)
    then have "\<not> audit_linked GENESIS_HASH (us @ e' # vs)"
      using ac.chain_prefix [of GENESIS_HASH "us @ [e']" vs] by auto
    from verify_from_invalid [OF this, of 0] obtain us' f vs' r where
      r: "us @ e' # vs = us' @ f # vs'" "audit_linked GENESIS_HASH us'"
        "\<not> audit_linked GENESIS_HASH (us' @ [f])"
        "verify_chain (us @ e' # vs) = Inr r" "\<not> vr_valid r" "vr_checked r = length us'"
        "vr_first_mismatch_id r = Some (ae_id f)"
      by (auto simp: verify_chain_def)
    have len: "length us = length us'"
    proof (rule ccontr)
      assume ne: "length us \<noteq> length us'"
      show False
      proof (cases "length us < length us'")
        case True
        then have "take (Suc (length us)) us' = us @ [e']"
          using arg_cong [OF r(1), of "take (Suc (length us))"] by simp
        then show False using r(2) bad ac.chain_prefix [of GENESIS_HASH "us @ [e']" "drop (Suc (length us)) us'"]
          by (metis append_take_drop_id)
      next
        case False
        then have lt: "length us' < length us" using ne by simp
        then have "take (Suc (length us')) us = us' @ [f]"
          using arg_cong [OF r(1), of "take (Suc (length us'))"] by simp
        then show False using us r(3) ac.chain_prefix [of GENESIS_HASH "us' @ [f]" "drop (Suc (length us')) us"]
          by (metis append_take_drop_id)
      qed
    qed
    then have "us = us' \<and> e' = f" using r(1) by (metis append_eq_append_conv list.inject)
    then show ?thesis using r by auto
  qed
qed

text \<open>A log cut off at the end still verifies.\<close>

lemma audit_valid_prefix: "audit_valid (es @ fs) \<Longrightarrow> audit_valid es"
  by (simp add: audit_valid_iff ac.chain_append)

end
