(* ===== verification/AuditStore.thy ===== *)
theory AuditStore
  imports AuditVerify Interfaces
begin

text \<open>
  \<open>audit/store.py\<close>: the audit table and \<open>write_entry\<close>. The table is its rows and the
  sequence its ids come from; the constraints are those \<open>audit/models.py\<close> declares. A write
  runs in one transaction under the chain's advisory lock, so it is one step here, and
  \<open>fault\<close> is the exception the database raises in it, if any.
\<close>

record audit_table =
  tb_rows :: "audit_entry list"
  tb_seq :: int

definition empty_table :: audit_table where
  "empty_table = \<lparr>tb_rows = [], tb_seq = 0\<rparr>"

text \<open>The keyword arguments of \<open>write_entry\<close>.\<close>

record entry_args =
  ea_status :: string
  ea_trace_id :: string
  ea_span_id :: string
  ea_agent_id :: string
  ea_session_id :: string
  ea_server :: string
  ea_tool :: string
  ea_args_hash :: string
  ea_args_redacted :: json
  ea_policies_fired :: json
  ea_decision :: json
  ea_parent_id :: "int option"
  ea_latency_ms :: "int option"
  ea_tokens :: json
  ea_hitl_ticket_id :: "string option"
  ea_hitl_reviewer :: "string option"
  ea_hitl_decision :: "string option"
  ea_hitl_rationale :: "string option"
  ea_tags :: "string list option"

text \<open>\<open>tags or []\<close>\<close>

definition tags_or_empty :: "string list option \<Rightarrow> string list" where
  "tags_or_empty t = (case t of None \<Rightarrow> [] | Some ts \<Rightarrow> ts)"

text \<open>The \<open>fields\<close> dictionary, in the order \<open>write_entry\<close> builds it.\<close>

definition entry_fields :: "datetime \<Rightarrow> entry_args \<Rightarrow> row_dict" where
  "entry_fields now a =
     [(''trace_id'', PyUuid (ea_trace_id a)),
      (''span_id'', PyUuid (ea_span_id a)),
      (''parent_id'', py_opt py_int_val (ea_parent_id a)),
      (''timestamp'', PyTime now),
      (''status'', py_str (ea_status a)),
      (''agent_id'', py_str (ea_agent_id a)),
      (''session_id'', py_str (ea_session_id a)),
      (''server'', py_str (ea_server a)),
      (''tool'', py_str (ea_tool a)),
      (''args_hash'', py_str (ea_args_hash a)),
      (''args_redacted'', PyJ (ea_args_redacted a)),
      (''policies_fired'', PyJ (ea_policies_fired a)),
      (''decision'', PyJ (ea_decision a)),
      (''latency_ms'', py_opt py_int_val (ea_latency_ms a)),
      (''tokens'', PyJ (ea_tokens a)),
      (''hitl_ticket_id'', py_opt PyUuid (ea_hitl_ticket_id a)),
      (''hitl_reviewer'', py_opt py_str (ea_hitl_reviewer a)),
      (''hitl_decision'', py_opt py_str (ea_hitl_decision a)),
      (''hitl_rationale'', py_opt py_str (ea_hitl_rationale a)),
      (''tags'', PyJ (JList (map JStr (tags_or_empty (ea_tags a)))))]"

text \<open>\<open>AuditEntry(**fields)\<close> with the id the sequence gives it.\<close>

definition entry_of_args ::
    "int \<Rightarrow> datetime \<Rightarrow> entry_args \<Rightarrow> string \<Rightarrow> string \<Rightarrow> audit_entry" where
  "entry_of_args i now a prev_hash this_hash =
     \<lparr>ae_id = i, ae_trace_id = ea_trace_id a, ae_span_id = ea_span_id a,
      ae_parent_id = ea_parent_id a, ae_timestamp = now, ae_status = ea_status a,
      ae_agent_id = ea_agent_id a, ae_session_id = ea_session_id a, ae_server = ea_server a,
      ae_tool = ea_tool a, ae_args_hash = ea_args_hash a, ae_args_redacted = ea_args_redacted a,
      ae_policies_fired = ea_policies_fired a, ae_decision = ea_decision a,
      ae_latency_ms = ea_latency_ms a, ae_tokens = ea_tokens a,
      ae_prev_hash = prev_hash, ae_this_hash = this_hash,
      ae_hitl_ticket_id = ea_hitl_ticket_id a, ae_hitl_reviewer = ea_hitl_reviewer a,
      ae_hitl_decision = ea_hitl_decision a, ae_hitl_rationale = ea_hitl_rationale a,
      ae_tags = tags_or_empty (ea_tags a)\<rparr>"

text \<open>\<open>select(this_hash).order_by(id.desc()).limit(1)\<close>\<close>

definition latest_hash :: "audit_entry list \<Rightarrow> string option" where
  "latest_hash rows =
     (case rev (sort_key ae_id rows) of [] \<Rightarrow> None | e # _ \<Rightarrow> Some (ae_this_hash e))"

text \<open>\<open>x or GENESIS_HASH\<close>: also an empty stored hash gives the genesis value.\<close>

definition hash_or_genesis :: "string option \<Rightarrow> string" where
  "hash_or_genesis x = (case x of None \<Rightarrow> GENESIS_HASH | Some h \<Rightarrow> if h = [] then GENESIS_HASH else h)"

text \<open>\<open>ck_audit_entries_status\<close>, the primary key and the foreign key on \<open>parent_id\<close>.\<close>

definition row_constraints :: "audit_entry list \<Rightarrow> audit_entry \<Rightarrow> bool" where
  "row_constraints rows e \<longleftrightarrow>
     ae_status e \<in> set STATUSES \<and>
     ae_id e \<notin> ae_id ` set rows \<and>
     (case ae_parent_id e of None \<Rightarrow> True | Some p \<Rightarrow> p = ae_id e \<or> p \<in> ae_id ` set rows)"

text \<open>Insert and flush; a failed insert rolls back the row but not the sequence.\<close>

definition insert_row ::
    "(int \<Rightarrow> audit_entry) \<Rightarrow> audit_table \<Rightarrow> audit_entry res \<times> audit_table" where
  "insert_row mk tb =
     (let i = tb_seq tb + 1; e = mk i in
      if row_constraints (tb_rows tb) e
      then (Inr e, tb\<lparr>tb_rows := tb_rows tb @ [e], tb_seq := i\<rparr>)
      else (Inl (Exn DbErr ''IntegrityError''), tb\<lparr>tb_seq := i\<rparr>))"

definition write_entry ::
    "exn option \<Rightarrow> datetime \<Rightarrow> entry_args \<Rightarrow> audit_table \<Rightarrow> audit_entry res \<times> audit_table" where
  "write_entry fault now a tb =
     (case fault of
        Some e \<Rightarrow> (Inl e, tb)
      | None \<Rightarrow>
          (let prev_hash = hash_or_genesis (latest_hash (tb_rows tb));
               fields = entry_fields now a @ [(''prev_hash'', py_str prev_hash)]
           in case compute_entry_hash prev_hash fields of
                Inl e \<Rightarrow> (Inl e, tb)
              | Inr this_hash \<Rightarrow>
                  insert_row (\<lambda>i. entry_of_args i now a prev_hash this_hash) tb))"

text \<open>\<open>cli/_audit_query.py\<close>: every row, ordered by id.\<close>

definition fetch_all_entries :: "audit_table \<Rightarrow> audit_entry list" where
  "fetch_all_entries tb = sort_key ae_id (tb_rows tb)"

section \<open>The hash computed at write time is the hash recomputed at verification\<close>

lemma write_time_pairs:
  "mset (entry_pairs (entry_of_args i now a p t)) =
   mset (map (\<lambda>(k, v). (k, case json_default v of Inr j \<Rightarrow> j | Inl e \<Rightarrow> JNull))
          (entry_fields now a @ [(''prev_hash'', py_str p)]))"
  by (simp add: entry_pairs_def entry_fields_def entry_of_args_def py_int_val_def add_mset_commute)

lemma sort_keys_JObj_perm:
  assumes "mset xs = mset ys" and "distinct (map fst xs)"
  shows "sort_keys (JObj xs) = sort_keys (JObj ys)"
proof -
  have "sort_key fst (map (\<lambda>(k, v). (k, sort_keys v)) xs) = sort_key fst (map (\<lambda>(k, v). (k, sort_keys v)) ys)"
    using assms by (intro sort_key_perm_distinct) (simp_all only: map_fst_sort_keys mset_map)
  then show ?thesis by simp
qed

lemma write_time_text:
  "canonical_json (hashable_payload (entry_fields now a @ [(''prev_hash'', py_str p)])) =
   Inr (entry_text (entry_of_args i now a p t))"
proof -
  let ?fs = "entry_fields now a @ [(''prev_hash'', py_str p)]"
  let ?js = "map (\<lambda>(k, v). (k, case json_default v of Inr j \<Rightarrow> j | Inl e \<Rightarrow> JNull)) ?fs"
  have "hashable_payload ?fs = ?fs"
    by (simp add: hashable_payload_def entry_fields_def EXCLUDED_FROM_HASH_def)
  moreover have "map_res (\<lambda>(k, v). bind_res (json_default v) (\<lambda>j. Inr (k, j))) ?fs = Inr ?js"
    by (simp add: entry_fields_def)
  moreover have "sort_keys (JObj ?js) = sort_keys (JObj (entry_pairs (entry_of_args i now a p t)))"
    by (rule sort_keys_JObj_perm [OF write_time_pairs entry_pairs_distinct, symmetric])
  ultimately show ?thesis
    by (simp add: canonical_json_def entry_text_def canonical_dumps_def del: sort_keys.simps)
qed

lemma write_time_hash:
  "compute_entry_hash p (entry_fields now a @ [(''prev_hash'', py_str p)]) =
   Inr (entry_digest p (entry_of_args i now a p t))"
  by (simp only: compute_entry_hash_def write_time_text [of now a p i t] entry_digest_def bind_res_simps)

section \<open>The invariant of the table\<close>

definition table_ok :: "audit_table \<Rightarrow> bool" where
  "table_ok tb \<longleftrightarrow>
     sorted_wrt (<) (map ae_id (tb_rows tb)) \<and>
     (\<forall>e \<in> set (tb_rows tb). ae_id e \<le> tb_seq tb \<and> ae_status e \<in> set STATUSES) \<and>
     audit_linked GENESIS_HASH (tb_rows tb)"

lemma table_ok_empty [simp]: "table_ok empty_table"
  by (simp add: table_ok_def empty_table_def)

lemma table_ok_linked: "table_ok tb \<Longrightarrow> audit_linked GENESIS_HASH (tb_rows tb)"
  by (simp add: table_ok_def)

lemma sort_key_id: "table_ok tb \<Longrightarrow> sort_key ae_id (tb_rows tb) = tb_rows tb"
  by (rule sort_key_id_if_sorted)
    (simp add: table_ok_def strict_sorted_iff [symmetric] strict_sorted_imp_sorted)

lemma fetch_all_entries_rows: "table_ok tb \<Longrightarrow> fetch_all_entries tb = tb_rows tb"
  by (simp add: fetch_all_entries_def sort_key_id)

lemma prev_hash_tip:
  assumes "table_ok tb"
  shows "hash_or_genesis (latest_hash (tb_rows tb)) = audit_tip GENESIS_HASH (tb_rows tb)"
proof (cases "tb_rows tb" rule: rev_cases)
  case Nil
  then show ?thesis by (simp add: latest_hash_def hash_or_genesis_def)
next
  case (snoc es e)
  have "length (audit_tip GENESIS_HASH (tb_rows tb)) = 64"
    using ac.chain_sealed [OF ac.sealed_genesis table_ok_linked [OF assms]] .
  then have "ae_this_hash e \<noteq> []" using snoc by auto
  then show ?thesis
    using sort_key_id [OF assms] snoc by (simp add: latest_hash_def hash_or_genesis_def)
qed

text \<open>The row a successful write appends.\<close>

definition sealed_entry :: "audit_table \<Rightarrow> datetime \<Rightarrow> entry_args \<Rightarrow> audit_entry" where
  "sealed_entry tb now a =
     (let p = audit_tip GENESIS_HASH (tb_rows tb);
          e = entry_of_args (tb_seq tb + 1) now a p []
      in entry_of_args (tb_seq tb + 1) now a p (entry_digest p e))"

lemma entry_text_this_hash:
  "entry_text (entry_of_args i now a p t) = entry_text (entry_of_args j now a p u)"
  by (simp add: entry_text_def entry_pairs_def entry_of_args_def)

lemma sealed_entry_hashes:
  "ae_prev_hash (sealed_entry tb now a) = audit_tip GENESIS_HASH (tb_rows tb)"
  "ae_this_hash (sealed_entry tb now a) =
     entry_digest (audit_tip GENESIS_HASH (tb_rows tb)) (sealed_entry tb now a)"
proof -
  show "ae_prev_hash (sealed_entry tb now a) = audit_tip GENESIS_HASH (tb_rows tb)"
    by (simp add: sealed_entry_def Let_def entry_of_args_def)
  let ?p = "audit_tip GENESIS_HASH (tb_rows tb)" and ?i = "tb_seq tb + 1"
  have th: "ae_this_hash (entry_of_args ?i now a ?p t) = t" for t
    by (simp add: entry_of_args_def)
  show "ae_this_hash (sealed_entry tb now a) = entry_digest ?p (sealed_entry tb now a)"
    unfolding sealed_entry_def Let_def th entry_digest_def
    by (rule arg_cong [where f = "\<lambda>t. sha256_hex (_ @ t)"]) (rule entry_text_this_hash)
qed

lemma write_entry_eq:
  assumes "table_ok tb"
  shows "write_entry None now a tb = insert_row (\<lambda>i. (sealed_entry tb now a)\<lparr>ae_id := i\<rparr>) tb"
proof -
  let ?p = "audit_tip GENESIS_HASH (tb_rows tb)" and ?i = "tb_seq tb + 1"
  let ?d = "entry_digest ?p (entry_of_args ?i now a ?p [])"
  have "compute_entry_hash ?p (entry_fields now a @ [(''prev_hash'', py_str ?p)]) = Inr ?d"
    by (rule write_time_hash)
  moreover have "entry_of_args i now a ?p ?d = (sealed_entry tb now a)\<lparr>ae_id := i\<rparr>" for i
    by (simp add: sealed_entry_def Let_def entry_of_args_def)
  ultimately show ?thesis
    by (simp add: write_entry_def prev_hash_tip [OF assms] Let_def del: py_str.simps)
qed

lemma write_entry_cases:
  assumes ok: "table_ok tb" and w: "write_entry fault now a tb = (r, tb')"
  obtains
    (stored) "fault = None" "r = Inr (sealed_entry tb now a)" "tb_rows tb' = tb_rows tb @ [sealed_entry tb now a]"
      "tb_seq tb' = tb_seq tb + 1" "ea_status a \<in> set STATUSES"
  | (failed) exc where "r = Inl exc" "tb_rows tb' = tb_rows tb" "tb_seq tb \<le> tb_seq tb'"
proof (cases fault)
  case (Some e)
  then have "r = Inl e" "tb' = tb" using w by (auto simp: write_entry_def)
  then show thesis using failed by simp
next
  case None
  have i: "(sealed_entry tb now a)\<lparr>ae_id := tb_seq tb + 1\<rparr> = sealed_entry tb now a"
    by (simp add: sealed_entry_def Let_def entry_of_args_def)
  have st: "ae_status (sealed_entry tb now a) = ea_status a"
    by (simp add: sealed_entry_def Let_def entry_of_args_def)
  from None w have w': "insert_row (\<lambda>i. (sealed_entry tb now a)\<lparr>ae_id := i\<rparr>) tb = (r, tb')"
    by (simp add: write_entry_eq [OF ok])
  then have eq: "(r, tb') =
      (if row_constraints (tb_rows tb) (sealed_entry tb now a)
       then (Inr (sealed_entry tb now a),
             tb\<lparr>tb_rows := tb_rows tb @ [sealed_entry tb now a], tb_seq := tb_seq tb + 1\<rparr>)
       else (Inl (Exn DbErr ''IntegrityError''), tb\<lparr>tb_seq := tb_seq tb + 1\<rparr>))"
    by (simp only: insert_row_def Let_def i)
  show thesis
  proof (cases "row_constraints (tb_rows tb) (sealed_entry tb now a)")
    case True
    then show thesis using eq None stored st by (simp add: row_constraints_def)
  next
    case False
    then show thesis using eq failed by simp
  qed
qed

lemma sealed_entry_id: "ae_id (sealed_entry tb now a) = tb_seq tb + 1"
  by (simp add: sealed_entry_def Let_def entry_of_args_def)

lemma table_ok_write:
  assumes ok: "table_ok tb" and w: "write_entry fault now a tb = (r, tb')"
  shows "table_ok tb'"
proof (cases rule: write_entry_cases [OF ok w])
  case 1
  have st: "ae_status (sealed_entry tb now a) = ea_status a"
    by (simp add: sealed_entry_def Let_def entry_of_args_def)
  have lt: "\<forall>e \<in> set (tb_rows tb). ae_id e \<le> tb_seq tb" using ok by (simp add: table_ok_def)
  have "sorted_wrt (<) (map ae_id (tb_rows tb'))"
    using ok 1(3) lt by (auto simp: table_ok_def sorted_wrt_append sealed_entry_id)
  moreover have "\<forall>e \<in> set (tb_rows tb'). ae_id e \<le> tb_seq tb' \<and> ae_status e \<in> set STATUSES"
    using ok 1(3,4,5) st sealed_entry_id [of tb now a] by (auto simp: table_ok_def)
  moreover have "audit_linked GENESIS_HASH (tb_rows tb')"
    unfolding 1(3) by (rule ac.chain_extend [OF table_ok_linked [OF ok] sealed_entry_hashes])
  ultimately show ?thesis by (simp add: table_ok_def)
next
  case (2 exc)
  then show ?thesis using ok by (fastforce simp: table_ok_def)
qed

text \<open>The table under its invariant is an append-only log of the stored rows.\<close>

interpretation al: append_log "\<lambda>(fault, now, a). write_entry fault now a" tb_rows table_ok
proof (standard, goal_cases)
  case (1 t a)
  obtain fault now ea where a: "a = (fault, now, ea)" by (cases a)
  obtain r t' where "write_entry fault now ea t = (r, t')" by fastforce
  then show ?case using table_ok_write [OF 1] by (simp add: a)
next
  case (2 t a)
  obtain fault now ea where a: "a = (fault, now, ea)" by (cases a)
  obtain r t' where w: "write_entry fault now ea t = (r, t')" by fastforce
  show ?case by (rule write_entry_cases [OF 2 w]) (use w in \<open>simp_all add: a\<close>)
qed

lemma write_entry_append_only:
  "\<exists>new. tb_rows (snd (write_entry fault now a tb)) = tb_rows tb @ new \<and> length new \<le> 1"
  by (auto simp: write_entry_def insert_row_def Let_def split: option.splits sum.splits)

end
