(* ===== verification/RedisIface.thy ===== *)
theory RedisIface
  imports Prelude
begin

text \<open>
  The Redis server as the code sees it (\<open>session/redis_client.py\<close>): a parameter with three
  operations on an abstract state \<open>'s\<close>. A list of commands is one \<open>MULTI\<close>/\<open>EXEC\<close>
  transaction, or one command sent alone. \<open>redis_laws\<close> states the documented behaviour the
  HITL queue relies on.
\<close>

datatype redis_cmd =
    HSet string "(string \<times> string) list"
  | Expire string int
  | SAdd string string
  | SRem string string
  | SetEx string string int

record 's redis =
  rd_exec :: "redis_cmd list \<Rightarrow> 's \<Rightarrow> unit res \<times> 's"
  rd_hgetall :: "string \<Rightarrow> 's \<Rightarrow> (string, string) dict res"
  rd_smembers :: "string \<Rightarrow> 's \<Rightarrow> string list res"

text \<open>What one command makes of the hash, or of the set, at a key.\<close>

fun hash_after_cmd :: "string \<Rightarrow> redis_cmd \<Rightarrow> (string, string) dict \<Rightarrow> (string, string) dict" where
  "hash_after_cmd k (HSet k' m) d =
     (if k' = k then foldl (\<lambda>d (f, v). dict_set f v d) d m else d)"
| "hash_after_cmd k (Expire k' secs) d = (if k' = k \<and> secs \<le> 0 then [] else d)"
| "hash_after_cmd k _ d = d"

fun members_after_cmd :: "string \<Rightarrow> redis_cmd \<Rightarrow> string set \<Rightarrow> string set" where
  "members_after_cmd k (SAdd k' m) S = (if k' = k then insert m S else S)"
| "members_after_cmd k (SRem k' m) S = (if k' = k then S - {m} else S)"
| "members_after_cmd k (Expire k' secs) S = (if k' = k \<and> secs \<le> 0 then {} else S)"
| "members_after_cmd k _ S = S"

definition hash_after :: "string \<Rightarrow> redis_cmd list \<Rightarrow> (string, string) dict \<Rightarrow> (string, string) dict" where
  "hash_after k cmds d = foldl (\<lambda>d c. hash_after_cmd k c d) d cmds"

definition members_after :: "string \<Rightarrow> redis_cmd list \<Rightarrow> string set \<Rightarrow> string set" where
  "members_after k cmds S = foldl (\<lambda>S c. members_after_cmd k c S) S cmds"

text \<open>
  A transaction that succeeds has the effect of its commands in order, on a server that
  answers reads.
\<close>

definition redis_laws :: "'s redis \<Rightarrow> bool" where
  "redis_laws R \<longleftrightarrow>
     (\<forall>cmds s s' k d. rd_exec R cmds s = (Inr (), s') \<longrightarrow> rd_hgetall R k s = Inr d \<longrightarrow>
        rd_hgetall R k s' = Inr (hash_after k cmds d)) \<and>
     (\<forall>cmds s s' k ms. rd_exec R cmds s = (Inr (), s') \<longrightarrow> rd_smembers R k s = Inr ms \<longrightarrow>
        (\<exists>ms'. rd_smembers R k s' = Inr ms' \<and> set ms' = members_after k cmds (set ms)))"

lemma redis_laws_hgetall:
  "redis_laws R \<Longrightarrow> rd_exec R cmds s = (Inr (), s') \<Longrightarrow> rd_hgetall R k s = Inr d \<Longrightarrow>
     rd_hgetall R k s' = Inr (hash_after k cmds d)"
  by (auto simp: redis_laws_def)

lemma redis_laws_smembers:
  "redis_laws R \<Longrightarrow> rd_exec R cmds s = (Inr (), s') \<Longrightarrow> rd_smembers R k s = Inr ms \<Longrightarrow>
     \<exists>ms'. rd_smembers R k s' = Inr ms' \<and> set ms' = members_after k cmds (set ms)"
  by (auto simp: redis_laws_def)

section \<open>A server that satisfies the laws\<close>

text \<open>Hashes and sets in association lists; used to instantiate the parameter.\<close>

type_synonym mem_redis = "(string, (string, string) dict) dict \<times> (string, string list) dict"

definition get_or :: "'v \<Rightarrow> ('k, 'v) dict \<Rightarrow> 'k \<Rightarrow> 'v" where
  "get_or v d k = (case map_of d k of None \<Rightarrow> v | Some x \<Rightarrow> x)"

lemma get_or_dict_set [simp]: "get_or v (dict_set k x d) k' = (if k' = k then x else get_or v d k')"
  by (simp add: get_or_def)

fun mem_cmd :: "redis_cmd \<Rightarrow> mem_redis \<Rightarrow> mem_redis" where
  "mem_cmd (HSet k m) (hs, ss) =
     (dict_set k (foldl (\<lambda>d (f, v). dict_set f v d) (get_or [] hs k) m) hs, ss)"
| "mem_cmd (Expire k secs) (hs, ss) =
     (if secs \<le> 0 then (dict_set k [] hs, dict_set k [] ss) else (hs, ss))"
| "mem_cmd (SAdd k m) (hs, ss) = (hs, dict_set k (List.insert m (get_or [] ss k)) ss)"
| "mem_cmd (SRem k m) (hs, ss) = (hs, dict_set k (filter (\<lambda>x. x \<noteq> m) (get_or [] ss k)) ss)"
| "mem_cmd (SetEx k v secs) s = s"

definition mem_redis :: "mem_redis redis" where
  "mem_redis =
     \<lparr>rd_exec = (\<lambda>cmds s. (Inr (), foldl (\<lambda>s c. mem_cmd c s) s cmds)),
      rd_hgetall = (\<lambda>k s. Inr (get_or [] (fst s) k)),
      rd_smembers = (\<lambda>k s. Inr (get_or [] (snd s) k))\<rparr>"

lemma mem_cmd_hash: "get_or [] (fst (mem_cmd c s)) k = hash_after_cmd k c (get_or [] (fst s) k)"
  by (cases s; cases c) auto

lemma mem_cmd_members: "set (get_or [] (snd (mem_cmd c s)) k) = members_after_cmd k c (set (get_or [] (snd s) k))"
  by (cases s; cases c) auto

lemma mem_redis_laws: "redis_laws mem_redis"
proof -
  have h: "get_or [] (fst (foldl (\<lambda>s c. mem_cmd c s) s cmds)) k = hash_after k cmds (get_or [] (fst s) k)"
    for cmds s k
    by (induction cmds arbitrary: s) (auto simp: hash_after_def mem_cmd_hash)
  have m: "set (get_or [] (snd (foldl (\<lambda>s c. mem_cmd c s) s cmds)) k) =
      members_after k cmds (set (get_or [] (snd s) k))" for cmds s k
    by (induction cmds arbitrary: s) (auto simp: members_after_def mem_cmd_members)
  show ?thesis by (auto simp: redis_laws_def mem_redis_def h m)
qed

end
