(* ===== verification/PyRegex.thy ===== *)
theory PyRegex
  imports PyText
begin

text \<open>
  The part of Python's \<open>re\<close> module the patterns of the code use: backtracking match with
  greedy bounded repetition, word boundaries, \<open>search\<close> and \<open>sub\<close>. A position in the text
  is the character before it, if any, and the text that is left.
\<close>

datatype cls = Digit | Space | OneOf "char list" | NoCase char

fun in_cls :: "cls \<Rightarrow> char \<Rightarrow> bool" where
  "in_cls Digit c = is_digit c"
| "in_cls Space c = is_space c"
| "in_cls (OneOf cs) c = (c \<in> set cs)"
| "in_cls (NoCase d) c = (lower_char c = lower_char d)"

datatype regex =
    Empty
  | Cls cls
  | Seq regex regex
  | Alt regex regex
  | Rep regex nat nat
  | Many cls
  | WordB

type_synonym pos = "char option \<times> string"

text \<open>\<open>\w\<close> below code point 256: letters, digits, other numerics and the underscore.\<close>

definition is_word :: "char \<Rightarrow> bool" where
  "is_word c \<longleftrightarrow> (let n = ord c in
     48 \<le> n \<and> n \<le> 57 \<or> 65 \<le> n \<and> n \<le> 90 \<or> n = 95 \<or> 97 \<le> n \<and> n \<le> 122 \<or>
     n \<in> {170, 178, 179, 181, 185, 186, 188, 189, 190} \<or>
     192 \<le> n \<and> n \<noteq> 215 \<and> n \<noteq> 247)"

definition word_opt :: "char option \<Rightarrow> bool" where
  "word_opt p = (case p of None \<Rightarrow> False | Some c \<Rightarrow> is_word c)"

definition word_hd :: "string \<Rightarrow> bool" where
  "word_hd s = (case s of [] \<Rightarrow> False | c # t \<Rightarrow> is_word c)"

definition step_cls :: "cls \<Rightarrow> pos \<Rightarrow> pos list" where
  "step_cls k x = (case snd x of [] \<Rightarrow> [] | c # t \<Rightarrow> if in_cls k c then [(Some c, t)] else [])"

text \<open>
  Greedy repetition: at least \<open>m\<close> times, then up to \<open>n\<close> times more, the longer attempts first.
\<close>

fun rep_ends :: "(pos \<Rightarrow> pos list) \<Rightarrow> nat \<Rightarrow> nat \<Rightarrow> pos \<Rightarrow> pos list" where
  "rep_ends f 0 0 x = [x]"
| "rep_ends f 0 (Suc n) x = concat (map (rep_ends f 0 n) (f x)) @ [x]"
| "rep_ends f (Suc m) n x = concat (map (rep_ends f m n) (f x))"

text \<open>
  The positions a match can end at, in the order backtracking tries them. \<open>Rep r m n\<close> is
  \<open>r{m,n}\<close> and \<open>Many k\<close> is \<open>k*\<close>, which consumes at most what is left.
\<close>

fun re_ends :: "regex \<Rightarrow> pos \<Rightarrow> pos list" where
  "re_ends Empty x = [x]"
| "re_ends (Cls k) x = step_cls k x"
| "re_ends (Seq a b) x = concat (map (re_ends b) (re_ends a x))"
| "re_ends (Alt a b) x = re_ends a x @ re_ends b x"
| "re_ends (Rep r m n) x = rep_ends (re_ends r) m (n - m) x"
| "re_ends (Many k) x = rep_ends (step_cls k) 0 (length (snd x)) x"
| "re_ends WordB x = (if word_opt (fst x) \<noteq> word_hd (snd x) then [x] else [])"

text \<open>\<open>pattern.search(s)\<close> succeeds, from a position on.\<close>

fun re_search :: "regex \<Rightarrow> char option \<Rightarrow> string \<Rightarrow> bool" where
  "re_search r p [] = (re_ends r (p, []) \<noteq> [])"
| "re_search r p (c # s) = (re_ends r (p, c # s) \<noteq> [] \<or> re_search r (Some c) s)"

text \<open>\<open>pattern.sub(repl, s)\<close> for a pattern that does not match the empty string.\<close>

function (sequential) re_sub :: "regex \<Rightarrow> string \<Rightarrow> char option \<Rightarrow> string \<Rightarrow> string" where
  "re_sub r repl p [] = []"
| "re_sub r repl p (c # s) =
     (case re_ends r (p, c # s) of
        [] \<Rightarrow> c # re_sub r repl (Some c) s
      | (p', s') # _ \<Rightarrow>
          if length s' < length (c # s) then repl @ re_sub r repl p' s'
          else c # re_sub r repl (Some c) s)"
  by pat_completeness auto
termination
  by (relation "measure (\<lambda>(r, repl, p, s). length s)") auto

section \<open>The language of a pattern\<close>

text \<open>The words a boundary-free pattern matches.\<close>

definition conc :: "string set \<Rightarrow> string set \<Rightarrow> string set" where
  "conc A B = {u @ v |u v. u \<in> A \<and> v \<in> B}"

fun rep_lang :: "string set \<Rightarrow> nat \<Rightarrow> nat \<Rightarrow> string set" where
  "rep_lang A 0 0 = {[]}"
| "rep_lang A 0 (Suc n) = insert [] (conc A (rep_lang A 0 n))"
| "rep_lang A (Suc m) n = conc A (rep_lang A m n)"

fun bfree :: "regex \<Rightarrow> bool" where
  "bfree (Seq a b) = (bfree a \<and> bfree b)"
| "bfree (Alt a b) = (bfree a \<and> bfree b)"
| "bfree (Rep r m n) = bfree r"
| "bfree (Many k) = False"
| "bfree WordB = False"
| "bfree _ = True"

fun lang :: "regex \<Rightarrow> string set" where
  "lang Empty = {[]}"
| "lang (Cls k) = {[c] |c. in_cls k c}"
| "lang (Seq a b) = conc (lang a) (lang b)"
| "lang (Alt a b) = lang a \<union> lang b"
| "lang (Rep r m n) = rep_lang (lang r) m (n - m)"
| "lang _ = {}"

definition after :: "char option \<Rightarrow> string \<Rightarrow> char option" where
  "after p w = (if w = [] then p else Some (last w))"

lemma after_simps [simp]: "after p [] = p" "after p (w @ [c]) = Some c" "after (after p u) v = after p (u @ v)"
  by (auto simp: after_def)

lemma after_Cons [simp]: "after p (c # w) = after (Some c) w"
  by (simp add: after_def)

definition ends_by :: "string set \<Rightarrow> (pos \<Rightarrow> pos list) \<Rightarrow> bool" where
  "ends_by A f \<longleftrightarrow>
     (\<forall>p s q t. (q, t) \<in> set (f (p, s)) \<longleftrightarrow> (\<exists>w \<in> A. s = w @ t \<and> q = after p w))"

lemma ends_byI:
  "(\<And>p s q t. (q, t) \<in> set (f (p, s)) \<longleftrightarrow> (\<exists>w \<in> A. s = w @ t \<and> q = after p w)) \<Longrightarrow> ends_by A f"
  by (simp add: ends_by_def)

lemma ends_by_conc:
  assumes f: "ends_by A f" and g: "ends_by B g"
  shows "ends_by (conc A B) (\<lambda>x. concat (map g (f x)))"
proof (rule ends_byI)
  fix p s q t
  show "(q, t) \<in> set (concat (map g (f (p, s)))) \<longleftrightarrow>
      (\<exists>w \<in> conc A B. s = w @ t \<and> q = after p w)"
  proof
    assume "(q, t) \<in> set (concat (map g (f (p, s))))"
    then obtain p' s' where "(p', s') \<in> set (f (p, s))" and "(q, t) \<in> set (g (p', s'))" by auto
    then obtain u v where "u \<in> A" "v \<in> B" "s = u @ v @ t" "q = after p (u @ v)"
      using f g by (auto simp: ends_by_def)
    then show "\<exists>w \<in> conc A B. s = w @ t \<and> q = after p w"
      by (intro bexI [of _ "u @ v"]) (auto simp: conc_def)
  next
    assume "\<exists>w \<in> conc A B. s = w @ t \<and> q = after p w"
    then obtain u v where uv: "u \<in> A" "v \<in> B" "s = u @ v @ t" "q = after p (u @ v)"
      by (auto simp: conc_def)
    then have "(after p u, v @ t) \<in> set (f (p, s))" using f by (auto simp: ends_by_def)
    moreover have "(q, t) \<in> set (g (after p u, v @ t))"
      using uv g by (auto simp: ends_by_def)
    ultimately show "(q, t) \<in> set (concat (map g (f (p, s))))" by auto
  qed
qed

lemma ends_by_rep: "ends_by A f \<Longrightarrow> ends_by (rep_lang A m n) (rep_ends f m n)"
proof (induction A m n rule: rep_lang.induct)
  case (1 A)
  then show ?case by (auto simp: ends_by_def)
next
  case (2 A n)
  from ends_by_conc [OF 2(2) 2(1) [OF 2(2)]] show ?case
    by (auto simp: ends_by_def)
next
  case (3 A m n)
  from ends_by_conc [OF 3(2) 3(1) [OF 3(2)]] show ?case
    by (auto simp: ends_by_def)
qed

lemma re_ends_lang: "bfree r \<Longrightarrow> ends_by (lang r) (re_ends r)"
proof (induction r)
  case (Cls k)
  show ?case by (auto simp: ends_by_def step_cls_def split: list.splits)
next
  case (Seq a b)
  then show ?case using ends_by_conc [of "lang a" "re_ends a" "lang b" "re_ends b"]
    by (simp add: ends_by_def)
next
  case (Rep r m n)
  then show ?case using ends_by_rep [of "lang r" "re_ends r" m "n - m"] by (simp add: ends_by_def)
qed (auto simp: ends_by_def)

text \<open>Repetition stays in a set of words closed under concatenation.\<close>

lemma rep_lang_closed:
  assumes "A \<subseteq> Q" and "\<And>u v. u \<in> Q \<Longrightarrow> v \<in> Q \<Longrightarrow> u @ v \<in> Q"
  shows "rep_lang A m n \<subseteq> insert [] Q" and "0 < m \<Longrightarrow> rep_lang A m n \<subseteq> Q"
proof -
  have conc: "conc A B \<subseteq> Q" if B: "B \<subseteq> insert [] Q" for B
  proof
    fix w
    assume "w \<in> conc A B"
    then obtain u v where "w = u @ v" "u \<in> Q" "v = [] \<or> v \<in> Q"
      using B assms(1) by (auto simp: conc_def)
    then show "w \<in> Q" using assms(2) by auto
  qed
  have "rep_lang A m n \<subseteq> insert [] Q \<and> (0 < m \<longrightarrow> rep_lang A m n \<subseteq> Q)"
    using conc
  proof (induction A m n rule: rep_lang.induct)
    case (2 A n)
    then show ?case by simp (meson subset_insertI2)
  next
    case (3 A m n)
    then show ?case by simp (meson subset_insertI2)
  qed simp
  then show "rep_lang A m n \<subseteq> insert [] Q" and "0 < m \<Longrightarrow> rep_lang A m n \<subseteq> Q" by blast+
qed

section \<open>Search and substitution\<close>

lemma re_search_append: "re_search r (after p u) v \<Longrightarrow> re_search r p (u @ v)"
  by (induction u arbitrary: p) auto

lemma re_sub_id: "\<not> re_search r p s \<Longrightarrow> re_sub r repl p s = s"
  by (induction s arbitrary: p) auto

end
