(* ===== verification/Redaction.thy ===== *)
theory Redaction
  imports PyRegex PyJson Interfaces
begin

text \<open>
  \<open>policies/redaction.py\<close>: the PII patterns, redaction of a text and of every string leaf
  of a JSON value. The main lemma is that a redacted text contains no match of any pattern
  it was redacted with: replacing a match never creates one elsewhere, because a match
  starts and ends with a digit at a word boundary and the placeholder has no digit.
\<close>

definition REDACTED_PLACEHOLDER :: string where
  "REDACTED_PLACEHOLDER = ''[REDACTED]''"

definition digits_re :: "nat \<Rightarrow> nat \<Rightarrow> regex" where
  "digits_re m n = Rep (Cls Digit) m n"

definition sep_re :: regex where
  "sep_re = Rep (Cls (OneOf '' -'')) 0 1"

definition bounded_re :: "regex \<Rightarrow> regex" where
  "bounded_re b = Seq WordB (Seq b WordB)"

definition ssn_body :: regex where
  "ssn_body = Seq (digits_re 3 3) (Seq (Cls (OneOf ''-'')) (Seq (digits_re 2 2)
     (Seq (Cls (OneOf ''-'')) (digits_re 4 4))))"

definition credit_card_body :: regex where
  "credit_card_body = Seq (Cls Digit) (Rep (Seq sep_re (Cls Digit)) 12 15)"

definition bank_account_body :: regex where
  "bank_account_body = Seq (digits_re 9 9) (Seq sep_re (digits_re 4 17))"

definition PII_PATTERNS :: "(string, regex) dict" where
  "PII_PATTERNS =
     [(''ssn'', bounded_re ssn_body),
      (''credit_card'', bounded_re credit_card_body),
      (''bank_account'', bounded_re bank_account_body)]"

text \<open>A name without a pattern is logged and skipped.\<close>

fun redact_text :: "string \<Rightarrow> string list \<Rightarrow> string" where
  "redact_text s [] = s"
| "redact_text s (name # names) =
     (case map_of PII_PATTERNS name of
        None \<Rightarrow> redact_text s names
      | Some pat \<Rightarrow> redact_text (re_sub pat REDACTED_PLACEHOLDER None s) names)"

fun redact_json_value :: "json \<Rightarrow> string list \<Rightarrow> json" where
  "redact_json_value (JStr s) names = JStr (redact_text s names)"
| "redact_json_value (JList xs) names = JList (map (\<lambda>x. redact_json_value x names) xs)"
| "redact_json_value (JObj kvs) names = JObj (map (\<lambda>(k, v). (k, redact_json_value v names)) kvs)"
| "redact_json_value v names = v"

section \<open>The shape of a PII pattern\<close>

definition pii_char :: "char \<Rightarrow> bool" where
  "pii_char c \<longleftrightarrow> is_digit c \<or> c = CHR '' '' \<or> c = CHR ''-''"

definition pii_words :: "string set" where
  "pii_words = {w. w \<noteq> [] \<and> is_digit (hd w) \<and> is_digit (last w) \<and> (\<forall>c \<in> set w. pii_char c)}"

definition pii_body :: "regex \<Rightarrow> bool" where
  "pii_body b \<longleftrightarrow> bfree b \<and> lang b \<subseteq> pii_words"

lemma digit_is_word: "is_digit c \<Longrightarrow> is_word c"
  by (simp add: is_digit_def is_word_def Let_def)

lemma pii_words_single: "is_digit c \<Longrightarrow> [c] \<in> pii_words"
  by (simp add: pii_words_def pii_char_def)

lemma pii_words_append: "u \<in> pii_words \<Longrightarrow> v \<in> pii_words \<Longrightarrow> u @ v \<in> pii_words"
  by (auto simp: pii_words_def)

lemma pii_words_sep:
  "u \<in> pii_words \<Longrightarrow> v \<in> pii_words \<Longrightarrow> \<forall>c \<in> set w. pii_char c \<Longrightarrow> u @ w @ v \<in> pii_words"
  by (auto simp: pii_words_def)

lemma conc_subset: "A \<subseteq> B \<Longrightarrow> C \<subseteq> D \<Longrightarrow> conc A C \<subseteq> conc B D"
  by (auto simp: conc_def)

lemma lang_digits: "0 < m \<Longrightarrow> lang (digits_re m n) \<subseteq> pii_words"
  unfolding digits_re_def lang.simps
  by (rule rep_lang_closed(2) [OF _ pii_words_append]) (auto simp: pii_words_single)

lemma lang_sep: "w \<in> lang sep_re \<Longrightarrow> \<forall>c \<in> set w. pii_char c"
  by (auto simp: sep_re_def conc_def pii_char_def numeral_eq_Suc)

lemma ssn_pii: "pii_body ssn_body"
proof -
  have "w \<in> pii_words" if "w \<in> lang ssn_body" for w
  proof -
    from that obtain a b c where "w = a @ ''-'' @ b @ ''-'' @ c"
      and "a \<in> lang (digits_re 3 3)" "b \<in> lang (digits_re 2 2)" "c \<in> lang (digits_re 4 4)"
      by (auto simp: ssn_body_def conc_def)
    moreover have "pii_char (CHR ''-'')" by (simp add: pii_char_def)
    ultimately show ?thesis
      using lang_digits [of 3 3] lang_digits [of 2 2] lang_digits [of 4 4]
      by (auto simp: pii_words_def)
  qed
  then show ?thesis by (auto simp: pii_body_def ssn_body_def digits_re_def)
qed

lemma bank_account_pii: "pii_body bank_account_body"
proof -
  have "w \<in> pii_words" if "w \<in> lang bank_account_body" for w
  proof -
    from that obtain a b c where "w = a @ b @ c"
      and "a \<in> lang (digits_re 9 9)" "b \<in> lang sep_re" "c \<in> lang (digits_re 4 17)"
      by (auto simp: bank_account_body_def conc_def)
    then show ?thesis
      using lang_digits [of 9 9] lang_digits [of 4 17] lang_sep [of b]
        pii_words_sep [of a c b] by auto
  qed
  then show ?thesis by (auto simp: pii_body_def bank_account_body_def digits_re_def sep_re_def)
qed

lemma credit_card_pii: "pii_body credit_card_body"
proof -
  text \<open>The groups after the first digit end with a digit.\<close>
  let ?Q = "{w. w \<noteq> [] \<and> is_digit (last w) \<and> (\<forall>c \<in> set w. pii_char c)}"
  have "w \<in> ?Q" if "w \<in> lang (Seq sep_re (Cls Digit))" for w
    using that by (auto simp: conc_def pii_char_def dest!: lang_sep)
  then have "lang (Seq sep_re (Cls Digit)) \<subseteq> ?Q" by blast
  from rep_lang_closed(1) [OF this, of 12 3]
  have g: "rep_lang (lang (Seq sep_re (Cls Digit))) 12 3 \<subseteq> insert [] ?Q" by fastforce
  have "w \<in> pii_words" if "w \<in> lang credit_card_body" for w
  proof -
    from that obtain d v where w: "w = d # v" and d: "is_digit d"
      and v: "v \<in> rep_lang (lang (Seq sep_re (Cls Digit))) 12 3"
      by (auto simp: credit_card_body_def conc_def)
    from subsetD [OF g v] w d show ?thesis
      by (auto simp: pii_words_def pii_char_def)
  qed
  then show ?thesis by (auto simp: pii_body_def credit_card_body_def sep_re_def)
qed

lemma PII_PATTERNS_shape:
  assumes "map_of PII_PATTERNS name = Some r"
  obtains b where "r = bounded_re b" and "pii_body b"
  using assms ssn_pii credit_card_pii bank_account_pii
  by (auto simp: PII_PATTERNS_def split: if_splits)

section \<open>Redacted text has no match\<close>

lemma bounded_re_ends:
  assumes "pii_body b"
  shows "(q, t) \<in> set (re_ends (bounded_re b) (p, s)) \<longleftrightarrow>
    (\<exists>w \<in> lang b. s = w @ t \<and> q = Some (last w) \<and> \<not> word_opt p \<and> \<not> word_hd t)"
proof -
  have e: "ends_by (lang b) (re_ends b)" using assms by (simp add: pii_body_def re_ends_lang)
  have shape: "w \<noteq> [] \<and> word_hd (w @ t) \<and> is_word (last w)" if "w \<in> lang b" for w t
  proof -
    from that assms have "w \<in> pii_words" by (auto simp: pii_body_def)
    then show ?thesis
      by (cases w) (auto simp: pii_words_def word_hd_def digit_is_word)
  qed
  show ?thesis
  proof
    assume l: "(q, t) \<in> set (re_ends (bounded_re b) (p, s))"
    then have "(q, t) \<in> set (re_ends b (p, s))" and b: "word_opt p \<noteq> word_hd s" "word_opt q \<noteq> word_hd t"
      by (auto simp: bounded_re_def split: if_splits)
    then obtain w where w: "w \<in> lang b" "s = w @ t" "q = after p w"
      using e by (auto simp: ends_by_def)
    with shape [OF w(1)] b show "\<exists>w \<in> lang b. s = w @ t \<and> q = Some (last w) \<and> \<not> word_opt p \<and> \<not> word_hd t"
      by (intro bexI [of _ w]) (auto simp: after_def word_opt_def)
  next
    assume "\<exists>w \<in> lang b. s = w @ t \<and> q = Some (last w) \<and> \<not> word_opt p \<and> \<not> word_hd t"
    then obtain w where w: "w \<in> lang b" "s = w @ t" "q = Some (last w)" "\<not> word_opt p" "\<not> word_hd t"
      by blast
    with shape [OF w(1)] have "(q, t) \<in> set (re_ends b (p, s))"
      using e by (auto simp: ends_by_def after_def)
    then show "(q, t) \<in> set (re_ends (bounded_re b) (p, s))"
      using w shape [OF w(1), of t] by (force simp: bounded_re_def word_opt_def)
  qed
qed

lemma bounded_re_matches:
  assumes "pii_body b"
  shows "re_ends (bounded_re b) (p, s) \<noteq> [] \<longleftrightarrow>
    (\<exists>w \<in> lang b. \<exists>t. s = w @ t \<and> \<not> word_opt p \<and> \<not> word_hd t)"
proof -
  have "re_ends (bounded_re b) (p, s) \<noteq> [] \<longleftrightarrow> (\<exists>q t. (q, t) \<in> set (re_ends (bounded_re b) (p, s)))"
    by (cases "re_ends (bounded_re b) (p, s)") auto
  then show ?thesis using bounded_re_ends [OF assms] by auto
qed

text \<open>A match at a position needs a digit there.\<close>

lemma no_match_nondigit:
  assumes "pii_body b" and "\<not> is_digit c"
  shows "re_ends (bounded_re b) (p, c # s) = []"
proof (rule ccontr)
  assume "re_ends (bounded_re b) (p, c # s) \<noteq> []"
  then obtain w t where "w \<in> lang b" "c # s = w @ t" using bounded_re_matches [OF assms(1)] by blast
  moreover from this assms(1) have "w \<noteq> [] \<and> is_digit (hd w)" by (auto simp: pii_body_def pii_words_def)
  ultimately show False using assms(2) by (cases w) auto
qed

lemma no_match_Nil: "pii_body b \<Longrightarrow> re_ends (bounded_re b) (p, []) = []"
proof (rule ccontr)
  assume b: "pii_body b" and "re_ends (bounded_re b) (p, []) \<noteq> []"
  then have "[] \<in> lang b" using bounded_re_matches [OF b] by auto
  then show False using b by (auto simp: pii_body_def pii_words_def)
qed

lemma search_prev:
  assumes "pii_body b" and "\<not> word_hd s"
  shows "re_search (bounded_re b) p s = re_search (bounded_re b) q s"
proof (cases s)
  case Nil
  then show ?thesis using no_match_Nil [OF assms(1)] by simp
next
  case (Cons c t)
  then have "\<not> is_digit c" using assms(2) digit_is_word by (auto simp: word_hd_def)
  then show ?thesis using Cons no_match_nondigit [OF assms(1)] by simp
qed

lemma search_placeholder:
  assumes b: "pii_body b" and s: "\<not> word_hd s"
  shows "re_search (bounded_re b) p (REDACTED_PLACEHOLDER @ s) = re_search (bounded_re b) q s"
proof -
  have nd: "\<forall>c \<in> set REDACTED_PLACEHOLDER. \<not> is_digit c"
    by (simp add: REDACTED_PLACEHOLDER_def is_digit_def)
  have "re_search (bounded_re b) p (u @ s) = re_search (bounded_re b) q s"
    if "\<forall>c \<in> set u. \<not> is_digit c" for u p
    using that
  proof (induction u arbitrary: p)
    case Nil
    then show ?case using search_prev [OF b s, of p q] by simp
  next
    case (Cons c u)
    then show ?case using no_match_nondigit [OF b, of c p "u @ s"] by simp
  qed
  from this [OF nd] show ?thesis .
qed

text \<open>One step of \<open>re_sub\<close> with a PII pattern.\<close>

lemma re_sub_match:
  assumes b: "pii_body b" and "re_ends (bounded_re b) (p, c # s) \<noteq> []"
  obtains w t where "w \<in> lang b" and "c # s = w @ t" and "\<not> word_opt p" and "\<not> word_hd t"
    and "re_sub (bounded_re b) repl p (c # s) = repl @ re_sub (bounded_re b) repl (Some (last w)) t"
    and "length t < length (c # s)"
proof -
  from assms(2) obtain q t rest where e: "re_ends (bounded_re b) (p, c # s) = (q, t) # rest"
    by (metis list.exhaust surj_pair)
  then have "(q, t) \<in> set (re_ends (bounded_re b) (p, c # s))" by simp
  then obtain w where w: "w \<in> lang b" "c # s = w @ t" "q = Some (last w)" "\<not> word_opt p" "\<not> word_hd t"
    using bounded_re_ends [OF b] by blast
  from w(1) b have "w \<noteq> []" by (auto simp: pii_body_def pii_words_def)
  then have "length t < length (c # s)" using w(2) by (metis length_append length_greater_0_conv less_add_same_cancel2)
  moreover from this e w(3)
  have "re_sub (bounded_re b) repl p (c # s) = repl @ re_sub (bounded_re b) repl (Some (last w)) t"
    by simp
  ultimately show thesis using that w(1,2,4,5) by blast
qed

text \<open>
  A stretch of PII characters that the output of a substitution starts with, and that ends
  at a boundary, is also what the input starts with.
\<close>

lemma re_sub_prefix:
  assumes b: "pii_body b"
  shows "re_sub (bounded_re b) REDACTED_PLACEHOLDER p s = w @ v \<Longrightarrow> \<forall>c \<in> set w. pii_char c \<Longrightarrow>
    word_opt (after p w) \<Longrightarrow> \<not> word_hd v \<Longrightarrow> \<exists>t. s = w @ t \<and> \<not> word_hd t"
proof (induction w arbitrary: p s)
  case Nil
  show ?case
  proof (cases s)
    case (Cons c u)
    have "re_ends (bounded_re b) (p, c # u) = []"
      using bounded_re_matches [OF b, of p "c # u"] Nil.prems(3) by auto
    then have "v = c # re_sub (bounded_re b) REDACTED_PLACEHOLDER (Some c) u"
      using Nil.prems(1) Cons by simp
    then show ?thesis using Nil.prems(4) Cons by (simp add: word_hd_def)
  qed (simp add: word_hd_def)
next
  case (Cons d w)
  then obtain c u where s: "s = c # u" by (cases s) auto
  have "re_ends (bounded_re b) (p, c # u) = []"
  proof (rule ccontr)
    assume "re_ends (bounded_re b) (p, c # u) \<noteq> []"
    from re_sub_match [OF b this, of REDACTED_PLACEHOLDER] obtain x
      where "re_sub (bounded_re b) REDACTED_PLACEHOLDER p (c # u) = REDACTED_PLACEHOLDER @ x"
      by metis
    then have "REDACTED_PLACEHOLDER @ x = d # w @ v" using Cons.prems(1) s by simp
    then have "d = CHR ''[''" by (simp add: REDACTED_PLACEHOLDER_def)
    then show False using Cons.prems(2) by (simp add: pii_char_def is_digit_def)
  qed
  then have "d = c" and "re_sub (bounded_re b) REDACTED_PLACEHOLDER (Some c) u = w @ v"
    using Cons.prems(1) s by auto
  with Cons.IH [of "Some c" u] Cons.prems s show ?case by auto
qed

lemma re_sub_head:
  assumes b: "pii_body b" and "\<not> word_hd s"
  shows "\<not> word_hd (re_sub (bounded_re b) REDACTED_PLACEHOLDER p s)"
proof (cases s)
  case (Cons c u)
  with assms(2) have "\<not> is_digit c" using digit_is_word by (auto simp: word_hd_def)
  then show ?thesis using Cons assms no_match_nondigit [OF b, of c p u] by (simp add: word_hd_def)
qed (simp add: word_hd_def)

lemma re_sub_no_match:
  assumes b: "pii_body b" and b': "pii_body b'"
  shows "b' = b \<or> \<not> re_search (bounded_re b') p s \<Longrightarrow>
    \<not> re_search (bounded_re b') p (re_sub (bounded_re b) REDACTED_PLACEHOLDER p s)"
proof (induction "length s" arbitrary: p s rule: less_induct)
  case less
  let ?r = "bounded_re b" and ?r' = "bounded_re b'"
  show ?case
  proof (cases s)
    case Nil
    then show ?thesis using no_match_Nil [OF b'] by simp
  next
    case (Cons c u)
    show ?thesis
    proof (cases "re_ends ?r (p, c # u) = []")
      case False
      from re_sub_match [OF b this] obtain w t where w: "w \<in> lang b" "c # u = w @ t" "\<not> word_hd t"
        and sub: "re_sub ?r REDACTED_PLACEHOLDER p (c # u) =
                    REDACTED_PLACEHOLDER @ re_sub ?r REDACTED_PLACEHOLDER (Some (last w)) t"
        and len: "length t < length (c # u)" by metis
      from w(1) b have "w \<noteq> []" by (auto simp: pii_body_def pii_words_def)
      then have "b' = b \<or> \<not> re_search ?r' (Some (last w)) t"
        using less.prems re_search_append [of ?r' p w t] w(2) Cons by (auto simp: after_def)
      with less.hyps [of t] len Cons
      have "\<not> re_search ?r' (Some (last w)) (re_sub ?r REDACTED_PLACEHOLDER (Some (last w)) t)" by simp
      moreover have "\<not> word_hd (re_sub ?r REDACTED_PLACEHOLDER (Some (last w)) t)"
        using re_sub_head [OF b w(3)] .
      ultimately show ?thesis unfolding Cons sub using search_placeholder [OF b'] by blast
    next
      case True
      let ?out = "re_sub ?r REDACTED_PLACEHOLDER (Some c) u"
      have sub: "re_sub ?r REDACTED_PLACEHOLDER p s = c # ?out" using True Cons by simp
      have "b' = b \<or> \<not> re_search ?r' (Some c) u" using less.prems Cons by auto
      with less.hyps [of u] Cons have rest: "\<not> re_search ?r' (Some c) ?out" by simp
      have "re_ends ?r' (p, c # ?out) = []"
      proof (rule ccontr)
        assume "re_ends ?r' (p, c # ?out) \<noteq> []"
        then obtain w v where w: "w \<in> lang b'" "c # ?out = w @ v" "\<not> word_opt p" "\<not> word_hd v"
          using bounded_re_matches [OF b'] by blast
        from w(1) b' have pw: "w \<in> pii_words" by (auto simp: pii_body_def)
        then obtain w' where w': "w = c # w'" using w(2) by (cases w) (auto simp: pii_words_def)
        have "word_opt (after (Some c) w')"
          using pw w' digit_is_word by (auto simp: pii_words_def after_def word_opt_def split: if_splits)
        moreover have "\<forall>c \<in> set w'. pii_char c" using pw w' by (simp add: pii_words_def)
        ultimately obtain t where "u = w' @ t" "\<not> word_hd t"
          using re_sub_prefix [OF b, of "Some c" u w' v] w w' by auto
        then have "\<exists>w \<in> lang b'. \<exists>t. c # u = w @ t \<and> \<not> word_opt p \<and> \<not> word_hd t"
          using w w' by (intro bexI [of _ w] exI [of _ t]) simp_all
        then have "re_ends ?r' (p, c # u) \<noteq> []"
          unfolding bounded_re_matches [OF b'] .
        then show False using less.prems True Cons by auto
      qed
      then show ?thesis using sub rest by simp
    qed
  qed
qed

section \<open>Texts and JSON values\<close>

definition pii_in :: "string list \<Rightarrow> string \<Rightarrow> bool" where
  "pii_in names s \<longleftrightarrow>
     (\<exists>name \<in> set names. case map_of PII_PATTERNS name of None \<Rightarrow> False | Some r \<Rightarrow> re_search r None s)"

lemma pii_in_Cons: "pii_in (n # ns) s \<longleftrightarrow>
    (case map_of PII_PATTERNS n of None \<Rightarrow> False | Some r \<Rightarrow> re_search r None s) \<or> pii_in ns s"
  by (simp add: pii_in_def)

lemma redact_text_keeps:
  assumes r: "map_of PII_PATTERNS name = Some r" and "\<not> re_search r None s"
  shows "\<not> re_search r None (redact_text s names)"
  using assms(2)
proof (induction s names rule: redact_text.induct)
  case (2 s n ns)
  obtain b where b: "r = bounded_re b" "pii_body b" using PII_PATTERNS_shape [OF r] .
  show ?case
  proof (cases "map_of PII_PATTERNS n")
    case None
    then show ?thesis using 2 by simp
  next
    case (Some p)
    obtain b' where "p = bounded_re b'" "pii_body b'" using PII_PATTERNS_shape [OF Some] .
    then have "\<not> re_search r None (re_sub p REDACTED_PLACEHOLDER None s)"
      using re_sub_no_match [of b' b None s] b 2(3) by simp
    then show ?thesis using 2(2) [OF Some] Some by simp
  qed
qed simp

lemma redact_text_no_pii: "\<not> pii_in names (redact_text s names)"
proof (induction s names rule: redact_text.induct)
  case (2 s n ns)
  show ?case
  proof (cases "map_of PII_PATTERNS n")
    case None
    then show ?thesis using 2 by (simp add: pii_in_Cons)
  next
    case (Some p)
    obtain b where "p = bounded_re b" "pii_body b" using PII_PATTERNS_shape [OF Some] .
    then have "\<not> re_search p None (re_sub p REDACTED_PLACEHOLDER None s)"
      using re_sub_no_match [of b b None s] by simp
    from redact_text_keeps [OF Some this] 2(2) [OF Some] Some show ?thesis
      by (simp add: pii_in_Cons)
  qed
qed (simp add: pii_in_def)

lemma redact_text_id: "\<not> pii_in names s \<Longrightarrow> redact_text s names = s"
proof (induction s names rule: redact_text.induct)
  case (2 s n ns)
  then show ?case
    by (cases "map_of PII_PATTERNS n") (simp_all add: pii_in_Cons re_sub_id)
qed simp

interpretation rt: scrubber "\<lambda>s. redact_text s names" "\<lambda>s. \<not> pii_in names s" for names
  by standard (fact redact_text_no_pii redact_text_id)+

text \<open>The string leaves of a value: dictionary keys are not among them.\<close>

fun json_strings :: "json \<Rightarrow> string list" where
  "json_strings (JStr s) = [s]"
| "json_strings (JList xs) = concat (map json_strings xs)"
| "json_strings (JObj kvs) = concat (map (\<lambda>(k, v). json_strings v) kvs)"
| "json_strings j = []"

text \<open>A value with its string leaves blanked: what redaction must not change.\<close>

fun json_frame :: "json \<Rightarrow> json" where
  "json_frame (JStr s) = JStr []"
| "json_frame (JList xs) = JList (map json_frame xs)"
| "json_frame (JObj kvs) = JObj (map (\<lambda>(k, v). (k, json_frame v)) kvs)"
| "json_frame j = j"

lemma json_strings_redact:
  "json_strings (redact_json_value j names) = map (\<lambda>s. redact_text s names) (json_strings j)"
proof (induction j)
  case (JList xs)
  then show ?case by (auto simp: map_concat comp_def intro: arg_cong [where f = concat])
next
  case (JObj kvs)
  then show ?case
    by (force simp: map_concat comp_def case_prod_beta' intro!: arg_cong [where f = concat])
qed auto

lemma json_frame_redact: "json_frame (redact_json_value j names) = json_frame j"
proof (induction j)
  case (JObj kvs)
  then show ?case by (force simp: case_prod_beta')
qed auto

lemma redact_json_value_id:
  "\<forall>s \<in> set (json_strings j). \<not> pii_in names s \<Longrightarrow> redact_json_value j names = j"
proof (induction j)
  case (JList xs)
  then show ?case by (auto intro: map_idI)
next
  case (JObj kvs)
  then show ?case by (force intro: map_idI)
qed (auto simp: redact_text_id)

lemma redact_json_value_no_pii:
  "\<forall>s \<in> set (json_strings (redact_json_value j names)). \<not> pii_in names s"
  by (simp add: json_strings_redact redact_text_no_pii)

interpretation rj: shape_scrubber "\<lambda>j. redact_json_value j names"
  "\<lambda>j. \<forall>s \<in> set (json_strings j). \<not> pii_in names s" json_frame for names
  by standard (fact redact_json_value_no_pii redact_json_value_id json_frame_redact)+

end
