(* ===== verification/CustomPolicies.thy ===== *)
theory CustomPolicies
  imports PolicySchema AuditStore RedisIface Redaction
begin

text \<open>
  \<open>policies/custom.py\<close> and the pack hooks \<open>policies/packs/aml.py\<close> and
  \<open>policies/packs/demo.py\<close>: the contexts a custom policy gets, the two registries, and the
  three registered functions.
\<close>

section \<open>Contexts and registries\<close>

text \<open>
  \<open>session_factory\<close> is what a query through it sees: the audit rows, or the exception the
  database raises.
\<close>

record request_ctx =
  rc_session_id :: string
  rc_agent_id :: string
  rc_server :: string
  rc_tool :: string
  rc_arguments :: json
  rc_session_factory :: "audit_entry list res"

record response_ctx =
  pc_session_id :: string
  pc_server :: string
  pc_tool :: string
  pc_arguments :: json
  pc_response_payload :: json

type_synonym request_fn = "policy \<Rightarrow> request_ctx \<Rightarrow> string option res"

text \<open>A response-side function may write to Redis, so it passes the server's state on.\<close>

type_synonym 's response_fn = "policy \<Rightarrow> response_ctx \<Rightarrow> 's \<Rightarrow> string list res \<times> 's"

definition register_request_policy ::
    "string \<Rightarrow> request_fn \<Rightarrow> (string, request_fn) dict \<Rightarrow> (string, request_fn) dict res" where
  "register_request_policy name fn reg =
     (if name \<in> fst ` set reg
      then Inl (Exn ValueErr (''a request-side custom policy named '' @ py_repr name @
                              '' is already registered''))
      else Inr (dict_set name fn reg))"

definition register_response_policy ::
    "string \<Rightarrow> 's response_fn \<Rightarrow> (string, 's response_fn) dict \<Rightarrow> (string, 's response_fn) dict res"
where
  "register_response_policy name fn reg =
     (if name \<in> fst ` set reg
      then Inl (Exn ValueErr (''a response-side custom policy named '' @ py_repr name @
                              '' is already registered''))
      else Inr (dict_set name fn reg))"

section \<open>The AML pack\<close>

definition SANCTIONS_CHECK_TOOLS :: "string list" where
  "SANCTIONS_CHECK_TOOLS = [''check_entity'', ''check_alias'']"

definition FORCE_HITL_TTL_SECONDS :: int where
  "FORCE_HITL_TTL_SECONDS = 24 * 60 * 60"

definition sanctions_check_row :: "string \<Rightarrow> audit_entry \<Rightarrow> bool" where
  "sanctions_check_row agent e \<longleftrightarrow>
     ae_agent_id e = agent \<and> ae_server e = ''ofac-sanctions'' \<and>
     ae_tool e \<in> set SANCTIONS_CHECK_TOOLS \<and> ae_status e = ''COMPLETED''"

definition aml_sanctions_required :: request_fn where
  "aml_sanctions_required pol ctx =
     bind_res (rc_session_factory ctx) (\<lambda>rows.
       (case find (sanctions_check_row (rc_agent_id ctx)) rows of
          None \<Rightarrow> Inr (Some (''no prior OFAC sanctions check (check_entity/check_alias) found for '' @
                             ''this agent before a transaction-graph call''))
        | Some e \<Rightarrow> Inr None))"

text \<open>Truth value of a parsed JSON value.\<close>

fun truthy :: "json \<Rightarrow> bool" where
  "truthy JNull = False"
| "truthy (JBool b) = b"
| "truthy (JInt i) = (i \<noteq> 0)"
| "truthy (JFloat t) = (t \<notin> {''0.0'', ''-0.0''})"
| "truthy (JStr s) = (s \<noteq> [])"
| "truthy (JList xs) = (xs \<noteq> [])"
| "truthy (JObj kvs) = (kvs \<noteq> [])"

text \<open>\<open>isinstance(j, dict) and j.get(k)\<close> is true.\<close>

definition flag_set :: "json \<Rightarrow> string \<Rightarrow> bool" where
  "flag_set j k =
     (case j of
        JObj kvs \<Rightarrow> (case map_of kvs k of None \<Rightarrow> False | Some v \<Rightarrow> truthy v)
      | _ \<Rightarrow> False)"

definition force_hitl_key :: "string \<Rightarrow> string" where
  "force_hitl_key session = ''interpose:session:'' @ session @ '':force_hitl''"

text \<open>The log line after the flag is set reads \<open>ctx.arguments.get\<close>, which only a dict has.\<close>

definition aml_structuring_alert :: "'s redis \<Rightarrow> 's response_fn" where
  "aml_structuring_alert R pol ctx s =
     (if \<not> flag_set (pc_response_payload ctx) ''flagged'' then (Inr [], s)
      else case rd_exec R [SetEx (force_hitl_key (pc_session_id ctx)) ''aml_structuring_alert''
                                 FORCE_HITL_TTL_SECONDS] s of
             (Inl e, s') \<Rightarrow> (Inl e, s')
           | (Inr u, s') \<Rightarrow>
               (case pc_arguments ctx of
                  JObj kvs \<Rightarrow> (Inr [''incident:structuring'', ''severity:high''], s')
                | _ \<Rightarrow> (Inl (Exn AttributeErr (''object has no attribute '' @ py_repr ''get'')), s')))"

section \<open>The demo pack\<close>

text \<open>A literal matched under \<open>re.IGNORECASE\<close>, and alternatives of them.\<close>

fun lit :: "string \<Rightarrow> regex" where
  "lit [] = Empty"
| "lit (c # cs) = Seq (Cls (NoCase c)) (lit cs)"

definition INJECTION_MARKERS :: "regex list" where
  "INJECTION_MARKERS =
     [Seq (lit ''ignore '') (Seq (Alt (lit ''all'') (Alt (lit ''any'') (Alt (lit ''previous'') (lit ''prior''))))
        (lit '' instructions'')),
      Seq (lit ''disregard '') (Seq (Rep (lit ''the '') 0 1)
        (Alt (lit ''system prompt'') (lit ''previous instructions''))),
      Seq (lit ''new instructions'') (Seq (Many Space) (lit '':'')),
      Seq (lit ''you are now'') WordB]"

fun contains_injection_marker :: "json \<Rightarrow> bool" where
  "contains_injection_marker (JStr s) = list_ex (\<lambda>r. re_search r None s) INJECTION_MARKERS"
| "contains_injection_marker (JList xs) = list_ex contains_injection_marker xs"
| "contains_injection_marker (JObj kvs) = list_ex (\<lambda>(k, v). contains_injection_marker v) kvs"
| "contains_injection_marker j = False"

definition hello_echo_prompt_injection_scan :: "'s response_fn" where
  "hello_echo_prompt_injection_scan pol ctx s =
     (if \<not> contains_injection_marker (pc_response_payload ctx) then (Inr [], s)
      else (Inr [''prompt-injection-detected''], s))"

section \<open>The registries after the packs are imported\<close>

definition REQUEST_POLICIES :: "(string, request_fn) dict res" where
  "REQUEST_POLICIES = register_request_policy ''aml_sanctions_required'' aml_sanctions_required []"

definition RESPONSE_POLICIES :: "'s redis \<Rightarrow> (string, 's response_fn) dict res" where
  "RESPONSE_POLICIES R =
     bind_res (register_response_policy ''aml_structuring_alert'' (aml_structuring_alert R) [])
       (register_response_policy ''hello_echo_prompt_injection_scan'' hello_echo_prompt_injection_scan)"

lemma REQUEST_POLICIES_eq:
  "REQUEST_POLICIES = Inr [(''aml_sanctions_required'', aml_sanctions_required)]"
  by (simp add: REQUEST_POLICIES_def register_request_policy_def)

lemma RESPONSE_POLICIES_eq:
  "RESPONSE_POLICIES R =
     Inr [(''aml_structuring_alert'', aml_structuring_alert R),
          (''hello_echo_prompt_injection_scan'', hello_echo_prompt_injection_scan)]"
  by (simp add: RESPONSE_POLICIES_def register_response_policy_def)

lemma aml_sanctions_required_spec:
  "rc_session_factory ctx = Inr rows \<Longrightarrow>
     (aml_sanctions_required pol ctx = Inr None \<longleftrightarrow> (\<exists>e \<in> set rows. sanctions_check_row (rc_agent_id ctx) e))"
proof (cases "find (sanctions_check_row (rc_agent_id ctx)) rows")
  case None
  then show "rc_session_factory ctx = Inr rows \<Longrightarrow> ?thesis"
    using None by (simp add: aml_sanctions_required_def) (simp add: find_None_all)
next
  case (Some e)
  then show "rc_session_factory ctx = Inr rows \<Longrightarrow> ?thesis"
    using find_SomeD [OF Some] by (auto simp: aml_sanctions_required_def)
qed

lemma contains_injection_marker_strings:
  "contains_injection_marker j \<longleftrightarrow>
     (\<exists>s \<in> set (json_strings j). \<exists>r \<in> set INJECTION_MARKERS. re_search r None s)"
proof (induction j)
  case (JStr s)
  show ?case by (simp add: list_ex_iff)
next
  case (JList xs)
  then show ?case by (auto simp: list_ex_iff)
next
  case (JObj kvs)
  then show ?case by (force simp: list_ex_iff)
qed auto

end
