(* ===== verification/PolicySet.thy ===== *)
theory PolicySet
  imports CustomPolicies
begin

text \<open>
  \<open>policies/policyset.py\<close>: the rate limiter, request-side and response-side evaluation of
  the policies that apply to one server and tool, and the engine that compiles and caches
  them.
\<close>

section \<open>Decisions\<close>

datatype outcome = OPass | ODeny | OHold

fun outcome_value :: "outcome \<Rightarrow> string" where
  "outcome_value OPass = ''PASS''"
| "outcome_value ODeny = ''DENY''"
| "outcome_value OHold = ''HOLD''"

record policy_decision =
  pd_outcome :: outcome
  pd_fired_policy :: "string option"
  pd_reason :: "string option"
  pd_reviewer_group :: "string option"
  pd_timeout_seconds :: "int option"

definition pass_decision :: policy_decision where
  "pass_decision = \<lparr>pd_outcome = OPass, pd_fired_policy = None, pd_reason = None,
     pd_reviewer_group = None, pd_timeout_seconds = None\<rparr>"

definition decision :: "outcome \<Rightarrow> string option \<Rightarrow> string \<Rightarrow> policy_decision" where
  "decision oc fired why = \<lparr>pd_outcome = oc, pd_fired_policy = fired, pd_reason = Some why,
     pd_reviewer_group = None, pd_timeout_seconds = None\<rparr>"

section \<open>The rate limiter\<close>

text \<open>
  \<open>rl_reads\<close> counts the readings taken from the limiter's clock; \<open>clock n\<close> is the n-th
  reading.
\<close>

record limiter =
  rl_windows :: "(string \<times> string, int \<times> rat) dict"
  rl_reads :: nat

definition new_limiter :: limiter where
  "new_limiter = \<lparr>rl_windows = [], rl_reads = 0\<rparr>"

definition check_and_increment ::
    "(nat \<Rightarrow> rat) \<Rightarrow> string \<times> string \<Rightarrow> int \<Rightarrow> int \<Rightarrow> limiter \<Rightarrow> bool \<times> limiter" where
  "check_and_increment clock key limit window_seconds lm =
     (let now = clock (rl_reads lm);
          (count0, start0) = (case map_of (rl_windows lm) key of None \<Rightarrow> (0, now) | Some w \<Rightarrow> w);
          (count1, start1) = (if now - start0 \<ge> of_int window_seconds then (0, now) else (count0, start0));
          count = count1 + 1
      in (count \<le> limit,
          lm\<lparr>rl_windows := dict_set key (count, start1) (rl_windows lm),
              rl_reads := rl_reads lm + 1\<rparr>))"

section \<open>Policy sets\<close>

record policy_set =
  ps_policies :: "policy list"
  ps_server_has_allowlist :: bool

definition static_tags :: "policy_set \<Rightarrow> string list" where
  "static_tags ps = foldl (\<lambda>tags p. add_missing tags (am_tag (pol_audit p))) [] (ps_policies ps)"

fun is_allowlist :: "effect \<Rightarrow> bool" where
  "is_allowlist AllowlistEffect = True"
| "is_allowlist _ = False"

fun is_denylist :: "effect \<Rightarrow> bool" where
  "is_denylist (DenylistEffect r) = True"
| "is_denylist _ = False"

fun is_hitl_gate :: "effect \<Rightarrow> bool" where
  "is_hitl_gate (HitlGateEffect g t) = True"
| "is_hitl_gate _ = False"

fun is_cost_cap :: "effect \<Rightarrow> bool" where
  "is_cost_cap (CostCapEffect u r) = True"
| "is_cost_cap _ = False"

fun custom_at :: "policy_stage \<Rightarrow> effect \<Rightarrow> bool" where
  "custom_at st (CustomEffect n st' ps) = (st' = st)"
| "custom_at st _ = False"

text \<open>The rate-limit loop: the first policy over its limit denies.\<close>

fun rate_loop ::
    "(nat \<Rightarrow> rat) \<Rightarrow> string \<Rightarrow> policy list \<Rightarrow> limiter \<Rightarrow> policy_decision option \<times> limiter" where
  "rate_loop clock subject [] lm = (None, lm)"
| "rate_loop clock subject (p # ps) lm =
     (case pol_effect p of
        RateLimitEffect limit window \<Rightarrow>
          (case check_and_increment clock (pol_name p, subject) limit window lm of
             (ok, lm') \<Rightarrow>
               if \<not> ok then (Some (decision ODeny (Some (pol_name p)) ''rate_limit_exceeded''), lm')
               else rate_loop clock subject ps lm')
      | _ \<Rightarrow> rate_loop clock subject ps lm)"

text \<open>The request-side custom policies: the first reason given denies.\<close>

fun custom_loop ::
    "(string, request_fn) dict \<Rightarrow> request_ctx option \<Rightarrow> policy list \<Rightarrow> policy_decision option res" where
  "custom_loop reg ctx [] = Inr None"
| "custom_loop reg ctx (p # ps) =
     (case pol_effect p of
        CustomEffect name st params \<Rightarrow>
          if st \<noteq> RequestStage then custom_loop reg ctx ps
          else (case map_of reg name of
             None \<Rightarrow> Inl (Exn UnknownCustomPolicyErr (''policy '' @ py_repr (pol_name p) @
               '' references unknown request-side custom policy '' @ py_repr name))
           | Some fn \<Rightarrow>
               (case ctx of
                  None \<Rightarrow> Inl (Exn ValueErr (''policy '' @ py_repr (pol_name p) @
                    '' needs a RequestPolicyContext but none was provided''))
                | Some c \<Rightarrow>
                    bind_res (fn p c) (\<lambda>reason.
                      (case reason of
                         None \<Rightarrow> custom_loop reg ctx ps
                       | Some why \<Rightarrow> Inr (Some (decision ODeny (Some (pol_name p)) why))))))
      | _ \<Rightarrow> custom_loop reg ctx ps)"

fun hitl_loop :: "policy list \<Rightarrow> policy_decision option" where
  "hitl_loop [] = None"
| "hitl_loop (p # ps) =
     (case pol_effect p of
        HitlGateEffect grp timeout \<Rightarrow>
          Some \<lparr>pd_outcome = OHold, pd_fired_policy = Some (pol_name p),
                pd_reason = Some ''hitl_required'', pd_reviewer_group = Some grp,
                pd_timeout_seconds = Some timeout\<rparr>
      | _ \<Rightarrow> hitl_loop ps)"

definition cost_cap_text :: "policy \<Rightarrow> string" where
  "cost_cap_text p = ''cost_cap policies are not enforced yet (policy '' @ py_repr (pol_name p) @
     '') -- the gateway has no visibility into LLM token cost, only tool-call volume; '' @
     ''see schema.CostCapEffect's docstring''"

definition evaluate ::
    "(string, request_fn) dict \<Rightarrow> (nat \<Rightarrow> rat) \<Rightarrow> policy_set \<Rightarrow> string \<Rightarrow> request_ctx option \<Rightarrow>
     limiter \<Rightarrow> policy_decision res \<times> limiter" where
  "evaluate reg clock ps subject ctx lm =
     (case find (\<lambda>p. is_allowlist (pol_effect p)) (ps_policies ps) of
        Some p \<Rightarrow> (Inr (decision OPass (Some (pol_name p)) ''allowlisted''), lm)
      | None \<Rightarrow>
        if ps_server_has_allowlist ps
        then (Inr (decision ODeny None ''not_on_allowlist''), lm)
        else
        (case find (\<lambda>p. is_denylist (pol_effect p)) (ps_policies ps) of
           Some p \<Rightarrow> (Inr (decision ODeny (Some (pol_name p)) (deny_reason (pol_effect p))), lm)
         | None \<Rightarrow>
           (case rate_loop clock subject (ps_policies ps) lm of
              (Some d, lm') \<Rightarrow> (Inr d, lm')
            | (None, lm') \<Rightarrow>
                (case custom_loop reg ctx (ps_policies ps) of
                   Inl e \<Rightarrow> (Inl e, lm')
                 | Inr (Some d) \<Rightarrow> (Inr d, lm')
                 | Inr None \<Rightarrow>
                     (case hitl_loop (ps_policies ps) of
                        Some d \<Rightarrow> (Inr d, lm')
                      | None \<Rightarrow>
                          (case find (\<lambda>p. is_cost_cap (pol_effect p)) (ps_policies ps) of
                             Some p \<Rightarrow> (Inl (Exn NotImplementedErr (cost_cap_text p)), lm')
                           | None \<Rightarrow> (Inr pass_decision, lm')))))))"

section \<open>Response-side evaluation\<close>

fun pii_pattern_names :: "policy list \<Rightarrow> string list" where
  "pii_pattern_names [] = []"
| "pii_pattern_names (p # ps) =
     (case pol_effect p of
        PiiRedactionEffect pats \<Rightarrow> pats @ pii_pattern_names ps
      | _ \<Rightarrow> pii_pattern_names ps)"

fun response_loop ::
    "(string, 's response_fn) dict \<Rightarrow> response_ctx \<Rightarrow> policy list \<Rightarrow> 's \<Rightarrow> string list res \<times> 's" where
  "response_loop reg ctx [] s = (Inr [], s)"
| "response_loop reg ctx (p # ps) s =
     (case pol_effect p of
        CustomEffect name st params \<Rightarrow>
          if st \<noteq> ResponseStage then response_loop reg ctx ps s
          else (case map_of reg name of
             None \<Rightarrow> (Inl (Exn UnknownCustomPolicyErr (''policy '' @ py_repr (pol_name p) @
               '' references unknown response-side custom policy '' @ py_repr name)), s)
           | Some fn \<Rightarrow>
               (case fn p ctx s of
                  (Inl e, s') \<Rightarrow> (Inl e, s')
                | (Inr tags, s') \<Rightarrow>
                    (case response_loop reg ctx ps s' of
                       (Inl e, s'') \<Rightarrow> (Inl e, s'')
                     | (Inr tags', s'') \<Rightarrow> (Inr (tags @ tags'), s''))))
      | _ \<Rightarrow> response_loop reg ctx ps s)"

record evaluation_result =
  er_payload :: json
  er_tags :: "string list"

definition evaluate_response ::
    "(string, 's response_fn) dict \<Rightarrow> policy_set \<Rightarrow> json \<Rightarrow> response_ctx \<Rightarrow> 's \<Rightarrow>
     evaluation_result res \<times> 's" where
  "evaluate_response reg ps payload ctx s =
     (let names = pii_pattern_names (ps_policies ps);
          payload' = (if names \<noteq> [] then redact_json_value payload names else payload)
      in case response_loop reg ctx (ps_policies ps) s of
           (Inl e, s') \<Rightarrow> (Inl e, s')
         | (Inr tags, s') \<Rightarrow> (Inr \<lparr>er_payload = payload', er_tags = tags\<rparr>, s'))"

fun is_pii_redaction :: "effect \<Rightarrow> bool" where
  "is_pii_redaction (PiiRedactionEffect pats) = True"
| "is_pii_redaction _ = False"

definition has_response_side_policies :: "policy_set \<Rightarrow> bool" where
  "has_response_side_policies ps \<longleftrightarrow>
     list_ex (\<lambda>p. is_pii_redaction (pol_effect p) \<or> custom_at ResponseStage (pol_effect p)) (ps_policies ps)"

section \<open>The engine\<close>

record policy_engine =
  pe_policies :: "policy list"
  pe_flags :: "(string, bool) dict"
  pe_cache :: "(string \<times> string, policy_set) dict"

definition compute_server_allowlist_flags :: "policy list \<Rightarrow> (string, bool) dict" where
  "compute_server_allowlist_flags policies =
     foldl (\<lambda>flags p. if is_allowlist (pol_effect p)
                      then dict_set (at_server (pol_applies p)) True flags else flags) [] policies"

definition new_engine :: "policy list \<Rightarrow> policy_engine" where
  "new_engine policies = \<lparr>pe_policies = policies,
     pe_flags = compute_server_allowlist_flags policies, pe_cache = []\<rparr>"

text \<open>A cache miss: the applicable policies, stably sorted by effect, and the server's flag.\<close>

definition compile_fresh :: "policy list \<Rightarrow> (string, bool) dict \<Rightarrow> string \<Rightarrow> string \<Rightarrow> policy_set" where
  "compile_fresh policies flags srv tool =
     \<lparr>ps_policies = sort_key (\<lambda>p. effect_rank (pol_effect p))
        (filter (\<lambda>p. applies_matches (pol_applies p) srv tool) policies),
      ps_server_has_allowlist = (case map_of flags srv of None \<Rightarrow> False | Some b \<Rightarrow> b)\<rparr>"

definition compile :: "policy_engine \<Rightarrow> string \<Rightarrow> string \<Rightarrow> policy_set \<times> policy_engine" where
  "compile pe srv tool =
     (case map_of (pe_cache pe) (srv, tool) of
        Some ps \<Rightarrow> (ps, pe)
      | None \<Rightarrow>
          (let ps = compile_fresh (pe_policies pe) (pe_flags pe) srv tool
           in (ps, pe\<lparr>pe_cache := dict_set (srv, tool) ps (pe_cache pe)\<rparr>)))"

end
