(* ===== verification/HitlQueue.thy ===== *)
theory HitlQueue
  imports RedisIface PyJsonProps Complex_Main
begin

text \<open>
  \<open>session/hitl.py\<close>: the queue of held calls. A ticket is stored as a Redis hash of
  strings. Floats are their \<open>repr\<close>; \<open>fl\<close> is Python's \<open>float\<close> on a text, giving the
  \<open>repr\<close> of the result, and \<open>fr\<close> the same for the floats inside JSON.
\<close>

definition PENDING_SET_KEY :: string where
  "PENDING_SET_KEY = ''interpose:hitl:pending''"

definition TICKET_TTL_GRACE_SECONDS :: int where
  "TICKET_TTL_GRACE_SECONDS = 300"

definition ticket_key :: "string \<Rightarrow> string" where
  "ticket_key ticket_id = ''interpose:hitl:'' @ ticket_id"

record hitl_ticket =
  tk_ticket_id :: string
  tk_server :: string
  tk_tool :: string
  tk_arguments :: json
  tk_agent_id :: string
  tk_session_id :: string
  tk_trace_id :: string
  tk_audit_entry_id :: int
  tk_reviewer_group :: string
  tk_timeout_seconds :: int
  tk_status :: string
  tk_created_at :: string
  tk_decided_by :: "string option"
  tk_decided_at :: "string option"
  tk_rationale :: "string option"

text \<open>\<open>x or ""\<close> and \<open>x or None\<close> on an optional string.\<close>

definition or_empty :: "string option \<Rightarrow> string" where
  "or_empty x = (case x of None \<Rightarrow> [] | Some s \<Rightarrow> s)"

definition or_none :: "string \<Rightarrow> string option" where
  "or_none s = (if s = [] then None else Some s)"

definition to_redis :: "hitl_ticket \<Rightarrow> (string, string) dict" where
  "to_redis t =
     [(''ticket_id'', tk_ticket_id t),
      (''server'', tk_server t),
      (''tool'', tk_tool t),
      (''arguments'', json_dumps (tk_arguments t)),
      (''agent_id'', tk_agent_id t),
      (''session_id'', tk_session_id t),
      (''trace_id'', tk_trace_id t),
      (''audit_entry_id'', show_int (tk_audit_entry_id t)),
      (''reviewer_group'', tk_reviewer_group t),
      (''timeout_seconds'', show_int (tk_timeout_seconds t)),
      (''status'', tk_status t),
      (''created_at'', tk_created_at t),
      (''decided_by'', or_empty (tk_decided_by t)),
      (''decided_at'', or_empty (tk_decided_at t)),
      (''rationale'', or_empty (tk_rationale t))]"

definition get_field :: "(string, string) dict \<Rightarrow> string \<Rightarrow> string res" where
  "get_field data k = (case map_of data k of None \<Rightarrow> Inl (Exn KeyErr (py_repr k)) | Some v \<Rightarrow> Inr v)"

definition loads_res :: "(string \<Rightarrow> string) \<Rightarrow> string \<Rightarrow> json res" where
  "loads_res fr s =
     (case json_loads fr s of None \<Rightarrow> Inl (Exn ValueErr ''JSONDecodeError'') | Some j \<Rightarrow> Inr j)"

definition from_redis ::
    "(string \<Rightarrow> string res) \<Rightarrow> (string \<Rightarrow> string) \<Rightarrow> (string, string) dict \<Rightarrow> hitl_ticket res" where
  "from_redis fl fr data =
     bind_res (get_field data ''ticket_id'') (\<lambda>ticket_id.
     bind_res (get_field data ''server'') (\<lambda>srv.
     bind_res (get_field data ''tool'') (\<lambda>tool.
     bind_res (bind_res (get_field data ''arguments'') (loads_res fr)) (\<lambda>arguments.
     bind_res (get_field data ''agent_id'') (\<lambda>agent_id.
     bind_res (get_field data ''session_id'') (\<lambda>session_id.
     bind_res (get_field data ''trace_id'') (\<lambda>trace_id.
     bind_res (bind_res (get_field data ''audit_entry_id'') py_int) (\<lambda>audit_entry_id.
     bind_res (get_field data ''reviewer_group'') (\<lambda>reviewer_group.
     bind_res (bind_res (get_field data ''timeout_seconds'') py_int) (\<lambda>timeout_seconds.
     bind_res (get_field data ''status'') (\<lambda>status.
     bind_res (bind_res (get_field data ''created_at'') fl) (\<lambda>created_at.
     bind_res (get_field data ''decided_by'') (\<lambda>decided_by.
     bind_res (bind_res (get_field data ''decided_at'')
       (\<lambda>d. if d = [] then Inr None else bind_res (fl d) (\<lambda>x. Inr (Some x)))) (\<lambda>decided_at.
     bind_res (get_field data ''rationale'') (\<lambda>rationale.
       Inr \<lparr>tk_ticket_id = ticket_id, tk_server = srv, tk_tool = tool, tk_arguments = arguments,
            tk_agent_id = agent_id, tk_session_id = session_id, tk_trace_id = trace_id,
            tk_audit_entry_id = audit_entry_id, tk_reviewer_group = reviewer_group,
            tk_timeout_seconds = timeout_seconds, tk_status = status, tk_created_at = created_at,
            tk_decided_by = or_none decided_by, tk_decided_at = decided_at,
            tk_rationale = or_none rationale\<rparr>)))))))))))))))"

section \<open>Gateway side\<close>

text \<open>\<open>uid\<close> is the fresh UUID and \<open>now\<close> the reading of \<open>time.time()\<close>.\<close>

definition new_ticket ::
    "string \<Rightarrow> string \<Rightarrow> string \<Rightarrow> string \<Rightarrow> json \<Rightarrow> string \<Rightarrow> string \<Rightarrow> string \<Rightarrow> int \<Rightarrow> string \<Rightarrow> int \<Rightarrow>
     hitl_ticket" where
  "new_ticket uid now srv tool arguments agent_id session_id trace_id audit_entry_id reviewer_group
       timeout_seconds =
     \<lparr>tk_ticket_id = uid, tk_server = srv, tk_tool = tool, tk_arguments = arguments,
      tk_agent_id = agent_id, tk_session_id = session_id, tk_trace_id = trace_id,
      tk_audit_entry_id = audit_entry_id, tk_reviewer_group = reviewer_group,
      tk_timeout_seconds = timeout_seconds, tk_status = ''PENDING'', tk_created_at = now,
      tk_decided_by = None, tk_decided_at = None, tk_rationale = None\<rparr>"

definition create_ticket :: "'s redis \<Rightarrow> hitl_ticket \<Rightarrow> 's \<Rightarrow> hitl_ticket res \<times> 's" where
  "create_ticket R ticket s =
     (let key = ticket_key (tk_ticket_id ticket)
      in case rd_exec R [HSet key (to_redis ticket),
                         Expire key (tk_timeout_seconds ticket + TICKET_TTL_GRACE_SECONDS),
                         SAdd PENDING_SET_KEY (tk_ticket_id ticket)] s of
           (Inl e, s') \<Rightarrow> (Inl e, s')
         | (Inr u, s') \<Rightarrow> (Inr ticket, s'))"

definition get_ticket ::
    "'s redis \<Rightarrow> (string \<Rightarrow> string res) \<Rightarrow> (string \<Rightarrow> string) \<Rightarrow> string \<Rightarrow> 's \<Rightarrow> hitl_ticket option res"
where
  "get_ticket R fl fr ticket_id s =
     bind_res (rd_hgetall R (ticket_key ticket_id) s) (\<lambda>data.
       if data = [] then Inr None
       else bind_res (from_redis fl fr data) (\<lambda>t. Inr (Some t)))"

text \<open>
  The polling loop. \<open>seen n\<close> is the server's state at the n-th poll and \<open>clock\<close> gives the
  readings of \<open>time.monotonic\<close>: the first one fixes the deadline, the next one is taken after
  each poll that found the ticket pending. With no fuel left the loop is still polling.
\<close>

fun wait_loop ::
    "('s \<Rightarrow> hitl_ticket option res) \<Rightarrow> (nat \<Rightarrow> 's) \<Rightarrow> (nat \<Rightarrow> rat) \<Rightarrow> rat \<Rightarrow> nat \<Rightarrow> nat \<Rightarrow>
     hitl_ticket option res option" where
  "wait_loop get seen clock deadline 0 n = None"
| "wait_loop get seen clock deadline (Suc fuel) n =
     (case get (seen n) of
        Inl e \<Rightarrow> Some (Inl e)
      | Inr None \<Rightarrow> Some (Inr None)
      | Inr (Some ticket) \<Rightarrow>
          if tk_status ticket \<noteq> ''PENDING'' then Some (Inr (Some ticket))
          else (let remaining = deadline - clock (Suc n)
                in if remaining \<le> 0 then Some (Inr (Some ticket))
                   else wait_loop get seen clock deadline fuel (Suc n)))"

definition wait_for_decision ::
    "'s redis \<Rightarrow> (string \<Rightarrow> string res) \<Rightarrow> (string \<Rightarrow> string) \<Rightarrow> (nat \<Rightarrow> 's) \<Rightarrow> (nat \<Rightarrow> rat) \<Rightarrow> nat \<Rightarrow>
     string \<Rightarrow> int \<Rightarrow> hitl_ticket option res option" where
  "wait_for_decision R fl fr seen clock fuel ticket_id timeout_seconds =
     (let deadline = clock 0 + of_int timeout_seconds
      in wait_loop (get_ticket R fl fr ticket_id) seen clock deadline fuel 0)"

section \<open>Reviewer side\<close>

fun list_pending_loop ::
    "'s redis \<Rightarrow> (string \<Rightarrow> string res) \<Rightarrow> (string \<Rightarrow> string) \<Rightarrow> string list \<Rightarrow> 's \<Rightarrow>
     hitl_ticket list res \<times> 's" where
  "list_pending_loop R fl fr [] s = (Inr [], s)"
| "list_pending_loop R fl fr (i # ids) s =
     (case rd_hgetall R (ticket_key i) s of
        Inl e \<Rightarrow> (Inl e, s)
      | Inr data \<Rightarrow>
          if data = [] then
            (case rd_exec R [SRem PENDING_SET_KEY i] s of
               (Inl e, s') \<Rightarrow> (Inl e, s')
             | (Inr u, s') \<Rightarrow> list_pending_loop R fl fr ids s')
          else
            (case from_redis fl fr data of
               Inl e \<Rightarrow> (Inl e, s)
             | Inr t \<Rightarrow>
                 (case list_pending_loop R fl fr ids s of
                    (Inl e, s') \<Rightarrow> (Inl e, s')
                  | (Inr ts, s') \<Rightarrow> (Inr (t # ts), s'))))"

definition list_pending ::
    "'s redis \<Rightarrow> (string \<Rightarrow> string res) \<Rightarrow> (string \<Rightarrow> string) \<Rightarrow> 's \<Rightarrow> hitl_ticket list res \<times> 's" where
  "list_pending R fl fr s =
     (case rd_smembers R PENDING_SET_KEY s of
        Inl e \<Rightarrow> (Inl e, s)
      | Inr ids \<Rightarrow> list_pending_loop R fl fr ids s)"

text \<open>
  \<open>decide_ticket\<close> reads the ticket and later writes it back; other clients may act in
  between, so the two halves are separate.
\<close>

datatype decide_plan = NoTicket | Settled hitl_ticket | Decide hitl_ticket

definition decide_read ::
    "'s redis \<Rightarrow> (string \<Rightarrow> string res) \<Rightarrow> (string \<Rightarrow> string) \<Rightarrow> string \<Rightarrow> string \<Rightarrow> string \<Rightarrow> string \<Rightarrow>
     string \<Rightarrow> 's \<Rightarrow> decide_plan res" where
  "decide_read R fl fr now ticket_id status decided_by rationale s =
     bind_res (rd_hgetall R (ticket_key ticket_id) s) (\<lambda>data.
       if data = [] then Inr NoTicket
       else bind_res (from_redis fl fr data) (\<lambda>t.
         if tk_status t \<noteq> ''PENDING'' then Inr (Settled t)
         else Inr (Decide (t\<lparr>tk_status := status, tk_decided_by := Some decided_by,
                             tk_decided_at := Some now, tk_rationale := Some rationale\<rparr>))))"

definition decide_write :: "'s redis \<Rightarrow> string \<Rightarrow> hitl_ticket \<Rightarrow> 's \<Rightarrow> unit res \<times> 's" where
  "decide_write R ticket_id t s =
     (case rd_exec R [HSet (ticket_key ticket_id) (to_redis t)] s of
        (Inl e, s') \<Rightarrow> (Inl e, s')
      | (Inr u, s') \<Rightarrow> rd_exec R [SRem PENDING_SET_KEY ticket_id] s')"

definition decide_ticket ::
    "'s redis \<Rightarrow> (string \<Rightarrow> string res) \<Rightarrow> (string \<Rightarrow> string) \<Rightarrow> string \<Rightarrow> string \<Rightarrow> string \<Rightarrow> string \<Rightarrow>
     string \<Rightarrow> 's \<Rightarrow> (hitl_ticket \<times> bool) option res \<times> 's" where
  "decide_ticket R fl fr now ticket_id status decided_by rationale s =
     (case decide_read R fl fr now ticket_id status decided_by rationale s of
        Inl e \<Rightarrow> (Inl e, s)
      | Inr NoTicket \<Rightarrow> (Inr None, s)
      | Inr (Settled t) \<Rightarrow> (Inr (Some (t, False)), s)
      | Inr (Decide t) \<Rightarrow>
          (case decide_write R ticket_id t s of
             (Inl e, s') \<Rightarrow> (Inl e, s')
           | (Inr u, s') \<Rightarrow> (Inr (Some (t, True)), s')))"

end
