(* ===== verification/McpBody.thy ===== *)
theory McpBody
  imports PyJsonProps Sha256 Interfaces
begin

text \<open>
  The body framing of \<open>gateway/app.py\<close>: \<open>_decode_mcp_body\<close> and \<open>_encode_mcp_body\<close>. Bytes are
  characters used as octets.
\<close>

type_synonym bytes = string

definition encode_utf8 :: "string \<Rightarrow> bytes" where
  "encode_utf8 s = map char_of (utf8_encode s)"

definition decode_utf8 :: "bytes \<Rightarrow> string res" where
  "decode_utf8 b =
     (case utf8_decode (map ord b) of
        None \<Rightarrow> Inl (Exn ValueErr ''UnicodeDecodeError'')
      | Some s \<Rightarrow> Inr s)"

definition loads_text :: "(string \<Rightarrow> string) \<Rightarrow> string \<Rightarrow> json res" where
  "loads_text fr s =
     (case json_loads fr s of None \<Rightarrow> Inl (Exn ValueErr ''JSONDecodeError'') | Some j \<Rightarrow> Inr j)"

text \<open>\<open>needle in haystack\<close>\<close>

fun substring :: "string \<Rightarrow> string \<Rightarrow> bool" where
  "substring p [] = (p = [])"
| "substring p (c # s) = (take (length p) (c # s) = p \<or> substring p s)"

text \<open>\<open>str.splitlines()\<close> below code point 256.\<close>

definition is_line_break :: "char \<Rightarrow> bool" where
  "is_line_break c \<longleftrightarrow> ord c \<in> {10, 11, 12, 13, 28, 29, 30, 133}"

fun splitlines_from :: "string \<Rightarrow> string \<Rightarrow> string list" where
  "splitlines_from cur [] = (if cur = [] then [] else [rev cur])"
| "splitlines_from cur (c # s) =
     (if is_line_break c then
        rev cur # splitlines_from [] (if ord c = 13 \<and> s \<noteq> [] \<and> ord (hd s) = 10 then tl s else s)
      else splitlines_from (c # cur) s)"

definition splitlines :: "string \<Rightarrow> string list" where
  "splitlines s = splitlines_from [] s"

definition lstrip :: "string \<Rightarrow> string" where
  "lstrip s = dropWhile is_space s"

definition SSE :: string where
  "SSE = ''text/event-stream''"

definition sse_data_lines :: "string \<Rightarrow> string list" where
  "sse_data_lines txt =
     map (\<lambda>l. lstrip (drop (length ''data:'') l))
       (filter (\<lambda>l. take (length ''data:'') l = ''data:'') (splitlines txt))"

definition newline :: char where
  "newline = char_of (10::nat)"

definition decode_mcp_body :: "(string \<Rightarrow> string) \<Rightarrow> bytes \<Rightarrow> string \<Rightarrow> json res" where
  "decode_mcp_body fr raw_body content_type =
     bind_res (decode_utf8 raw_body) (\<lambda>txt.
       if \<not> substring SSE content_type then loads_text fr txt
       else (let data_lines = sse_data_lines txt
             in if data_lines = []
                then Inl (Exn ValueErr (''no SSE 'data:' field found in response body: '' @ py_repr txt))
                else loads_text fr (join [newline] data_lines)))"

definition encode_mcp_body :: "json \<Rightarrow> string \<Rightarrow> bytes" where
  "encode_mcp_body payload content_type =
     (let body = json_dumps payload
      in if \<not> substring SSE content_type then encode_utf8 body
         else encode_utf8 (''event: message'' @ [newline] @ ''data: '' @ body @ [newline, newline]))"

section \<open>Printed JSON is plain ASCII\<close>

definition plain :: "char \<Rightarrow> bool" where
  "plain c \<longleftrightarrow> 32 \<le> ord c \<and> ord c \<le> 126"

lemma plain_simps: "plain c \<Longrightarrow> \<not> is_line_break c"
  by (auto simp: plain_def is_line_break_def)

lemma plain_digit: "is_digit c \<Longrightarrow> plain c"
  by (simp add: plain_def is_digit_def)

lemma plain_esc: "\<forall>c \<in> set (esc_char d). plain c"
proof -
  have hex: "plain (hex_char k)" if "k < 16" for k
    using that by (auto simp: plain_def hex_char_def ord_char_of)
  have d: "ord d div 16 < 16"
  proof -
    have "ord d < 256" by simp
    then show ?thesis by linarith
  qed
  have "32 \<le> ord d \<and> ord d \<le> 126 \<Longrightarrow> plain d" by (simp add: plain_def)
  moreover have "plain (char_of (92::nat))" "plain (char_of (34::nat))" "plain (CHR ''n'')" "plain (CHR ''r'')"
    "plain (CHR ''t'')" "plain (CHR ''f'')" "plain (CHR ''b'')" "plain (CHR ''u'')" "plain (CHR ''0'')"
    by (simp_all add: plain_def)
  ultimately show ?thesis
    using hex d by (simp add: esc_char_def Let_def)
qed

lemma plain_lex:
  "lex_digits s = Some (t, r) \<Longrightarrow> \<forall>c \<in> set t. plain c"
  "lex_uint s = Some (t, r) \<Longrightarrow> \<forall>c \<in> set t. plain c"
  "lex_int s = Some (t, r) \<Longrightarrow> \<forall>c \<in> set t. plain c"
  "lex_signed s = Some (t, r) \<Longrightarrow> \<forall>c \<in> set t. plain c"
proof -
  have d: "\<forall>c \<in> set t. plain c" if "lex_digits s = Some (t, r)" for s t r
    using that by (auto simp: lex_digits_def plain_digit dest: set_takeWhileD split: if_splits)
  have u: "\<forall>c \<in> set t. plain c" if "lex_uint s = Some (t, r)" for s t r
    using that d by (auto simp: lex_uint_def plain_def split: list.splits if_splits)
  have m: "plain (CHR ''-'')" "plain (CHR ''+'')" by (simp_all add: plain_def)
  show "lex_digits s = Some (t, r) \<Longrightarrow> \<forall>c \<in> set t. plain c" by (rule d)
  show "lex_uint s = Some (t, r) \<Longrightarrow> \<forall>c \<in> set t. plain c" by (rule u)
  show "lex_int s = Some (t, r) \<Longrightarrow> \<forall>c \<in> set t. plain c"
    using u m by (auto simp: lex_int_def split: list.splits if_splits)
  show "lex_signed s = Some (t, r) \<Longrightarrow> \<forall>c \<in> set t. plain c"
    using d m by (auto simp: lex_signed_def split: list.splits if_splits)
qed

lemma plain_number:
  assumes "lex_number s = Some (t, b, r)"
  shows "\<forall>c \<in> set t. plain c"
proof -
  from assms obtain i s1 where i: "lex_int s = Some (i, s1)"
    by (auto simp: lex_number_def split: option.splits)
  obtain f s2 where f: "lex_frac s1 = (f, s2)" by fastforce
  obtain e s3 where e: "lex_exp s2 = (e, s3)" by fastforce
  have "t = i @ f @ e" using assms i f e by (simp add: lex_number_def)
  moreover have "\<forall>c \<in> set f. plain c"
  proof -
    have "plain (CHR ''.'')" by (simp add: plain_def)
    then show ?thesis using f plain_lex(1)
      by (auto simp: lex_frac_def split: list.splits if_splits option.splits)
  qed
  moreover have "\<forall>c \<in> set e. plain c"
  proof -
    have "plain (CHR ''e'')" "plain (CHR ''E'')" by (simp_all add: plain_def)
    then show ?thesis using e plain_lex(4)
      by (auto simp: lex_exp_def split: list.splits if_splits option.splits)
  qed
  ultimately show ?thesis using plain_lex(3) [OF i] by auto
qed

lemma plain_show_int: "\<forall>c \<in> set (show_int i). plain c"
  using show_nat_digits by (auto simp: show_int_def plain_digit) (simp add: plain_def)

lemma plain_float: "float_text fr t \<Longrightarrow> \<forall>c \<in> set t. plain c"
  by (auto simp: float_text_def plain_def dest: plain_number [unfolded plain_def])

lemma plain_esc_string: "\<forall>c \<in> set (esc_string s). plain c"
  using plain_esc by (auto simp: esc_string_def) (simp_all add: plain_def)

lemma set_join: "set (join sep xs) \<subseteq> set sep \<union> (\<Union>x \<in> set xs. set x)"
  by (induction sep xs rule: join.induct) auto

lemma plain_dumps:
  "wf_json fr j \<Longrightarrow> \<forall>c \<in> set isep \<union> set ksep. plain c \<Longrightarrow> \<forall>c \<in> set (dumps isep ksep j). plain c"
proof (induction j)
  case (JList xs)
  have "\<forall>c \<in> set (join isep (map (dumps isep ksep) xs)). plain c"
    using JList set_join [of isep "map (dumps isep ksep) xs"] by fastforce
  then show ?case by (auto simp: plain_def)
next
  case (JObj kvs)
  have "\<forall>c \<in> set (member_text ksep (dumps isep ksep) p). plain c" if "p \<in> set kvs" for p
    using JObj that plain_esc_string [of "fst p"] by (cases p) (fastforce simp: member_text_def)
  then have "\<forall>c \<in> set (join isep (map (member_text ksep (dumps isep ksep)) kvs)). plain c"
    using JObj.prems(2) set_join [of isep "map (member_text ksep (dumps isep ksep)) kvs"] by fastforce
  then show ?case unfolding dumps_JObj by (auto simp: plain_def)
next
  case (JFloat t)
  then show ?case by (simp add: plain_float)
qed (auto simp: plain_show_int plain_esc_string, auto simp: plain_def)

lemma plain_json_dumps: "wf_json fr j \<Longrightarrow> \<forall>c \<in> set (json_dumps j). plain c"
  unfolding json_dumps_def by (rule plain_dumps) (auto simp: plain_def)

section \<open>Framing round trip\<close>

lemma decode_encode_utf8 [simp]: "decode_utf8 (encode_utf8 s) = Inr s"
proof -
  have "map ord (encode_utf8 s) = utf8_encode s"
  proof -
    have "n < 256" if "n \<in> set (utf8_encode s)" for n
    proof -
      from that obtain c where "n \<in> set (utf8_char c)" by (auto simp: utf8_encode_def)
      moreover have "ord c < 256" by simp
      moreover from this have "ord c div 64 < 4" by linarith
      moreover have "ord c mod 64 < 64" by simp
      ultimately show ?thesis by (auto simp: utf8_char_def Let_def split: if_splits)
    qed
    then show ?thesis by (simp add: encode_utf8_def ord_char_of map_idI)
  qed
  then show ?thesis by (simp add: decode_utf8_def)
qed

lemma splitlines_line:
  "\<forall>c \<in> set u. \<not> is_line_break c \<Longrightarrow>
     splitlines_from cur (u @ newline # s) = (rev cur @ u) # splitlines_from [] s"
  by (induction u arbitrary: cur) (auto simp: newline_def is_line_break_def)

lemma sse_lines:
  assumes "\<forall>c \<in> set body. plain c"
  shows "splitlines (''event: message'' @ [newline] @ ''data: '' @ body @ [newline, newline]) =
    [''event: message'', ''data: '' @ body, []]"
proof -
  have ev: "\<forall>c \<in> set ''event: message''. \<not> is_line_break c"
    by (simp add: is_line_break_def)
  have da: "\<forall>c \<in> set (''data: '' @ body). \<not> is_line_break c"
    using assms plain_simps by (auto simp: is_line_break_def)
  have "splitlines (''event: message'' @ newline # (''data: '' @ body) @ newline # [newline]) =
      [''event: message'', ''data: '' @ body, []]"
    unfolding splitlines_def splitlines_line [OF ev] splitlines_line [OF da]
    by (simp add: newline_def is_line_break_def)
  then show ?thesis by simp
qed

lemma decode_encode_mcp_body:
  assumes "wf_json fr j"
  shows "decode_mcp_body fr (encode_mcp_body j ct) ct = Inr j"
proof -
  let ?b = "json_dumps j"
  have loads: "loads_text fr ?b = Inr j"
    using json_loads_json_dumps [OF assms] by (simp add: loads_text_def)
  show ?thesis
  proof (cases "substring SSE ct")
    case False
    then show ?thesis using loads by (simp add: decode_mcp_body_def encode_mcp_body_def)
  next
    case True
    have st: "starts_value ?b" unfolding json_dumps_def by (rule starts_value_dumps [OF assms])
    then obtain c t where b: "?b = c # t" and ws: "\<not> json_ws c" by (cases ?b) (auto simp: starts_value_def)
    have "plain c" using plain_json_dumps [OF assms] b by simp
    then have "\<not> is_space c" using ws by (auto simp: plain_def is_space_def json_ws_def Let_def)
    then have strip: "lstrip (CHR '' '' # ?b) = ?b" using b by (simp add: lstrip_def is_space_def)
    have "sse_data_lines (''event: message'' @ [newline] @ ''data: '' @ ?b @ [newline, newline]) = [?b]"
      unfolding sse_data_lines_def sse_lines [OF plain_json_dumps [OF assms]]
      using strip by simp
    then show ?thesis using True loads by (simp add: decode_mcp_body_def encode_mcp_body_def Let_def)
  qed
qed

interpretation mb: exact_codec "\<lambda>j. encode_mcp_body j ct" "\<lambda>b. decode_mcp_body fr b ct" Inr "wf_json fr" for fr ct
  by standard (simp_all add: decode_encode_mcp_body)

text \<open>
  \<open>str.splitlines\<close> also breaks at characters that do not end an SSE line, such as U+0085,
  which JSON allows unescaped inside a string.
\<close>

definition nel_json :: string where
  "nel_json = [CHR ''['', quote, char_of (133::nat), quote, CHR '']'']"

lemma nel_json_parses: "loads_text fr nel_json = Inr (JList [JStr [char_of (133::nat)]])"
  by (simp add: loads_text_def json_loads_def nel_json_def json_ws_def ord_char_of)

lemma nel_sse_refused:
  "decode_mcp_body fr (encode_utf8 (''data: '' @ nel_json @ [newline, newline])) SSE =
     Inl (Exn ValueErr ''JSONDecodeError'')"
proof -
  have sub: "substring SSE SSE" by (simp add: SSE_def)
  have "sse_data_lines (''data: '' @ nel_json @ [newline, newline]) = [[CHR ''['', quote]]"
    by (simp add: sse_data_lines_def splitlines_def nel_json_def newline_def is_line_break_def
        ord_char_of lstrip_def is_space_def)
  moreover have "loads_text fr [CHR ''['', quote] = Inl (Exn ValueErr ''JSONDecodeError'')"
    by (simp add: loads_text_def json_loads_def json_ws_def)
  ultimately show ?thesis by (simp add: decode_mcp_body_def sub del: substring.simps)
qed

end
