(* ===== verification/GatewayBase.thy ===== *)
theory GatewayBase
  imports PolicySet HitlQueue McpBody
begin

text \<open>
  The state a tool call runs in and the primitive actions of the gateway. \<open>shared\<close> is the
  application state all calls share; \<open>world\<close> adds the trace of what this call did (a history
  variable) and a counter \<open>wd_n\<close> of its interactions with the environment. The environment
  \<open>env\<close> fixes what is outside the code: the n-th clock reading, UUID, database fault, upstream
  answer, and what the other tasks do to the shared state while this one awaits.
\<close>

section \<open>Messages\<close>

record http_request =
  hq_method :: string
  hq_url :: string
  hq_headers :: "(string, string) dict"
  hq_body :: bytes

text \<open>An upstream answer; reading the body may fail.\<close>

record up_response =
  ur_status :: int
  ur_headers :: "(string, string) dict"
  ur_body :: "bytes res"

datatype content = CJson json | CBytes bytes | CStream "bytes res"

record response =
  rs_status :: int
  rs_headers :: "(string, string) dict"
  rs_content :: content

record client_request =
  cr_method :: string
  cr_headers :: "(string, string) dict"
  cr_body :: bytes

text \<open>A parsed \<open>JSONRPCMessage.root\<close>; notifications and errors lack some attributes.\<close>

record rpc_message =
  rm_method :: "string option"
  rm_params :: "(string, json) dict option"
  rm_id :: "json option"

record policy_result =
  pr_policy :: string
  pr_effect_type :: string

record cp_decision =
  cd_outcome :: string
  cd_fired_policy :: "string option"
  cd_reason :: "string option"

record decision_event =
  de_audit_id :: int
  de_trace_id :: string
  de_agent_id :: string
  de_session_id :: string
  de_server :: string
  de_tool :: string
  de_args_hash :: string
  de_policies_fired :: "policy_result list"
  de_decision :: cp_decision
  de_hitl_ticket_id :: "string option"
  de_timestamp :: datetime

section \<open>Metrics\<close>

text \<open>The five instruments of \<open>observability/metrics.py\<close>, as the measurements added to them.\<close>

datatype metric =
    ToolCall string string string
  | ToolCallError string
  | ToolCallDuration string string rat
  | Inflight int
  | PolicyFire string string string

section \<open>State\<close>

record 's shared =
  sh_engine :: policy_engine
  sh_limiter :: limiter
  sh_table :: audit_table
  sh_redis :: 's
  sh_bus :: "decision_event list"

datatype effect_log =
    Wrote audit_entry
  | Published decision_event
  | Opened hitl_ticket
  | Resolved "hitl_ticket option"
  | Sent http_request
  | Measured metric

record 's world =
  wd_shared :: "'s shared"
  wd_trace :: "effect_log list"
  wd_n :: nat

record 's env =
  ev_routing :: "(string, string) dict"
  ev_request_policies :: "(string, request_fn) dict"
  ev_response_policies :: "(string, 's response_fn) dict"
  ev_redis :: "'s redis"
  ev_float :: "string \<Rightarrow> string res"
  ev_json_float :: "string \<Rightarrow> string"
  ev_parse :: "bytes \<Rightarrow> rpc_message res"
  ev_limiter_clock :: "nat \<Rightarrow> rat"
  ev_uuid :: "nat \<Rightarrow> string"
  ev_utcnow :: "nat \<Rightarrow> datetime"
  ev_time :: "nat \<Rightarrow> string"
  ev_monotonic :: "nat \<Rightarrow> rat"
  ev_db :: "nat \<Rightarrow> exn option"
  ev_send :: "nat \<Rightarrow> http_request \<Rightarrow> up_response res"
  ev_others :: "nat \<Rightarrow> 's shared \<Rightarrow> 's shared"
  ev_seen :: "nat \<Rightarrow> 's shared \<Rightarrow> nat \<Rightarrow> 's"
  ev_poll_clock :: "nat \<Rightarrow> nat \<Rightarrow> rat"
  ev_fuel :: nat

section \<open>Actions\<close>

type_synonym ('s, 'a) act = "'s world \<Rightarrow> 'a res \<times> 's world"

definition ret :: "'a \<Rightarrow> ('s, 'a) act" where
  "ret a w = (Inr a, w)"

definition throw :: "exn \<Rightarrow> ('s, 'a) act" where
  "throw e w = (Inl e, w)"

definition bind_act :: "('s, 'a) act \<Rightarrow> ('a \<Rightarrow> ('s, 'b) act) \<Rightarrow> ('s, 'b) act" where
  "bind_act m k w = (case m w of (Inl e, w') \<Rightarrow> (Inl e, w') | (Inr a, w') \<Rightarrow> k a w')"

text \<open>\<open>try: m except ...: h\<close>, where \<open>h\<close> gets the exception and may raise it again.\<close>

definition catch_act :: "('s, 'a) act \<Rightarrow> (exn \<Rightarrow> ('s, 'a) act) \<Rightarrow> ('s, 'a) act" where
  "catch_act m h w = (case m w of (Inl e, w') \<Rightarrow> h e w' | (Inr a, w') \<Rightarrow> (Inr a, w'))"

text \<open>\<open>try: m\<close>, with the handlers and the \<open>else\<close> part in what follows.\<close>

definition attempt :: "('s, 'a) act \<Rightarrow> ('s, 'a res) act" where
  "attempt m w = (case m w of (r, w') \<Rightarrow> (Inr r, w'))"

text \<open>\<open>try: m finally: f\<close>, for an \<open>f\<close> that does not raise.\<close>

definition finally_act :: "('s, 'a) act \<Rightarrow> ('s world \<Rightarrow> 's world) \<Rightarrow> ('s, 'a) act" where
  "finally_act m f w = (case m w of (r, w') \<Rightarrow> (r, f w'))"

definition log_effect :: "effect_log \<Rightarrow> 's world \<Rightarrow> 's world" where
  "log_effect x w = w\<lparr>wd_trace := wd_trace w @ [x]\<rparr>"

definition tick :: "'s world \<Rightarrow> 's world" where
  "tick w = w\<lparr>wd_n := Suc (wd_n w)\<rparr>"

text \<open>Draw the next value of an environment stream.\<close>

definition draw :: "(nat \<Rightarrow> 'a) \<Rightarrow> ('s, 'a) act" where
  "draw f w = (Inr (f (wd_n w)), tick w)"

text \<open>Suspend: the other tasks run.\<close>

definition await :: "'s env \<Rightarrow> 's world \<Rightarrow> 's world" where
  "await E w = tick (w\<lparr>wd_shared := ev_others E (wd_n w) (wd_shared w)\<rparr>)"

definition measure_metric :: "metric \<Rightarrow> ('s, unit) act" where
  "measure_metric m w = (Inr (), log_effect (Measured m) w)"

definition write_row :: "'s env \<Rightarrow> entry_args \<Rightarrow> ('s, audit_entry) act" where
  "write_row E a w =
     (let w1 = await E w; n = wd_n w1;
          (r, tb) = write_entry (ev_db E n) (ev_utcnow E n) a (sh_table (wd_shared w1));
          w2 = tick (w1\<lparr>wd_shared := (wd_shared w1)\<lparr>sh_table := tb\<rparr>\<rparr>)
      in case r of Inl e \<Rightarrow> (Inl e, w2) | Inr e \<Rightarrow> (Inr e, log_effect (Wrote e) w2))"

definition publish :: "decision_event \<Rightarrow> ('s, unit) act" where
  "publish ev w =
     (Inr (), log_effect (Published ev)
        (w\<lparr>wd_shared := (wd_shared w)\<lparr>sh_bus := sh_bus (wd_shared w) @ [ev]\<rparr>\<rparr>))"

definition send :: "'s env \<Rightarrow> http_request \<Rightarrow> ('s, up_response) act" where
  "send E req w =
     (let w1 = log_effect (Sent req) w; w2 = await E w1
      in (ev_send E (wd_n w1) req, w2))"

lemmas act_defs = ret_def throw_def bind_act_def catch_act_def attempt_def finally_act_def draw_def tick_def log_effect_def

end
