(* ===== verification/TimeArith.thy ===== *)
theory TimeArith
  imports AuditChain
begin

text \<open>
  Instants: Python compares aware datetimes, and PostgreSQL compares timestamps with time zone,
  by the instant they denote. An instant is the number of microseconds since the start of year
  one, in UTC.
\<close>

definition leap_year :: "nat \<Rightarrow> bool" where
  "leap_year y \<longleftrightarrow> y mod 4 = 0 \<and> (y mod 100 \<noteq> 0 \<or> y mod 400 = 0)"

definition days_before_year :: "nat \<Rightarrow> nat" where
  "days_before_year y = (let x = y - 1 in x * 365 + x div 4 - x div 100 + x div 400)"

definition days_before_month :: "nat \<Rightarrow> nat \<Rightarrow> nat" where
  "days_before_month y m =
     (case map_of (zip [1..<13] [0, 31, 59, 90, 120, 151, 181, 212, 243, 273, 304, 334]) m of
        None \<Rightarrow> 0 | Some d \<Rightarrow> d) + (if 2 < m \<and> leap_year y then 1 else 0)"

definition date_ordinal :: "nat \<Rightarrow> nat \<Rightarrow> nat \<Rightarrow> nat" where
  "date_ordinal y m d = days_before_year y + days_before_month y m + d"

definition instant :: "datetime \<Rightarrow> int" where
  "instant t =
     (let minutes = int (date_ordinal (dt_year t) (dt_month t) (dt_day t)) * 1440 +
            int (dt_hour t) * 60 + int (dt_minute t) - dt_offset t
      in (minutes * 60 + int (dt_second t)) * 1000000 + int (dt_micro t))"

definition minutes_delta :: "int \<Rightarrow> int" where
  "minutes_delta m = m * 60 * 1000000"

definition days_delta :: "int \<Rightarrow> int" where
  "days_delta d = d * 86400 * 1000000"

lemma instant_offset:
  "instant (t\<lparr>dt_offset := o2\<rparr>) = instant t + minutes_delta (dt_offset t - o2)"
  by (simp add: instant_def minutes_delta_def Let_def algebra_simps)

end
