(* ===== verification/ResAction.thy ===== *)
theory ResAction
  imports Prelude
begin

text \<open>
  Actions over a world of any type that may raise: a result and the world left behind, which keeps
  what was done before an exception. The control plane and the investigator are written with them.
\<close>

definition cret :: "'a \<Rightarrow> 'w \<Rightarrow> 'a res \<times> 'w" where
  "cret a w = (Inr a, w)"

definition cthrow :: "exn \<Rightarrow> 'w \<Rightarrow> 'a res \<times> 'w" where
  "cthrow e w = (Inl e, w)"

definition cbind :: "('w \<Rightarrow> 'a res \<times> 'w) \<Rightarrow> ('a \<Rightarrow> 'w \<Rightarrow> 'b res \<times> 'w) \<Rightarrow> 'w \<Rightarrow> 'b res \<times> 'w" where
  "cbind m k w = (case m w of (Inl e, w') \<Rightarrow> (Inl e, w') | (Inr a, w') \<Rightarrow> k a w')"

definition clift :: "'a res \<Rightarrow> 'w \<Rightarrow> 'a res \<times> 'w" where
  "clift r w = (r, w)"

lemma cbind_Inr:
  "cbind m k w = (Inr b, w'') \<longleftrightarrow> (\<exists>a w'. m w = (Inr a, w') \<and> k a w' = (Inr b, w''))"
  by (auto simp: cbind_def split: prod.splits sum.splits)

lemma cbind_Inl:
  "cbind m k w = (Inl e, w'') \<longleftrightarrow> m w = (Inl e, w'') \<or> (\<exists>a w'. m w = (Inr a, w') \<and> k a w' = (Inl e, w''))"
  by (auto simp: cbind_def split: prod.splits sum.splits)

lemma cret_iff [simp]: "cret a w = (r, w') \<longleftrightarrow> r = Inr a \<and> w' = w"
  by (auto simp: cret_def)

lemma clift_iff [simp]: "clift x w = (r, w') \<longleftrightarrow> x = r \<and> w' = w"
  by (auto simp: clift_def)

section \<open>Fields an action leaves alone\<close>

definition keeps_field :: "('w \<Rightarrow> 'b) \<Rightarrow> ('w \<Rightarrow> 'a res \<times> 'w) \<Rightarrow> bool" where
  "keeps_field f m \<longleftrightarrow> (\<forall>w. f (snd (m w)) = f w)"

lemma keeps_fieldD: "keeps_field f m \<Longrightarrow> m w = (r, w') \<Longrightarrow> f w' = f w"
  unfolding keeps_field_def by (metis snd_conv)

named_theorems res_keeps

lemma keeps_cret [res_keeps]: "keeps_field f (cret a)"
  by (simp add: keeps_field_def cret_def)

lemma keeps_cthrow [res_keeps]: "keeps_field f (cthrow e)"
  by (simp add: keeps_field_def cthrow_def)

lemma keeps_clift [res_keeps]: "keeps_field f (clift r)"
  by (simp add: keeps_field_def clift_def)

lemma keeps_cbind [res_keeps]:
  "keeps_field f m \<Longrightarrow> (\<And>a. keeps_field f (k a)) \<Longrightarrow> keeps_field f (cbind m k)"
  by (auto simp: keeps_field_def cbind_def split: prod.splits sum.splits) (metis snd_conv)+

end
