(* ===== verification/ControlPlane.thy ===== *)
theory ControlPlane
  imports GatewayBase TimeArith ResAction
begin

text \<open>
  \<open>control_plane/\<close>: the typed state, the five agents and the graph they form, and the loop that
  feeds it the published events. Floats are real numbers. \<open>cp_env\<close> is what is outside the code:
  the audit rows the n-th query sees (the gateway writes meanwhile), database faults, clocks,
  fresh ids, and the language model, which gets the data its prompt is made of.
\<close>

section \<open>State\<close>

text \<open>\<open>state.py\<close>\<close>

record features =
  ft_calls_per_minute :: real
  ft_unique_tools_count :: real
  ft_total_calls :: real
  ft_hitl_ticket_count :: real
  ft_denial_count :: real

record enriched_decision =
  ed_event :: decision_event
  ed_context_features :: features
  ed_session_risk_score :: real
  ed_history_summary :: "string option"

datatype evidence_value = EvReal real | EvInt int | EvInts "int list" | EvText string

record anomaly_flag =
  af_event :: decision_event
  af_anomaly_type :: string
  af_severity :: string
  af_evidence :: "(string, evidence_value) dict"

record hitl_packet =
  hp_ticket_id :: string
  hp_event :: decision_event
  hp_enriched :: enriched_decision
  hp_narrative :: string
  hp_recommended_action :: string
  hp_confidence :: real

record incident =
  in_incident_id :: string
  in_related_events :: "int list"
  in_severity :: string
  in_narrative :: string
  in_recommended_response :: string
  in_created_at :: datetime

record interpose_state =
  is_event :: decision_event
  is_enriched :: "enriched_decision option"
  is_anomaly :: "anomaly_flag option"
  is_hitl_packet :: "hitl_packet option"
  is_incident :: "incident option"
  is_error :: "string option"

definition initial_state :: "decision_event \<Rightarrow> interpose_state" where
  "initial_state ev = \<lparr>is_event = ev, is_enriched = None, is_anomaly = None, is_hitl_packet = None,
     is_incident = None, is_error = None\<rparr>"

text \<open>\<open>models.py\<close>: the rows the agents persist.\<close>

record risk_score_snapshot =
  rs_created_at :: datetime
  rs_trace_id :: string
  rs_audit_id :: int
  rs_agent_id :: string
  rs_session_id :: string
  rs_risk_score :: real
  rs_context_features :: features

record anomaly_flag_record =
  ar_created_at :: datetime
  ar_trace_id :: string
  ar_audit_id :: int
  ar_agent_id :: string
  ar_session_id :: string
  ar_anomaly_type :: string
  ar_severity :: string
  ar_evidence :: "(string, evidence_value) dict"

record incident_record =
  ir_id :: string
  ir_created_at :: datetime
  ir_trace_id :: string
  ir_agent_id :: string
  ir_session_id :: string
  ir_promotion_rule :: string
  ir_related_events :: "int list"
  ir_severity :: string
  ir_narrative :: string
  ir_recommended_response :: string

section \<open>Actions\<close>

text \<open>What the language model is asked for.\<close>

record session_evidence =
  se_recent_calls :: "(string \<times> string \<times> string) list"
  se_prior_decisions :: "(string, nat) dict"

record hitl_narrative =
  hn_narrative :: string
  hn_recommended_action :: string
  hn_confidence :: real

record incident_narrative =
  nn_narrative :: string
  nn_recommended_response :: string

record 's cp_env =
  ce_redis :: "'s redis"
  ce_rows :: "nat \<Rightarrow> audit_entry list"
  ce_db :: "nat \<Rightarrow> exn option"
  ce_utcnow :: "nat \<Rightarrow> datetime"
  ce_time :: "nat \<Rightarrow> string"
  ce_uuid :: "nat \<Rightarrow> string"
  ce_str :: "real \<Rightarrow> string"
  ce_describe :: "nat \<Rightarrow> anomaly_flag \<Rightarrow> string res"
  ce_compose :: "nat \<Rightarrow> interpose_state \<Rightarrow> session_evidence \<Rightarrow> hitl_narrative res"
  ce_narrate :: "nat \<Rightarrow> interpose_state \<Rightarrow> string \<Rightarrow> incident_narrative res"

datatype agent = Supervisor | PolicyEvaluator | AnomalyDetector | EvidenceComposer | IncidentEscalator

text \<open>\<open>cw_visits\<close> is a history variable: the nodes run so far.\<close>

record 's cp_world =
  cw_redis :: 's
  cw_snapshots :: "risk_score_snapshot list"
  cw_anomalies :: "anomaly_flag_record list"
  cw_incidents :: "incident_record list"
  cw_errors :: "(string \<times> int) list"
  cw_visits :: "agent list"
  cw_n :: nat

type_synonym ('s, 'a) cp_act = "'s cp_world \<Rightarrow> 'a res \<times> 's cp_world"

definition ctick :: "'s cp_world \<Rightarrow> 's cp_world" where
  "ctick w = w\<lparr>cw_n := Suc (cw_n w)\<rparr>"

definition cdraw :: "(nat \<Rightarrow> 'a) \<Rightarrow> ('s, 'a) cp_act" where
  "cdraw f w = (Inr (f (cw_n w)), ctick w)"

text \<open>One query of the audit table, or the fault it meets.\<close>

definition query :: "'s cp_env \<Rightarrow> (audit_entry list \<Rightarrow> 'a) \<Rightarrow> ('s, 'a) cp_act" where
  "query E f w =
     (case ce_db E (cw_n w) of
        Some e \<Rightarrow> (Inl e, ctick w)
      | None \<Rightarrow> (Inr (f (ce_rows E (cw_n w))), ctick w))"

text \<open>One insert in a transaction of its own.\<close>

definition persist :: "'s cp_env \<Rightarrow> ('s cp_world \<Rightarrow> 's cp_world) \<Rightarrow> ('s, unit) cp_act" where
  "persist E f w =
     (case ce_db E (cw_n w) of
        Some e \<Rightarrow> (Inl e, ctick w)
      | None \<Rightarrow> (Inr (), ctick (f w)))"

definition count_where :: "('a \<Rightarrow> bool) \<Rightarrow> 'a list \<Rightarrow> nat" where
  "count_where P xs = length (filter P xs)"

section \<open>A0: supervisor\<close>

definition RISK_THRESHOLD :: real where "RISK_THRESHOLD = 0.5"

definition route_after_supervisor :: "interpose_state \<Rightarrow> string" where
  "route_after_supervisor st =
     (if cd_outcome (de_decision (is_event st)) = ''DENY'' then ''to_a4'' else ''to_a1'')"

definition route_after_policy_evaluator :: "interpose_state \<Rightarrow> string" where
  "route_after_policy_evaluator st =
     (if cd_outcome (de_decision (is_event st)) = ''HOLD'' then ''to_a3''
      else if cd_outcome (de_decision (is_event st)) = ''PASS'' \<and>
              (case is_enriched st of None \<Rightarrow> False
               | Some ed \<Rightarrow> ed_session_risk_score ed > RISK_THRESHOLD)
      then ''to_a2''
      else ''end'')"

definition route_after_anomaly_detector :: "interpose_state \<Rightarrow> string" where
  "route_after_anomaly_detector st =
     (case is_anomaly st of
        Some a \<Rightarrow> if af_severity a = ''high'' then ''to_a4'' else ''end''
      | None \<Rightarrow> ''end'')"

section \<open>A1: policy evaluator\<close>

definition in_session :: "decision_event \<Rightarrow> audit_entry \<Rightarrow> bool" where
  "in_session ev e \<longleftrightarrow> ae_session_id e = de_session_id ev"

definition compute_context_features :: "'s cp_env \<Rightarrow> decision_event \<Rightarrow> ('s, features) cp_act" where
  "compute_context_features E ev =
     (let window_start = instant (de_timestamp ev) - minutes_delta 1 in
      cbind (query E (count_where (\<lambda>e. in_session ev e \<and> instant (ae_timestamp e) \<ge> window_start)))
        (\<lambda>calls_last_minute.
      cbind (query E (\<lambda>rows. card (ae_tool ` set (filter (in_session ev) rows)))) (\<lambda>unique_tools.
      cbind (query E (count_where (in_session ev))) (\<lambda>total_calls.
      cbind (query E (count_where (\<lambda>e. in_session ev e \<and> ae_status e = ''HELD''))) (\<lambda>hitl_ticket_count.
      cbind (query E (count_where (\<lambda>e. in_session ev e \<and> ae_status e = ''DENIED''))) (\<lambda>denial_count.
        cret \<lparr>ft_calls_per_minute = of_nat calls_last_minute,
              ft_unique_tools_count = of_nat unique_tools,
              ft_total_calls = of_nat total_calls,
              ft_hitl_ticket_count = of_nat hitl_ticket_count,
              ft_denial_count = of_nat denial_count\<rparr>))))))"

definition compute_session_risk_score :: "features \<Rightarrow> real" where
  "compute_session_risk_score ft =
     (let score = 0.05 * ft_calls_per_minute ft + 0.3 * min (ft_denial_count ft) 3 +
            0.2 * min (ft_hitl_ticket_count ft) 3
      in max 0 (min 1 score))"

definition record_session_risk_score ::
    "'s cp_env \<Rightarrow> decision_event \<Rightarrow> real \<Rightarrow> ('s, unit) cp_act" where
  "record_session_risk_score E ev risk =
     cbind (cdraw (ce_time E)) (\<lambda>now. \<lambda>w.
       (case rd_exec (ce_redis E)
               [HSet (''interpose:session:'' @ de_session_id ev)
                  [(''agent_id'', de_agent_id ev), (''risk_score'', ce_str E risk),
                   (''last_updated'', now)]] (cw_redis w) of
          (r, s') \<Rightarrow> (r, w\<lparr>cw_redis := s'\<rparr>)))"

definition persist_risk_score_snapshot ::
    "'s cp_env \<Rightarrow> decision_event \<Rightarrow> real \<Rightarrow> features \<Rightarrow> ('s, unit) cp_act" where
  "persist_risk_score_snapshot E ev risk ft =
     cbind (cdraw (ce_utcnow E)) (\<lambda>now.
       persist E (\<lambda>w. w\<lparr>cw_snapshots := cw_snapshots w @
         [\<lparr>rs_created_at = now, rs_trace_id = de_trace_id ev, rs_audit_id = de_audit_id ev,
           rs_agent_id = de_agent_id ev, rs_session_id = de_session_id ev, rs_risk_score = risk,
           rs_context_features = ft\<rparr>]\<rparr>))"

definition policy_evaluator_node :: "'s cp_env \<Rightarrow> interpose_state \<Rightarrow> ('s, interpose_state) cp_act" where
  "policy_evaluator_node E st =
     cbind (compute_context_features E (is_event st)) (\<lambda>ft.
       (let risk = compute_session_risk_score ft in
        cbind (record_session_risk_score E (is_event st) risk) (\<lambda>_.
        cbind (persist_risk_score_snapshot E (is_event st) risk ft) (\<lambda>_.
          cret (st\<lparr>is_enriched := Some \<lparr>ed_event = is_event st, ed_context_features = ft,
            ed_session_risk_score = risk, ed_history_summary = None\<rparr>\<rparr>)))))"

section \<open>A2: anomaly detector\<close>

definition MIN_WINDOWS_FOR_ZSCORE :: nat where "MIN_WINDOWS_FOR_ZSCORE = 3"
definition ZSCORE_FLAG_THRESHOLD :: real where "ZSCORE_FLAG_THRESHOLD = 3"
definition ZSCORE_HIGH_SEVERITY_THRESHOLD :: real where "ZSCORE_HIGH_SEVERITY_THRESHOLD = 5"
definition REPEATED_DENIALS_THRESHOLD :: nat where "REPEATED_DENIALS_THRESHOLD = 3"
definition REPEATED_DENIALS_HIGH_SEVERITY_THRESHOLD :: nat where
  "REPEATED_DENIALS_HIGH_SEVERITY_THRESHOLD = 5"

record anomaly_signals =
  sg_current_window_calls :: nat
  sg_prior_window_call_counts :: "nat list"
  sg_denials_last_15_min :: nat

text \<open>The \<open>i\<close>-th five-minute bucket before the event.\<close>

definition in_bucket :: "decision_event \<Rightarrow> nat \<Rightarrow> audit_entry \<Rightarrow> bool" where
  "in_bucket ev i e \<longleftrightarrow>
     (let window_end = instant (de_timestamp ev) - minutes_delta (5 * int i);
          window_start = window_end - minutes_delta 5
      in ae_agent_id e = de_agent_id ev \<and> window_start \<le> instant (ae_timestamp e) \<and>
         instant (ae_timestamp e) < window_end)"

fun bucket_counts :: "'s cp_env \<Rightarrow> decision_event \<Rightarrow> nat list \<Rightarrow> ('s, nat list) cp_act" where
  "bucket_counts E ev [] = cret []"
| "bucket_counts E ev (i # is) =
     cbind (query E (count_where (in_bucket ev i))) (\<lambda>c.
     cbind (bucket_counts E ev is) (\<lambda>cs. cret (c # cs)))"

definition recent_denial :: "string \<Rightarrow> datetime \<Rightarrow> audit_entry \<Rightarrow> bool" where
  "recent_denial agent_id as_of e \<longleftrightarrow>
     ae_agent_id e = agent_id \<and> ae_status e = ''DENIED'' \<and>
     instant (ae_timestamp e) \<ge> instant as_of - minutes_delta 15"

definition compute_anomaly_signals :: "'s cp_env \<Rightarrow> decision_event \<Rightarrow> ('s, anomaly_signals) cp_act" where
  "compute_anomaly_signals E ev =
     cbind (bucket_counts E ev [0..<12]) (\<lambda>counts.
     cbind (query E (count_where (recent_denial (de_agent_id ev) (de_timestamp ev)))) (\<lambda>denials.
       cret \<lparr>sg_current_window_calls = hd counts, sg_prior_window_call_counts = tl counts,
             sg_denials_last_15_min = denials\<rparr>))"

text \<open>\<open>statistics.mean\<close> and \<open>statistics.stdev\<close> (the sample deviation).\<close>

definition mean :: "nat list \<Rightarrow> real" where
  "mean xs = of_nat (sum_list xs) / of_nat (length xs)"

definition stdev :: "nat list \<Rightarrow> real" where
  "stdev xs = sqrt (sum_list (map (\<lambda>x. (of_nat x - mean xs)\<^sup>2) xs) / of_nat (length xs - 1))"

definition compute_rate_zscore :: "anomaly_signals \<Rightarrow> real option" where
  "compute_rate_zscore sg =
     (let history = sg_prior_window_call_counts sg in
      if length history < MIN_WINDOWS_FOR_ZSCORE then None
      else (let sd = (if length history > 1 then stdev history else 0) in
            if sd = 0 then None
            else Some ((of_nat (sg_current_window_calls sg) - mean history) / sd)))"

definition detect_anomaly :: "anomaly_signals \<Rightarrow> decision_event \<Rightarrow> anomaly_flag option" where
  "detect_anomaly sg ev =
     (let z = compute_rate_zscore sg in
      if (case z of None \<Rightarrow> False | Some x \<Rightarrow> \<bar>x\<bar> > ZSCORE_FLAG_THRESHOLD) then
        Some \<lparr>af_event = ev, af_anomaly_type = ''rate_spike'',
              af_severity = (if \<bar>the z\<bar> \<ge> ZSCORE_HIGH_SEVERITY_THRESHOLD then ''high'' else ''med''),
              af_evidence =
                [(''zscore'', EvReal (the z)),
                 (''current_window_calls'', EvInt (int (sg_current_window_calls sg))),
                 (''prior_window_call_counts'', EvInts (map int (sg_prior_window_call_counts sg)))]\<rparr>
      else if sg_denials_last_15_min sg \<ge> REPEATED_DENIALS_THRESHOLD then
        Some \<lparr>af_event = ev, af_anomaly_type = ''repeated_denials'',
              af_severity =
                (if sg_denials_last_15_min sg \<ge> REPEATED_DENIALS_HIGH_SEVERITY_THRESHOLD
                 then ''high'' else ''med''),
              af_evidence = [(''denials_last_15_min'', EvInt (int (sg_denials_last_15_min sg)))]\<rparr>
      else None)"

text \<open>A failure of the language model leaves the flag without a description.\<close>

definition describe_high_severity_anomaly ::
    "'s cp_env \<Rightarrow> anomaly_flag \<Rightarrow> ('s, string option) cp_act" where
  "describe_high_severity_anomaly E flag w =
     (case ce_describe E (cw_n w) flag of
        Inr d \<Rightarrow> (Inr (Some d), ctick w)
      | Inl e \<Rightarrow> (if exn_kind e = LLMErr then Inr None else Inl e, ctick w))"

definition persist_anomaly_flag :: "'s cp_env \<Rightarrow> anomaly_flag \<Rightarrow> ('s, unit) cp_act" where
  "persist_anomaly_flag E flag =
     cbind (cdraw (ce_utcnow E)) (\<lambda>now.
       persist E (\<lambda>w. w\<lparr>cw_anomalies := cw_anomalies w @
         [\<lparr>ar_created_at = now, ar_trace_id = de_trace_id (af_event flag),
           ar_audit_id = de_audit_id (af_event flag), ar_agent_id = de_agent_id (af_event flag),
           ar_session_id = de_session_id (af_event flag), ar_anomaly_type = af_anomaly_type flag,
           ar_severity = af_severity flag, ar_evidence = af_evidence flag\<rparr>]\<rparr>))"

definition anomaly_detector_node :: "'s cp_env \<Rightarrow> interpose_state \<Rightarrow> ('s, interpose_state) cp_act" where
  "anomaly_detector_node E st =
     cbind (compute_anomaly_signals E (is_event st)) (\<lambda>sg.
       (case detect_anomaly sg (is_event st) of
          None \<Rightarrow> cret st
        | Some flag \<Rightarrow>
            cbind (if af_severity flag = ''high'' then
                     cbind (describe_high_severity_anomaly E flag) (\<lambda>d.
                       cret (case d of None \<Rightarrow> flag
                             | Some t \<Rightarrow> flag\<lparr>af_evidence := dict_set ''description'' (EvText t) (af_evidence flag)\<rparr>))
                   else cret flag) (\<lambda>flag.
            cbind (persist_anomaly_flag E flag) (\<lambda>_.
              cret (st\<lparr>is_anomaly := Some flag\<rparr>)))))"

section \<open>A3: evidence composer\<close>

definition RECENT_CALLS_LIMIT :: nat where "RECENT_CALLS_LIMIT = 20"

text \<open>The newest rows first; rows of equal time in an order the database chooses, here latest first.\<close>

definition recent_calls :: "string \<Rightarrow> audit_entry list \<Rightarrow> (string \<times> string \<times> string) list" where
  "recent_calls session_id rows =
     map (\<lambda>e. (ae_tool e, ae_status e, isoformat (ae_timestamp e)))
       (take RECENT_CALLS_LIMIT
         (rev (sort_key (\<lambda>e. instant (ae_timestamp e)) (filter (\<lambda>e. ae_session_id e = session_id) rows))))"

definition prior_decisions :: "string \<Rightarrow> string \<Rightarrow> audit_entry list \<Rightarrow> string list" where
  "prior_decisions agent_id tool rows =
     map (\<lambda>e. the (ae_hitl_decision e))
       (filter (\<lambda>e. ae_agent_id e = agent_id \<and> ae_tool e = tool \<and> ae_hitl_decision e \<noteq> None) rows)"

definition tally :: "string list \<Rightarrow> (string, nat) dict" where
  "tally ds = foldl (\<lambda>counts d. dict_set d (get_or 0 counts d + 1) counts) [] ds"

definition compute_session_evidence ::
    "'s cp_env \<Rightarrow> string \<Rightarrow> string \<Rightarrow> string \<Rightarrow> ('s, session_evidence) cp_act" where
  "compute_session_evidence E agent_id session_id tool =
     cbind (query E (recent_calls session_id)) (\<lambda>calls.
     cbind (query E (prior_decisions agent_id tool)) (\<lambda>ds.
       cret \<lparr>se_recent_calls = calls, se_prior_decisions = tally ds\<rparr>))"

definition repr_opt :: "string option \<Rightarrow> string" where
  "repr_opt x = (case x of None \<Rightarrow> ''None'' | Some s \<Rightarrow> py_repr s)"

definition fallback_hitl_narrative :: "interpose_state \<Rightarrow> exn \<Rightarrow> hitl_narrative" where
  "fallback_hitl_narrative st e =
     \<lparr>hn_narrative = ''HITL hold on '' @ de_tool (is_event st) @ '' ('' @ de_server (is_event st) @
        '') for agent '' @ de_agent_id (is_event st) @ '', fired policy '' @
        repr_opt (cd_fired_policy (de_decision (is_event st))) @
        ''. Narrative generation failed ('' @ exn_text e @
        ''); manual review required with no automated recommendation.'',
      hn_recommended_action = ''escalate'', hn_confidence = 0\<rparr>"

definition compose_hitl_narrative ::
    "'s cp_env \<Rightarrow> interpose_state \<Rightarrow> session_evidence \<Rightarrow> ('s, hitl_narrative) cp_act" where
  "compose_hitl_narrative E st ev w =
     (if is_enriched st = None then (Inl (Exn AssertionErr []), w)
      else (case ce_compose E (cw_n w) st ev of
              Inr n \<Rightarrow> (Inr n, ctick w)
            | Inl e \<Rightarrow> (if exn_kind e = LLMErr then Inr (fallback_hitl_narrative st e) else Inl e, ctick w)))"

definition evidence_composer_node :: "'s cp_env \<Rightarrow> interpose_state \<Rightarrow> ('s, interpose_state) cp_act" where
  "evidence_composer_node E st =
     (case (de_hitl_ticket_id (is_event st), is_enriched st) of
        (None, _) \<Rightarrow> cthrow (Exn RuntimeErr (''evidence_composer reached without a HITL ticket ID -- expected only '' @
          ''on the HOLD path, which always sets one''))
      | (Some k, None) \<Rightarrow> cthrow (Exn RuntimeErr (''evidence_composer reached with no enrichment from Agent A1 -- '' @
          ''routing invariant violated (HOLD should always go through A1 first)''))
      | (Some k, Some ed) \<Rightarrow>
          cbind (compute_session_evidence E (de_agent_id (is_event st)) (de_session_id (is_event st))
                   (de_tool (is_event st))) (\<lambda>ev.
          cbind (compose_hitl_narrative E st ev) (\<lambda>out.
            cret (st\<lparr>is_hitl_packet := Some \<lparr>hp_ticket_id = k, hp_event = is_event st,
              hp_enriched = ed, hp_narrative = hn_narrative out,
              hp_recommended_action = hn_recommended_action out,
              hp_confidence = hn_confidence out\<rparr>\<rparr>))))"

section \<open>A4: incident escalator\<close>

definition HIGH_RISK_THRESHOLD :: real where "HIGH_RISK_THRESHOLD = 0.8"

definition compute_incident_signals :: "'s cp_env \<Rightarrow> string \<Rightarrow> datetime \<Rightarrow> ('s, nat) cp_act" where
  "compute_incident_signals E agent_id as_of = query E (count_where (recent_denial agent_id as_of))"

definition high_anomaly :: "interpose_state \<Rightarrow> bool" where
  "high_anomaly st = (case is_anomaly st of None \<Rightarrow> False | Some a \<Rightarrow> af_severity a = ''high'')"

definition should_promote :: "interpose_state \<Rightarrow> nat \<Rightarrow> string option" where
  "should_promote st denials_last_15_min =
     (if denials_last_15_min \<ge> REPEATED_DENIALS_THRESHOLD then Some ''repeated_denials''
      else if high_anomaly st then Some ''high_severity_anomaly''
      else (case is_enriched st of
              None \<Rightarrow> None
            | Some ed \<Rightarrow>
                if cd_outcome (de_decision (is_event st)) = ''HOLD'' \<and>
                   ed_session_risk_score ed > HIGH_RISK_THRESHOLD
                then Some ''high_risk_pending_hitl'' else None))"

definition compute_incident_severity :: "string \<Rightarrow> interpose_state \<Rightarrow> string" where
  "compute_incident_severity rule st =
     (if rule \<in> {''high_severity_anomaly'', ''high_risk_pending_hitl''} then ''high''
      else if high_anomaly st then ''high'' else ''med'')"

definition fallback_incident_narrative :: "interpose_state \<Rightarrow> string \<Rightarrow> exn \<Rightarrow> incident_narrative" where
  "fallback_incident_narrative st rule e =
     \<lparr>nn_narrative = ''Incident promoted under rule '' @ py_repr rule @ '' for agent '' @
        de_agent_id (is_event st) @ '' on '' @ de_server (is_event st) @ ''/'' @ de_tool (is_event st) @
        ''. Narrative generation failed ('' @ exn_text e @ ''); manual review required.'',
      nn_recommended_response = ''investigate''\<rparr>"

definition compose_incident_narrative ::
    "'s cp_env \<Rightarrow> interpose_state \<Rightarrow> string \<Rightarrow> ('s, incident_narrative) cp_act" where
  "compose_incident_narrative E st rule w =
     (case ce_narrate E (cw_n w) st rule of
        Inr n \<Rightarrow> (Inr n, ctick w)
      | Inl e \<Rightarrow> (if exn_kind e = LLMErr then Inr (fallback_incident_narrative st rule e) else Inl e, ctick w))"

definition persist_incident ::
    "'s cp_env \<Rightarrow> incident \<Rightarrow> decision_event \<Rightarrow> string \<Rightarrow> ('s, unit) cp_act" where
  "persist_incident E i ev rule =
     persist E (\<lambda>w. w\<lparr>cw_incidents := cw_incidents w @
       [\<lparr>ir_id = in_incident_id i, ir_created_at = in_created_at i, ir_trace_id = de_trace_id ev,
         ir_agent_id = de_agent_id ev, ir_session_id = de_session_id ev, ir_promotion_rule = rule,
         ir_related_events = in_related_events i, ir_severity = in_severity i,
         ir_narrative = in_narrative i, ir_recommended_response = in_recommended_response i\<rparr>]\<rparr>)"

definition incident_escalator_node :: "'s cp_env \<Rightarrow> interpose_state \<Rightarrow> ('s, interpose_state) cp_act" where
  "incident_escalator_node E st =
     cbind (compute_incident_signals E (de_agent_id (is_event st)) (de_timestamp (is_event st))) (\<lambda>denials.
       (case should_promote st denials of
          None \<Rightarrow> cret st
        | Some rule \<Rightarrow>
            cbind (compose_incident_narrative E st rule) (\<lambda>out.
            cbind (cdraw (ce_uuid E)) (\<lambda>uid.
            cbind (cdraw (ce_utcnow E)) (\<lambda>now.
              (let i = \<lparr>in_incident_id = uid, in_related_events = [de_audit_id (is_event st)],
                        in_severity = compute_incident_severity rule st,
                        in_narrative = nn_narrative out,
                        in_recommended_response = nn_recommended_response out,
                        in_created_at = now\<rparr>
               in cbind (persist_incident E i (is_event st) rule) (\<lambda>_.
                    cret (st\<lparr>is_incident := Some i\<rparr>))))))))"

section \<open>The graph\<close>

definition supervisor_node :: "interpose_state \<Rightarrow> ('s, interpose_state) cp_act" where
  "supervisor_node st = cret st"

fun run_agent :: "'s cp_env \<Rightarrow> agent \<Rightarrow> interpose_state \<Rightarrow> ('s, interpose_state) cp_act" where
  "run_agent E Supervisor st = supervisor_node st"
| "run_agent E PolicyEvaluator st = policy_evaluator_node E st"
| "run_agent E AnomalyDetector st = anomaly_detector_node E st"
| "run_agent E EvidenceComposer st = evidence_composer_node E st"
| "run_agent E IncidentEscalator st = incident_escalator_node E st"

text \<open>The conditional edges: what a route label leads to, \<open>None\<close> being the end of the graph.\<close>

definition edge :: "(string, agent option) dict \<Rightarrow> string \<Rightarrow> agent option" where
  "edge es label = (case map_of es label of None \<Rightarrow> None | Some t \<Rightarrow> t)"

fun next_agent :: "agent \<Rightarrow> interpose_state \<Rightarrow> agent option" where
  "next_agent Supervisor st =
     edge [(''to_a1'', Some PolicyEvaluator), (''to_a4'', Some IncidentEscalator)]
       (route_after_supervisor st)"
| "next_agent PolicyEvaluator st =
     edge [(''to_a2'', Some AnomalyDetector), (''to_a3'', Some EvidenceComposer), (''end'', None)]
       (route_after_policy_evaluator st)"
| "next_agent AnomalyDetector st =
     edge [(''to_a4'', Some IncidentEscalator), (''end'', None)] (route_after_anomaly_detector st)"
| "next_agent EvidenceComposer st = None"
| "next_agent IncidentEscalator st = None"

text \<open>Run the graph from a node, for at most \<open>fuel\<close> steps: LangGraph's recursion limit.\<close>

fun run_from :: "'s cp_env \<Rightarrow> nat \<Rightarrow> agent \<Rightarrow> interpose_state \<Rightarrow> ('s, interpose_state) cp_act" where
  "run_from E 0 a st = cthrow (Exn RuntimeErr ''GraphRecursionError'')"
| "run_from E (Suc fuel) a st =
     cbind (\<lambda>w. run_agent E a st (w\<lparr>cw_visits := cw_visits w @ [a]\<rparr>)) (\<lambda>st'.
       (case next_agent a st' of
          None \<Rightarrow> cret st'
        | Some b \<Rightarrow> run_from E fuel b st'))"

definition RECURSION_LIMIT :: nat where "RECURSION_LIMIT = 25"

definition run_graph :: "'s cp_env \<Rightarrow> decision_event \<Rightarrow> ('s, interpose_state) cp_act" where
  "run_graph E ev = run_from E RECURSION_LIMIT Supervisor (initial_state ev)"

text \<open>\<open>run_forever\<close> over the events consumed: an exception is logged and the loop goes on.\<close>

fun run_events :: "'s cp_env \<Rightarrow> decision_event list \<Rightarrow> 's cp_world \<Rightarrow> 's cp_world" where
  "run_events E [] w = w"
| "run_events E (ev # evs) w =
     (case run_graph E ev w of
        (Inr st, w') \<Rightarrow> run_events E evs w'
      | (Inl e, w') \<Rightarrow> run_events E evs (w'\<lparr>cw_errors := cw_errors w' @ [(de_trace_id ev, de_audit_id ev)]\<rparr>))"

end
