(* ===== verification/ControlPlaneProps.thy ===== *)
theory ControlPlaneProps
  imports ControlPlane "HOL-Library.Sublist"
begin

text \<open>
  The control plane: what its actions keep and raise, the routes through the graph, the incidents
  it records, and the loop over events.
\<close>

section \<open>Actions\<close>

lemmas cp_basic_defs = cbind_def cret_def cthrow_def cdraw_def query_def persist_def ctick_def

lemma keeps_cdraw [res_keeps]: "(\<And>w. f (ctick w) = f w) \<Longrightarrow> keeps_field f (cdraw g)"
  by (simp add: keeps_field_def cdraw_def)

lemma keeps_query [res_keeps]: "(\<And>w. f (ctick w) = f w) \<Longrightarrow> keeps_field f (query E g)"
  by (simp add: keeps_field_def query_def split: option.splits)

lemma keeps_persist [res_keeps]:
  "(\<And>w. f (ctick w) = f w) \<Longrightarrow> (\<And>w. f (g w) = f w) \<Longrightarrow> keeps_field f (persist E g)"
  by (simp add: keeps_field_def persist_def split: option.splits)

lemma keeps_bucket_counts [res_keeps]:
  "(\<And>w. f (ctick w) = f w) \<Longrightarrow> keeps_field f (bucket_counts E ev is)"
  by (induction "is") (auto intro!: res_keeps)

lemma keeps_record_session_risk_score [res_keeps]:
  assumes "\<And>w. f (ctick w) = f w" and "\<And>w s. f (w\<lparr>cw_redis := s\<rparr>) = f w"
  shows "keeps_field f (record_session_risk_score E ev risk)"
  unfolding record_session_risk_score_def
  by (rule keeps_cbind [OF keeps_cdraw])
    (auto simp: assms keeps_field_def split: prod.splits)

lemma keeps_describe [res_keeps]:
  "(\<And>w. f (ctick w) = f w) \<Longrightarrow> keeps_field f (describe_high_severity_anomaly E flag)"
  by (simp add: keeps_field_def describe_high_severity_anomaly_def split: sum.splits)

lemma keeps_compose_hitl [res_keeps]:
  "(\<And>w. f (ctick w) = f w) \<Longrightarrow> keeps_field f (compose_hitl_narrative E st ev)"
  by (simp add: keeps_field_def compose_hitl_narrative_def split: sum.splits)

lemma keeps_compose_incident [res_keeps]:
  "(\<And>w. f (ctick w) = f w) \<Longrightarrow> keeps_field f (compose_incident_narrative E st rule)"
  by (simp add: keeps_field_def compose_incident_narrative_def split: sum.splits)

lemma ctick_simps [simp]:
  "cw_visits (ctick w) = cw_visits w" "cw_errors (ctick w) = cw_errors w"
  "cw_incidents (ctick w) = cw_incidents w" "cw_anomalies (ctick w) = cw_anomalies w"
  "cw_snapshots (ctick w) = cw_snapshots w" "cw_redis (ctick w) = cw_redis w"
  "cw_n (ctick w) = Suc (cw_n w)"
  by (simp_all add: ctick_def)

lemmas node_defs = supervisor_node_def policy_evaluator_node_def anomaly_detector_node_def
  evidence_composer_node_def incident_escalator_node_def compute_context_features_def
  persist_risk_score_snapshot_def compute_anomaly_signals_def persist_anomaly_flag_def
  compute_session_evidence_def compute_incident_signals_def persist_incident_def Let_def

text \<open>What every agent leaves alone, and what only one agent writes.\<close>

lemma agent_keeps_visits: "keeps_field cw_visits (run_agent E a st)"
  by (cases a) (auto simp: node_defs intro!: res_keeps split: option.splits)

lemma agent_keeps_errors: "keeps_field cw_errors (run_agent E a st)"
  by (cases a) (auto simp: node_defs intro!: res_keeps split: option.splits)

lemma agent_keeps_snapshots: "a \<noteq> PolicyEvaluator \<Longrightarrow> keeps_field cw_snapshots (run_agent E a st)"
  by (cases a) (auto simp: node_defs intro!: res_keeps split: option.splits)

lemma agent_keeps_incidents: "a \<noteq> IncidentEscalator \<Longrightarrow> keeps_field cw_incidents (run_agent E a st)"
  by (cases a) (auto simp: node_defs intro!: res_keeps split: option.splits)

section \<open>What the agents write into the state\<close>

lemma policy_evaluator_result:
  assumes "policy_evaluator_node E st w = (Inr st', w')"
  obtains ed where "st' = st\<lparr>is_enriched := Some ed\<rparr>" "ed_event ed = is_event st"
    "ed_session_risk_score ed = compute_session_risk_score (ed_context_features ed)"
  using assms unfolding policy_evaluator_node_def Let_def cbind_Inr cret_iff by fastforce

lemma anomaly_detector_result:
  assumes "anomaly_detector_node E st w = (Inr st', w')"
  shows "st' = st \<or> (\<exists>an. st' = st\<lparr>is_anomaly := Some an\<rparr>)"
  using assms unfolding anomaly_detector_node_def cbind_Inr
  by (fastforce simp: cbind_Inr split: option.splits)

lemma evidence_composer_result:
  assumes "evidence_composer_node E st w = (Inr st', w')"
  obtains k p where "st' = st\<lparr>is_hitl_packet := Some p\<rparr>" "de_hitl_ticket_id (is_event st) = Some k"
    "hp_ticket_id p = k" "hp_event p = is_event st" "is_enriched st = Some (hp_enriched p)"
  using assms unfolding evidence_composer_node_def
  by (fastforce simp: cbind_Inr cthrow_def split: option.splits)

text \<open>The row of an incident, up to its id, time and narrative.\<close>

definition incident_of :: "interpose_state \<Rightarrow> string \<Rightarrow> incident_record \<Rightarrow> bool" where
  "incident_of st rule i \<longleftrightarrow> ir_promotion_rule i = rule \<and>
     ir_trace_id i = de_trace_id (is_event st) \<and> ir_agent_id i = de_agent_id (is_event st) \<and>
     ir_session_id i = de_session_id (is_event st) \<and>
     ir_related_events i = [de_audit_id (is_event st)] \<and>
     ir_severity i = compute_incident_severity rule st"

lemma persist_Inr: "persist E f w = (Inr u, w') \<longleftrightarrow> ce_db E (cw_n w) = None \<and> w' = ctick (f w)"
  by (auto simp: persist_def split: option.splits)

lemma incident_escalator_result:
  assumes "incident_escalator_node E st w = (Inr st', w')"
  shows "st' = st \<and> cw_incidents w' = cw_incidents w \<or>
    (\<exists>n rule i r. should_promote st n = Some rule \<and> st' = st\<lparr>is_incident := Some i\<rparr> \<and>
       cw_incidents w' = cw_incidents w @ [r] \<and> ir_id r = in_incident_id i \<and> incident_of st rule r)"
proof -
  from assms obtain n w1 where n: "compute_incident_signals E (de_agent_id (is_event st))
      (de_timestamp (is_event st)) w = (Inr n, w1)"
    and c: "(case should_promote st n of None \<Rightarrow> cret st
        | Some rule \<Rightarrow> cbind (compose_incident_narrative E st rule) (\<lambda>out.
            cbind (cdraw (ce_uuid E)) (\<lambda>uid.
            cbind (cdraw (ce_utcnow E)) (\<lambda>now.
              (let i = \<lparr>in_incident_id = uid, in_related_events = [de_audit_id (is_event st)],
                        in_severity = compute_incident_severity rule st,
                        in_narrative = nn_narrative out,
                        in_recommended_response = nn_recommended_response out,
                        in_created_at = now\<rparr>
               in cbind (persist_incident E i (is_event st) rule) (\<lambda>_.
                    cret (st\<lparr>is_incident := Some i\<rparr>))))))) w1 = (Inr st', w')"
    unfolding incident_escalator_node_def cbind_Inr by blast
  have "keeps_field cw_incidents
      (compute_incident_signals E (de_agent_id (is_event st)) (de_timestamp (is_event st)))"
    by (auto simp: compute_incident_signals_def intro!: res_keeps)
  then have k: "cw_incidents w1 = cw_incidents w"
    using n unfolding keeps_field_def by (metis snd_conv)
  show ?thesis
  proof (cases "should_promote st n")
    case None
    with c k show ?thesis by simp
  next
    case (Some rule)
    from c [unfolded Some] obtain out w2 where o: "compose_incident_narrative E st rule w1 = (Inr out, w2)"
      and st': "\<exists>i r. st' = st\<lparr>is_incident := Some i\<rparr> \<and> cw_incidents w' = cw_incidents w2 @ [r] \<and>
        ir_id r = in_incident_id i \<and> incident_of st rule r"
      by (fastforce simp: cbind_Inr Let_def persist_incident_def persist_Inr cdraw_def incident_of_def)
    have "keeps_field cw_incidents (compose_incident_narrative E st rule)"
      by (auto intro!: res_keeps)
    then have "cw_incidents w2 = cw_incidents w1"
      using o unfolding keeps_field_def by (metis snd_conv)
    with st' Some k show ?thesis by metis
  qed
qed


section \<open>The routes\<close>

lemma agent_result_event:
  assumes "run_agent E a st w = (Inr st', w')" shows "is_event st' = is_event st"
proof (cases a)
  case Supervisor then show ?thesis using assms by (simp add: supervisor_node_def)
next
  case PolicyEvaluator then show ?thesis using assms by (auto elim: policy_evaluator_result)
next
  case AnomalyDetector then show ?thesis using assms by (auto dest: anomaly_detector_result)
next
  case EvidenceComposer then show ?thesis using assms by (auto elim: evidence_composer_result)
next
  case IncidentEscalator then show ?thesis using assms by (auto dest!: incident_escalator_result)
qed

lemma supervisor_step: "run_agent E Supervisor st w = (Inr st, w)"
  by (simp add: supervisor_node_def)

lemma next_agent_simps [simp]:
  "next_agent Supervisor st =
     Some (if cd_outcome (de_decision (is_event st)) = ''DENY'' then IncidentEscalator else PolicyEvaluator)"
  "next_agent PolicyEvaluator st =
     (if cd_outcome (de_decision (is_event st)) = ''HOLD'' then Some EvidenceComposer
      else if cd_outcome (de_decision (is_event st)) = ''PASS'' \<and>
              (case is_enriched st of None \<Rightarrow> False
               | Some ed \<Rightarrow> ed_session_risk_score ed > RISK_THRESHOLD) then Some AnomalyDetector
      else None)"
  "next_agent AnomalyDetector st = (if high_anomaly st then Some IncidentEscalator else None)"
  by (auto simp: edge_def route_after_supervisor_def route_after_policy_evaluator_def
      route_after_anomaly_detector_def high_anomaly_def split: option.splits)

declare next_agent.simps(1-3) [simp del]

text \<open>How many more agents can run after one.\<close>

fun depth :: "agent \<Rightarrow> nat" where
  "depth Supervisor = 4"
| "depth PolicyEvaluator = 3"
| "depth AnomalyDetector = 2"
| "depth EvidenceComposer = 1"
| "depth IncidentEscalator = 1"

lemma next_agent_depth: "next_agent a st = Some b \<Longrightarrow> depth b < depth a"
  by (cases a) (auto split: if_splits)

lemma depth_pos: "0 < depth a"
  by (cases a) auto

lemma run_from_fuel: "depth a \<le> n \<Longrightarrow> run_from E (n + k) a st w = run_from E n a st w"
proof (induction n arbitrary: a st w)
  case 0 then show ?case using depth_pos [of a] by simp
next
  case (Suc n)
  have "run_from E (n + k) b st' w' = run_from E n b st' w'" if "next_agent a st' = Some b" for b st' w'
    using Suc.IH Suc.prems next_agent_depth [OF that] by simp
  then show ?case by (auto simp: cbind_def split: prod.splits sum.splits option.splits)
qed

text \<open>A run visits a prefix of the route its state ends on.\<close>

definition visit :: "'s cp_env \<Rightarrow> agent \<Rightarrow> interpose_state \<Rightarrow> ('s, interpose_state) cp_act" where
  "visit E a st w = run_agent E a st (w\<lparr>cw_visits := cw_visits w @ [a]\<rparr>)"

lemma run_from_Suc:
  "run_from E (Suc n) a st = cbind (visit E a st) (\<lambda>st'.
     (case next_agent a st' of None \<Rightarrow> cret st' | Some b \<Rightarrow> run_from E n b st'))"
  by (simp add: visit_def [abs_def])

lemma visit_visits: "cw_visits (snd (visit E a st w)) = cw_visits w @ [a]"
  using agent_keeps_visits [of E a st] by (simp add: visit_def keeps_field_def)

lemma visit_field:
  assumes "keeps_field f (run_agent E a st)" and "\<And>w vs. f (w\<lparr>cw_visits := vs\<rparr>) = f w"
  shows "keeps_field f (visit E a st)"
  using assms by (simp add: keeps_field_def visit_def)


text \<open>The route of a run, read off the state it ends with.\<close>

definition route_for :: "interpose_state \<Rightarrow> agent list" where
  "route_for st =
     (if cd_outcome (de_decision (is_event st)) = ''DENY'' then [Supervisor, IncidentEscalator]
      else if cd_outcome (de_decision (is_event st)) = ''HOLD''
      then [Supervisor, PolicyEvaluator, EvidenceComposer]
      else if cd_outcome (de_decision (is_event st)) = ''PASS'' \<and>
              (case is_enriched st of None \<Rightarrow> False
               | Some ed \<Rightarrow> ed_session_risk_score ed > RISK_THRESHOLD)
      then [Supervisor, PolicyEvaluator, AnomalyDetector] @
             (if high_anomaly st then [IncidentEscalator] else [])
      else [Supervisor, PolicyEvaluator])"

lemma visit_Inr:
  assumes "visit E a st w = (Inr st', w')"
  shows "cw_visits w' = cw_visits w @ [a]" "is_event st' = is_event st"
    "run_agent E a st (w\<lparr>cw_visits := cw_visits w @ [a]\<rparr>) = (Inr st', w')"
  using assms visit_visits [of E a st w] agent_result_event [of E a st _ st' w'] by (auto simp: visit_def)

lemma visit_Inl:
  assumes "visit E a st w = (Inl e, w')"
  shows "cw_visits w' = cw_visits w @ [a]"
  using assms visit_visits [of E a st w] by simp

lemma visit_supervisor: "visit E Supervisor st w = (Inr st, w\<lparr>cw_visits := cw_visits w @ [Supervisor]\<rparr>)"
  by (simp add: visit_def supervisor_node_def)

lemma run_graph_four: "run_graph E ev w = run_from E 4 Supervisor (initial_state ev) w"
  using run_from_fuel [of Supervisor 4 E 21 "initial_state ev" w]
  by (simp add: run_graph_def RECURSION_LIMIT_def)

lemma four: "(4::nat) = Suc (Suc (Suc (Suc 0)))" by simp

text \<open>A run, agent by agent.\<close>

lemma run_graph_deny:
  assumes "cd_outcome (de_decision ev) = ''DENY''"
  shows "run_graph E ev w =
    visit E IncidentEscalator (initial_state ev) (w\<lparr>cw_visits := cw_visits w @ [Supervisor]\<rparr>)"
  unfolding run_graph_four four run_from_Suc
  using assms
  by (auto simp: cbind_def visit_supervisor initial_state_def cret_def split: prod.splits sum.splits)

lemma run_graph_other:
  assumes "cd_outcome (de_decision ev) \<noteq> ''DENY''"
  shows "run_graph E ev w =
    cbind (visit E PolicyEvaluator (initial_state ev)) (\<lambda>st.
      (case next_agent PolicyEvaluator st of None \<Rightarrow> cret st | Some b \<Rightarrow>
         cbind (visit E b st) (\<lambda>st'. (case next_agent b st' of None \<Rightarrow> cret st' | Some c \<Rightarrow>
           visit E c st'))))
      (w\<lparr>cw_visits := cw_visits w @ [Supervisor]\<rparr>)"
proof -
  have last: "cbind (visit E c st') (\<lambda>st'a. case next_agent c st'a of None \<Rightarrow> cret st'a
      | Some x \<Rightarrow> run_from E 0 x st'a) = visit E c st'"
    if "next_agent b st' = Some c" "b \<in> {AnomalyDetector, EvidenceComposer}" for b c :: agent and st'
    using that by (auto simp: cbind_def fun_eq_iff cret_def split: if_splits prod.splits sum.splits)
  have ad: "b \<in> {AnomalyDetector, EvidenceComposer}" if "next_agent PolicyEvaluator st = Some b" for b st
    using that by (auto split: if_splits)
  show ?thesis
    unfolding run_graph_four four run_from_Suc
    using assms
    by (auto simp: cbind_def visit_supervisor initial_state_def last fun_eq_iff
        split: prod.splits sum.splits option.splits dest: ad)
qed

lemma policy_evaluator_state:
  assumes "run_agent E PolicyEvaluator st w = (Inr st', w')"
  obtains ed where "st' = st\<lparr>is_enriched := Some ed\<rparr>"
  using assms by (auto elim: policy_evaluator_result)

text \<open>The shapes of a run. \<open>enriched_state ev ed\<close> is the state after the policy evaluator.\<close>

definition enriched_state :: "decision_event \<Rightarrow> enriched_decision \<Rightarrow> interpose_state" where
  "enriched_state ev ed = (initial_state ev)\<lparr>is_enriched := Some ed\<rparr>"

lemma enriched_state_simps [simp]:
  "is_event (enriched_state ev ed) = ev" "is_enriched (enriched_state ev ed) = Some ed"
  "is_anomaly (enriched_state ev ed) = None" "is_hitl_packet (enriched_state ev ed) = None"
  "is_incident (enriched_state ev ed) = None"
  by (simp_all add: enriched_state_def initial_state_def)

lemma initial_state_simps [simp]:
  "is_event (initial_state ev) = ev" "is_enriched (initial_state ev) = None"
  "is_anomaly (initial_state ev) = None" "is_hitl_packet (initial_state ev) = None"
  "is_incident (initial_state ev) = None"
  by (simp_all add: initial_state_def)

lemma run_graph_cases:
  assumes run: "run_graph E ev w = (r, w')"
  obtains
    (deny) v where "cd_outcome (de_decision ev) = ''DENY''" "v = w\<lparr>cw_visits := cw_visits w @ [Supervisor]\<rparr>"
      "visit E IncidentEscalator (initial_state ev) v = (r, w')"
  | (failed) v e where "cd_outcome (de_decision ev) \<noteq> ''DENY''" "v = w\<lparr>cw_visits := cw_visits w @ [Supervisor]\<rparr>"
      "visit E PolicyEvaluator (initial_state ev) v = (Inl e, w')" "r = Inl e"
  | (stop) v ed where "cd_outcome (de_decision ev) \<noteq> ''DENY''" "v = w\<lparr>cw_visits := cw_visits w @ [Supervisor]\<rparr>"
      "visit E PolicyEvaluator (initial_state ev) v = (Inr (enriched_state ev ed), w')"
      "next_agent PolicyEvaluator (enriched_state ev ed) = None" "r = Inr (enriched_state ev ed)"
  | (go) v ed b w1 where "cd_outcome (de_decision ev) \<noteq> ''DENY''" "v = w\<lparr>cw_visits := cw_visits w @ [Supervisor]\<rparr>"
      "visit E PolicyEvaluator (initial_state ev) v = (Inr (enriched_state ev ed), w1)"
      "next_agent PolicyEvaluator (enriched_state ev ed) = Some b"
      "visit E b (enriched_state ev ed) w1 = (r, w')"
      "case r of Inl e \<Rightarrow> True | Inr st \<Rightarrow> next_agent b st = None"
  | (escalate) v ed w1 st2 w2 where "cd_outcome (de_decision ev) = ''PASS''"
      "v = w\<lparr>cw_visits := cw_visits w @ [Supervisor]\<rparr>"
      "visit E PolicyEvaluator (initial_state ev) v = (Inr (enriched_state ev ed), w1)"
      "next_agent PolicyEvaluator (enriched_state ev ed) = Some AnomalyDetector"
      "visit E AnomalyDetector (enriched_state ev ed) w1 = (Inr st2, w2)" "high_anomaly st2"
      "visit E IncidentEscalator st2 w2 = (r, w')"
proof (cases "cd_outcome (de_decision ev) = ''DENY''")
  case True
  with run [unfolded run_graph_deny [OF True]] show ?thesis by (auto intro: deny)
next
  case False
  obtain r1 w1 where v1: "visit E PolicyEvaluator (initial_state ev)
      (w\<lparr>cw_visits := cw_visits w @ [Supervisor]\<rparr>) = (r1, w1)" by (rule prod.exhaust)
  show ?thesis
  proof (cases r1)
    case (Inl e)
    with run [unfolded run_graph_other [OF False]] v1 False show ?thesis
      by (auto simp: cbind_def intro: failed)
  next
    case (Inr st1)
    with v1 obtain ed where st1: "st1 = enriched_state ev ed"
      using visit_Inr(3) policy_evaluator_state unfolding enriched_state_def by metis
    note v1 = v1 [unfolded Inr st1]
    have r1: "(case next_agent PolicyEvaluator (enriched_state ev ed) of None \<Rightarrow> cret (enriched_state ev ed)
        | Some b \<Rightarrow> cbind (visit E b (enriched_state ev ed)) (\<lambda>st'. (case next_agent b st' of None \<Rightarrow> cret st'
           | Some c \<Rightarrow> visit E c st'))) w1 = (r, w')"
      using run [unfolded run_graph_other [OF False]] v1 by (simp add: cbind_def)
    show ?thesis
    proof (cases "next_agent PolicyEvaluator (enriched_state ev ed)")
      case None with r1 v1 False show ?thesis by (auto intro: stop)
    next
      case (Some b)
      obtain r2 w2 where v2: "visit E b (enriched_state ev ed) w1 = (r2, w2)" by (rule prod.exhaust)
      from Some have b: "b = EvidenceComposer \<or>
          b = AnomalyDetector \<and> cd_outcome (de_decision ev) = ''PASS''" by (auto split: if_splits)
      show ?thesis
      proof (cases "case r2 of Inl e \<Rightarrow> True | Inr st \<Rightarrow> next_agent b st = None")
        case True
        with r1 Some v2 have "r2 = r \<and> w2 = w'" by (auto simp: cbind_def cret_def split: sum.splits)
        with go [OF False refl v1 Some] v2 True show ?thesis by blast
      next
        case False
        then obtain st2 where r2: "r2 = Inr st2" "next_agent b st2 \<noteq> None" by (cases r2) auto
        with b have "b = AnomalyDetector" "cd_outcome (de_decision ev) = ''PASS''" "high_anomaly st2"
          by (auto split: if_splits)
        with r1 Some v2 r2 escalate [OF _ refl v1] show ?thesis by (auto simp: cbind_def)
      qed
    qed
  qed
qed

text \<open>What a run that ends without exception has filled in.\<close>

lemma anomaly_detector_visit:
  assumes "visit E AnomalyDetector st w = (Inr st', w')"
  shows "st' = st \<or> (\<exists>an. st' = st\<lparr>is_anomaly := Some an\<rparr>)"
  using visit_Inr(3) [OF assms] by (auto dest: anomaly_detector_result)

lemma evidence_composer_visit:
  assumes "visit E EvidenceComposer st w = (Inr st', w')"
  shows "\<exists>p. st' = st\<lparr>is_hitl_packet := Some p\<rparr>"
  using visit_Inr(3) [OF assms] by (auto elim: evidence_composer_result)

lemma incident_escalator_visit:
  assumes "visit E IncidentEscalator st w = (Inr st', w')"
  shows "st' = st \<or> (\<exists>i. st' = st\<lparr>is_incident := Some i\<rparr>)"
  using visit_Inr(3) [OF assms] by (auto dest!: incident_escalator_result)

lemma run_graph_result:
  assumes run: "run_graph E ev w = (Inr st, w')"
  shows "is_event st = ev \<and> cw_visits w' = cw_visits w @ route_for st \<and>
    (is_enriched st \<noteq> None \<longleftrightarrow> PolicyEvaluator \<in> set (route_for st)) \<and>
    (is_hitl_packet st \<noteq> None \<longleftrightarrow> EvidenceComposer \<in> set (route_for st)) \<and>
    (is_anomaly st \<noteq> None \<longrightarrow> AnomalyDetector \<in> set (route_for st)) \<and>
    (is_incident st \<noteq> None \<longrightarrow> IncidentEscalator \<in> set (route_for st))"
  using run
proof (cases rule: run_graph_cases)
  case (deny v)
  then show ?thesis using visit_Inr(1) [OF deny(3)] incident_escalator_visit [OF deny(3)]
    by (auto simp: route_for_def)
next
  case (stop v ed)
  then show ?thesis using visit_Inr(1) [OF stop(3)] by (auto simp: route_for_def split: if_splits)
next
  case (go v ed b w1)
  note vs = visit_Inr(1) [OF go(3)] visit_Inr(1) [OF go(5)]
  from go(4) consider (hold) "b = EvidenceComposer" "cd_outcome (de_decision ev) = ''HOLD''"
    | (pass) "b = AnomalyDetector" "cd_outcome (de_decision ev) = ''PASS''" "ed_session_risk_score ed > RISK_THRESHOLD"
    by (auto split: if_splits)
  then show ?thesis
  proof cases
    case hold
    with vs go show ?thesis using evidence_composer_visit [OF go(5) [unfolded hold(1)]]
      by (auto simp: route_for_def)
  next
    case pass
    with vs go show ?thesis using anomaly_detector_visit [OF go(5) [unfolded pass(1)]]
      by (auto simp: route_for_def split: if_splits)
  qed
next
  case (escalate v ed w1 st2 w2)
  note vs = visit_Inr(1) [OF escalate(3)] visit_Inr(1) [OF escalate(5)] visit_Inr(1) [OF escalate(7)]
  have "high_anomaly st"
    using incident_escalator_visit [OF escalate(7)] escalate(6) by (auto simp: high_anomaly_def)
  with vs escalate anomaly_detector_visit [OF escalate(5)] incident_escalator_visit [OF escalate(7)]
  show ?thesis by (auto simp: route_for_def split: if_splits)
qed simp

section \<open>What the agents raise\<close>

text \<open>The faults of the environment: database, Redis, and what the language model raises beside
  its own error.\<close>

definition cp_fault :: "'s cp_env \<Rightarrow> exn \<Rightarrow> bool" where
  "cp_fault E e \<longleftrightarrow> (\<exists>n. ce_db E n = Some e) \<or> (\<exists>ops s s'. rd_exec (ce_redis E) ops s = (Inl e, s')) \<or>
     exn_kind e \<noteq> LLMErr \<and>
       ((\<exists>n flag. ce_describe E n flag = Inl e) \<or> (\<exists>n st se. ce_compose E n st se = Inl e) \<or>
        (\<exists>n st rule. ce_narrate E n st rule = Inl e))"

definition raises_faults :: "'s cp_env \<Rightarrow> ('s, 'a) cp_act \<Rightarrow> bool" where
  "raises_faults E m \<longleftrightarrow> (\<forall>w e w'. m w = (Inl e, w') \<longrightarrow> cp_fault E e)"

named_theorems cp_raises

lemma raises_cret [cp_raises]: "raises_faults E (cret a)"
  by (simp add: raises_faults_def)

lemma raises_cbind [cp_raises]:
  "raises_faults E m \<Longrightarrow> (\<And>a. raises_faults E (k a)) \<Longrightarrow> raises_faults E (cbind m k)"
  unfolding raises_faults_def cbind_def by (fastforce split: prod.splits sum.splits)

lemma raises_cdraw [cp_raises]: "raises_faults E (cdraw g)"
  by (simp add: raises_faults_def cdraw_def)

lemma raises_query [cp_raises]: "raises_faults E (query E g)"
  by (auto simp: raises_faults_def query_def cp_fault_def split: option.splits)

lemma raises_persist [cp_raises]: "raises_faults E (persist E g)"
  by (auto simp: raises_faults_def persist_def cp_fault_def split: option.splits)

lemma raises_bucket_counts [cp_raises]: "raises_faults E (bucket_counts E ev is)"
  by (induction "is") (auto intro!: cp_raises)

lemma raises_record_session_risk_score [cp_raises]:
  "raises_faults E (record_session_risk_score E ev risk)"
  unfolding record_session_risk_score_def
  by (rule raises_cbind [OF raises_cdraw])
    (auto simp: raises_faults_def cp_fault_def split: prod.splits)

lemma raises_describe [cp_raises]: "raises_faults E (describe_high_severity_anomaly E flag)"
  by (auto simp: raises_faults_def describe_high_severity_anomaly_def cp_fault_def
      split: sum.splits if_splits)

lemma raises_compose_hitl:
  "is_enriched st \<noteq> None \<Longrightarrow> raises_faults E (compose_hitl_narrative E st ev)"
  by (auto simp: raises_faults_def compose_hitl_narrative_def cp_fault_def split: sum.splits if_splits)

lemma raises_compose_incident [cp_raises]: "raises_faults E (compose_incident_narrative E st rule)"
  by (auto simp: raises_faults_def compose_incident_narrative_def cp_fault_def
      split: sum.splits if_splits)

lemma agent_raises:
  assumes "a = EvidenceComposer \<longrightarrow> de_hitl_ticket_id (is_event st) \<noteq> None \<and> is_enriched st \<noteq> None"
  shows "raises_faults E (run_agent E a st)"
  using assms
  by (cases a) (auto simp: node_defs intro!: cp_raises raises_compose_hitl split: option.splits)

lemma visit_raises: "raises_faults E (run_agent E a st) \<Longrightarrow> raises_faults E (visit E a st)"
  by (simp add: raises_faults_def visit_def)

text \<open>Only faults of the environment escape the graph, on an event whose hold names its ticket.\<close>

lemma run_graph_raises:
  assumes ticket: "cd_outcome (de_decision ev) = ''HOLD'' \<longrightarrow> de_hitl_ticket_id ev \<noteq> None"
    and run: "run_graph E ev w = (Inl e, w')"
  shows "cp_fault E e"
proof -
  have visits: "cp_fault E e" if "visit E a st v = (Inl e, v')"
    "a = EvidenceComposer \<longrightarrow> de_hitl_ticket_id (is_event st) \<noteq> None \<and> is_enriched st \<noteq> None" for a st v v'
    using visit_raises [OF agent_raises [OF that(2)]] that(1) by (auto simp: raises_faults_def)
  from run show ?thesis
  proof (cases rule: run_graph_cases)
    case (go v ed b w1)
    with ticket show ?thesis by (auto split: if_splits intro: visits)
  qed (auto intro: visits)
qed

section \<open>Incidents\<close>

lemma visit_keeps_incidents:
  "a \<noteq> IncidentEscalator \<Longrightarrow> keeps_field cw_incidents (visit E a st)"
  by (rule visit_field [OF agent_keeps_incidents]) auto

lemma visit_incidents:
  assumes "visit E IncidentEscalator st w = (Inr st', w')"
  shows "st' = st \<and> cw_incidents w' = cw_incidents w \<or>
    (\<exists>n rule i r. should_promote st n = Some rule \<and> st' = st\<lparr>is_incident := Some i\<rparr> \<and>
       cw_incidents w' = cw_incidents w @ [r] \<and> ir_id r = in_incident_id i \<and> incident_of st rule r)"
  using incident_escalator_result [of E st _ st' w'] visit_Inr(3) [OF assms] by fastforce

lemma incident_escalator_failed:
  assumes "run_agent E IncidentEscalator st w = (Inl e, w')"
  shows "cw_incidents w' = cw_incidents w"
proof -
  have k: "keeps_field cw_incidents (compose_incident_narrative E st rule)" for rule
    by (auto intro!: res_keeps)
  have q: "keeps_field cw_incidents (compute_incident_signals E a t)" for a t
    by (auto simp: compute_incident_signals_def intro!: res_keeps)
  from assms show ?thesis
    by (auto simp: incident_escalator_node_def cbind_Inl Let_def cdraw_def cret_def persist_incident_def
        persist_def dest!: keeps_fieldD [OF k] keeps_fieldD [OF q] split: option.splits)
qed

text \<open>Repeated denials and severe anomalies promote; the rule for risky pending holds is never met,
  as the escalator never runs on a hold.\<close>

definition promotes :: "decision_event \<Rightarrow> incident_record list \<Rightarrow> incident_record list \<Rightarrow> bool" where
  "promotes ev is js \<longleftrightarrow> js = is \<or>
     (\<exists>st rule i. is_event st = ev \<and> js = is @ [i] \<and> incident_of st rule i \<and>
        rule \<in> {''repeated_denials'', ''high_severity_anomaly''} \<and>
        cd_outcome (de_decision ev) \<noteq> ''HOLD'')"

lemma escalator_promotes:
  assumes v: "visit E IncidentEscalator st w = (r, w')"
    and h: "cd_outcome (de_decision (is_event st)) \<noteq> ''HOLD''"
  shows "promotes (is_event st) (cw_incidents w) (cw_incidents w')"
proof (cases r)
  case (Inl x)
  with v incident_escalator_failed [of E st _ x w'] show ?thesis by (auto simp: visit_def promotes_def)
next
  case (Inr st')
  show ?thesis
    using visit_incidents [OF v [unfolded Inr]]
  proof (elim disjE exE conjE)
    fix n rule i rr
    assume "should_promote st n = Some rule" "cw_incidents w' = cw_incidents w @ [rr]"
      "incident_of st rule rr"
    then show ?thesis
      using h by (fastforce simp: promotes_def should_promote_def split: if_splits option.splits)
  qed (simp add: promotes_def)
qed

lemma run_graph_incidents:
  assumes "run_graph E ev w = (r, w')"
  shows "promotes ev (cw_incidents w) (cw_incidents w')"
proof -
  have keep: "cw_incidents v' = cw_incidents v" if "visit E a st v = (r, v')" "a \<noteq> IncidentEscalator"
    for a st v r v'
    using visit_keeps_incidents [OF that(2)] that(1) unfolding keeps_field_def by (metis snd_conv)
  from assms show ?thesis
  proof (cases rule: run_graph_cases)
    case (deny v)
    with escalator_promotes [OF deny(3)] show ?thesis by simp
  next
    case (failed v e)
    with keep [OF failed(3)] show ?thesis by (simp add: promotes_def)
  next
    case (stop v ed)
    with keep [OF stop(3)] show ?thesis by (simp add: promotes_def)
  next
    case (go v ed b w1)
    then have "b \<noteq> IncidentEscalator" by (auto split: if_splits)
    with keep [OF go(3)] keep [OF go(5)] go(2) show ?thesis by (simp add: promotes_def)
  next
    case (escalate v ed w1 st2 w2)
    have "is_event st2 = ev" using visit_Inr(2) [OF escalate(5)] by simp
    with escalator_promotes [OF escalate(7)] keep [OF escalate(3)] keep [OF escalate(5)] escalate(1,2)
    show ?thesis by simp
  qed
qed

text \<open>A third denial of the agent in fifteen minutes is recorded as an incident, the language model
  or its fallback writing the narrative.\<close>

lemma denied_event_promoted:
  assumes deny: "cd_outcome (de_decision ev) = ''DENY''"
    and db: "\<forall>n. ce_db E n = None"
    and llm: "\<forall>n st rule e. ce_narrate E n st rule = Inl e \<longrightarrow> exn_kind e = LLMErr"
    and three: "count_where (recent_denial (de_agent_id ev) (de_timestamp ev)) (ce_rows E (cw_n w)) \<ge> 3"
  shows "\<exists>st w' i. run_graph E ev w = (Inr st, w') \<and> cw_incidents w' = cw_incidents w @ [i] \<and>
    incident_of (initial_state ev) ''repeated_denials'' i \<and> is_incident st \<noteq> None"
proof -
  let ?st = "initial_state ev"
  let ?v = "w\<lparr>cw_visits := cw_visits w @ [Supervisor, IncidentEscalator]\<rparr>"
  let ?n = "count_where (recent_denial (de_agent_id ev) (de_timestamp ev)) (ce_rows E (cw_n w))"
  have q: "compute_incident_signals E (de_agent_id ev) (de_timestamp ev) ?v = (Inr ?n, ctick ?v)"
    using db by (simp add: compute_incident_signals_def query_def)
  have p: "should_promote ?st ?n = Some ''repeated_denials''"
    using three by (simp add: should_promote_def REPEATED_DENIALS_THRESHOLD_def)
  obtain out where o: "compose_incident_narrative E ?st ''repeated_denials'' (ctick ?v) = (Inr out, ctick (ctick ?v))"
    using llm by (cases "ce_narrate E (Suc (cw_n w)) ?st ''repeated_denials''")
      (auto simp: compose_incident_narrative_def)
  show ?thesis
    unfolding run_graph_deny [OF deny]
    using db q p o
    by (simp add: visit_def incident_escalator_node_def cbind_def Let_def cdraw_def cret_def
        persist_incident_def persist_def incident_of_def)
qed

section \<open>The loop over events\<close>

definition event_key :: "decision_event \<Rightarrow> string \<times> int" where
  "event_key ev = (de_trace_id ev, de_audit_id ev)"

lemma visit_keeps_errors: "keeps_field cw_errors (visit E a st)"
  by (rule visit_field [OF agent_keeps_errors]) auto

lemma visit_starts: "cw_visits (snd (visit E a st w)) = cw_visits w @ [a]"
  by (rule visit_visits)

lemma run_graph_visits:
  assumes "run_graph E ev w = (r, w')"
  shows "\<exists>bs. cw_visits w' = cw_visits w @ Supervisor # bs \<and> Supervisor \<notin> set bs \<and> length bs \<le> 3"
    and "cw_errors w' = cw_errors w"
proof -
  have v: "cw_visits v' = cw_visits v @ [a]" "cw_errors v' = cw_errors v"
    if "visit E a st v = (r, v')" for a st v r v'
    using visit_visits [of E a st v] visit_keeps_errors [of E a st] that
    by (auto simp: keeps_field_def) (metis snd_conv)
  have "(\<exists>bs. cw_visits w' = cw_visits w @ Supervisor # bs \<and> Supervisor \<notin> set bs \<and> length bs \<le> 3) \<and>
      cw_errors w' = cw_errors w"
    using assms
  proof (cases rule: run_graph_cases)
    case (deny u) with v [OF deny(3)] show ?thesis by simp
  next
    case (failed u e) with v [OF failed(3)] show ?thesis by simp
  next
    case (stop u ed) with v [OF stop(3)] show ?thesis by simp
  next
    case (go u ed b w1)
    then have "b \<noteq> Supervisor" by (auto split: if_splits)
    with go(2) v [OF go(3)] v [OF go(5)] show ?thesis by simp
  next
    case (escalate u ed w1 st2 w2)
    with v [OF escalate(3)] v [OF escalate(5)] v [OF escalate(7)] show ?thesis by simp
  qed
  then show "\<exists>bs. cw_visits w' = cw_visits w @ Supervisor # bs \<and> Supervisor \<notin> set bs \<and> length bs \<le> 3"
    and "cw_errors w' = cw_errors w" by blast+
qed

text \<open>One round of the loop.\<close>

lemma run_events_Cons:
  obtains r w1 where "run_graph E ev w = (r, w1)"
    "run_events E (ev # evs) w = run_events E evs (case r of Inr st \<Rightarrow> w1
       | Inl e \<Rightarrow> w1\<lparr>cw_errors := cw_errors w1 @ [event_key ev]\<rparr>)"
  by (cases "run_graph E ev w") (auto simp: event_key_def split: sum.split)

lemma run_events_errors:
  "\<exists>fs. subseq fs evs \<and> cw_errors (run_events E evs w) = cw_errors w @ map event_key fs"
proof (induction evs arbitrary: w)
  case (Cons ev evs)
  obtain r w1 where g: "run_graph E ev w = (r, w1)" and
    e: "run_events E (ev # evs) w = run_events E evs (case r of Inr st \<Rightarrow> w1
       | Inl e \<Rightarrow> w1\<lparr>cw_errors := cw_errors w1 @ [event_key ev]\<rparr>)" (is "_ = run_events E evs ?v")
    by (rule run_events_Cons)
  obtain fs where fs: "subseq fs evs" "cw_errors (run_events E evs ?v) = cw_errors ?v @ map event_key fs"
    using Cons.IH by blast
  show ?case
  proof (cases r)
    case (Inl x)
    with e fs run_graph_visits(2) [OF g] show ?thesis by (intro exI [of _ "ev # fs"]) simp
  next
    case (Inr st)
    with e fs run_graph_visits(2) [OF g] show ?thesis by (intro exI [of _ fs]) (simp add: list_emb_Cons)
  qed
qed simp

lemma run_events_rounds:
  "count_list (cw_visits (run_events E evs w)) Supervisor = count_list (cw_visits w) Supervisor + length evs"
proof (induction evs arbitrary: w)
  case (Cons ev evs)
  obtain r w1 where g: "run_graph E ev w = (r, w1)" and
    e: "run_events E (ev # evs) w = run_events E evs (case r of Inr st \<Rightarrow> w1
       | Inl e \<Rightarrow> w1\<lparr>cw_errors := cw_errors w1 @ [event_key ev]\<rparr>)" (is "_ = run_events E evs ?v")
    by (rule run_events_Cons)
  have "count_list (cw_visits w1) Supervisor = count_list (cw_visits w) Supervisor + 1"
    using run_graph_visits(1) [OF g] by (auto simp: count_list_append count_notin)
  with Cons.IH [of ?v] show ?case unfolding e by (simp split: sum.split)
qed simp

lemma run_events_incidents:
  "\<exists>is. cw_incidents (run_events E evs w) = cw_incidents w @ is \<and>
     subseq (map ir_related_events is) (map (\<lambda>ev. [de_audit_id ev]) evs) \<and>
     set (map ir_promotion_rule is) \<subseteq> {''repeated_denials'', ''high_severity_anomaly''}"
proof (induction evs arbitrary: w)
  case (Cons ev evs)
  obtain r w1 where g: "run_graph E ev w = (r, w1)" and
    e: "run_events E (ev # evs) w = run_events E evs (case r of Inr st \<Rightarrow> w1
       | Inl e \<Rightarrow> w1\<lparr>cw_errors := cw_errors w1 @ [event_key ev]\<rparr>)" (is "_ = run_events E evs ?v")
    by (rule run_events_Cons)
  have v: "cw_incidents ?v = cw_incidents w1" by (simp split: sum.split)
  obtain "is" where i: "cw_incidents (run_events E evs ?v) = cw_incidents w1 @ is"
    "subseq (map ir_related_events is) (map (\<lambda>ev. [de_audit_id ev]) evs)"
    "set (map ir_promotion_rule is) \<subseteq> {''repeated_denials'', ''high_severity_anomaly''}"
    using Cons.IH [of ?v] unfolding v by blast
  from run_graph_incidents [OF g] consider "cw_incidents w1 = cw_incidents w"
    | st rule j where "is_event st = ev" "cw_incidents w1 = cw_incidents w @ [j]" "incident_of st rule j"
      "rule \<in> {''repeated_denials'', ''high_severity_anomaly''}"
    unfolding promotes_def by blast
  then show ?case
  proof cases
    case 1
    with i e show ?thesis by (intro exI [of _ "is"]) (auto simp: list_emb_Cons)
  next
    case 2
    with i e show ?thesis by (intro exI [of _ "j # is"]) (auto simp: incident_of_def)
  qed
qed simp

end
