(* ===== verification/ControlPlaneScores.thy ===== *)
theory ControlPlaneScores
  imports ControlPlane
begin

text \<open>
  The numbers of the control plane: the risk score is bounded and monotone, and the z-score test of
  the anomaly detector is decided by integer arithmetic on the bucket counts.
\<close>

section \<open>Scores\<close>

definition features_le :: "features \<Rightarrow> features \<Rightarrow> bool" where
  "features_le f g \<longleftrightarrow> ft_calls_per_minute f \<le> ft_calls_per_minute g \<and>
     ft_denial_count f \<le> ft_denial_count g \<and> ft_hitl_ticket_count f \<le> ft_hitl_ticket_count g"

lemma risk_score_mono: "features_le f g \<Longrightarrow> compute_session_risk_score f \<le> compute_session_risk_score g"
  unfolding compute_session_risk_score_def features_le_def Let_def
  by (intro max.mono min.mono add_mono mult_left_mono) auto

lemma risk_score_range: "0 \<le> compute_session_risk_score f" "compute_session_risk_score f \<le> 1"
  by (simp_all add: compute_session_risk_score_def)

text \<open>
  The z-score test without division or square root, over the counts alone: \<open>spread\<close> is the sample
  variance times \<open>n (n - 1)\<close>, \<open>deviation\<close> the distance of the current window from the mean times \<open>n\<close>.
\<close>

definition spread :: "nat list \<Rightarrow> int" where
  "spread xs = int (length xs) * int (sum_list (map (\<lambda>x. x\<^sup>2) xs)) - (int (sum_list xs))\<^sup>2"

definition deviation :: "anomaly_signals \<Rightarrow> int" where
  "deviation sg = int (length (sg_prior_window_call_counts sg)) * int (sg_current_window_calls sg)
     - int (sum_list (sg_prior_window_call_counts sg))"

definition beyond :: "int \<Rightarrow> anomaly_signals \<Rightarrow> int \<times> int" where
  "beyond k sg = (let xs = sg_prior_window_call_counts sg; n = int (length xs) in
     ((deviation sg)\<^sup>2 * (n - 1), k\<^sup>2 * n * spread xs))"

lemma sum_of_squares:
  fixes m :: real
  shows "(\<Sum>x\<leftarrow>xs. (of_nat x - m)\<^sup>2) =
    of_nat (sum_list (map (\<lambda>x. x\<^sup>2) xs)) - 2 * m * of_nat (sum_list xs) + of_nat (length xs) * m\<^sup>2"
  by (induction xs) (auto simp: power2_eq_square algebra_simps)

lemma spread_mean:
  assumes "xs \<noteq> []"
  shows "of_nat (length xs) * (\<Sum>x\<leftarrow>xs. (of_nat x - mean xs)\<^sup>2) = (of_int (spread xs) :: real)"
proof -
  let ?n = "of_nat (length xs) :: real" and ?S = "of_nat (sum_list xs) :: real"
  have m: "?n * mean xs = ?S" using assms by (simp add: mean_def)
  have "?n * (\<Sum>x\<leftarrow>xs. (of_nat x - mean xs)\<^sup>2) =
      ?n * of_nat (sum_list (map (\<lambda>x. x\<^sup>2) xs)) - 2 * (?n * mean xs) * ?S + (?n * mean xs)\<^sup>2"
    unfolding sum_of_squares by (simp add: power2_eq_square algebra_simps)
  then show ?thesis unfolding m by (simp add: spread_def power2_eq_square)
qed

lemma stdev_square:
  assumes "length xs \<ge> 2"
  shows "stdev xs \<ge> 0"
    and "(stdev xs)\<^sup>2 * (of_nat (length xs) * (of_nat (length xs) - 1)) = of_int (spread xs)"
proof -
  let ?Q = "\<Sum>x\<leftarrow>xs. (of_nat x - mean xs)\<^sup>2" and ?n = "of_nat (length xs) :: real"
  have Q: "?Q \<ge> 0" by (rule sum_list_nonneg) auto
  have n1: "of_nat (length xs - 1) = ?n - 1" using assms by (simp add: of_nat_diff)
  have pos: "?n - 1 > 0" using assms by simp
  show "stdev xs \<ge> 0" using Q by (simp add: stdev_def)
  have "(stdev xs)\<^sup>2 = ?Q / (?n - 1)" using Q unfolding stdev_def n1 using pos by simp
  then have "(stdev xs)\<^sup>2 * (?n * (?n - 1)) = ?n * ?Q" using pos by simp
  also have "\<dots> = of_int (spread xs)" using assms by (intro spread_mean) auto
  finally show "(stdev xs)\<^sup>2 * (?n * (?n - 1)) = of_int (spread xs)" .
qed

lemma zscore_beyond:
  assumes "length (sg_prior_window_call_counts sg) \<ge> 2" and k: "0 \<le> k"
    and sd: "stdev (sg_prior_window_call_counts sg) \<noteq> 0"
  shows "\<bar>(of_nat (sg_current_window_calls sg) - mean (sg_prior_window_call_counts sg)) /
      stdev (sg_prior_window_call_counts sg)\<bar> > of_int k \<longleftrightarrow> (case beyond k sg of (l, r) \<Rightarrow> l > r)"
    and "\<bar>(of_nat (sg_current_window_calls sg) - mean (sg_prior_window_call_counts sg)) /
      stdev (sg_prior_window_call_counts sg)\<bar> \<ge> of_int k \<longleftrightarrow> (case beyond k sg of (l, r) \<Rightarrow> l \<ge> r)"
proof -
  let ?xs = "sg_prior_window_call_counts sg"
  let ?n = "of_nat (length ?xs) :: real" and ?d = "of_nat (sg_current_window_calls sg) - mean ?xs"
  let ?s = "stdev ?xs" and ?f = "(of_nat (length ?xs) :: real)\<^sup>2 * (of_nat (length ?xs) - 1)"
  have "?n > 0" "?n - 1 > 0" using assms(1) by auto
  then have pos: "?s > 0" "?f > 0" using sd stdev_square(1) [of ?xs] assms(1) by auto
  have "?n * mean ?xs = of_nat (sum_list ?xs)" using assms(1) by (auto simp: mean_def)
  then have "?n * ?d = of_int (deviation sg)" by (simp add: deviation_def right_diff_distrib)
  then have l: "?d\<^sup>2 * ?f = of_int (fst (beyond k sg))"
    by (simp add: beyond_def Let_def power2_eq_square mult_ac) (metis mult.assoc mult.commute)
  have r: "(of_int k * ?s)\<^sup>2 * ?f = of_int (snd (beyond k sg))"
  proof -
    have "(of_int k * ?s)\<^sup>2 * ?f = (of_int k)\<^sup>2 * ?n * (?s\<^sup>2 * (?n * (?n - 1)))"
      by (simp add: power2_eq_square mult_ac)
    then show ?thesis unfolding stdev_square(2) [OF assms(1)] by (simp add: beyond_def Let_def)
  qed
  have abs: "\<bar>?d / ?s\<bar> = \<bar>?d\<bar> / ?s" using pos by (simp add: abs_divide)
  have "\<bar>?d / ?s\<bar> > of_int k \<longleftrightarrow> of_int k * ?s < \<bar>?d\<bar>" unfolding abs using pos by (simp add: pos_less_divide_eq)
  also have "\<dots> \<longleftrightarrow> (of_int k * ?s)\<^sup>2 < ?d\<^sup>2" using k pos abs_le_square_iff [of ?d "of_int k * ?s"] by auto
  also have "\<dots> \<longleftrightarrow> (of_int k * ?s)\<^sup>2 * ?f < ?d\<^sup>2 * ?f" using pos by (simp add: mult_less_cancel_right_pos)
  finally show "\<bar>?d / ?s\<bar> > of_int k \<longleftrightarrow> (case beyond k sg of (l, r) \<Rightarrow> l > r)"
    unfolding l r by (simp add: case_prod_beta)
  have "\<bar>?d / ?s\<bar> \<ge> of_int k \<longleftrightarrow> of_int k * ?s \<le> \<bar>?d\<bar>" unfolding abs using pos by (simp add: pos_le_divide_eq)
  also have "\<dots> \<longleftrightarrow> (of_int k * ?s)\<^sup>2 \<le> ?d\<^sup>2" using k pos abs_le_square_iff [of "of_int k * ?s" ?d] by simp
  also have "\<dots> \<longleftrightarrow> (of_int k * ?s)\<^sup>2 * ?f \<le> ?d\<^sup>2 * ?f" using pos by (simp add: mult_le_cancel_right_pos)
  finally show "\<bar>?d / ?s\<bar> \<ge> of_int k \<longleftrightarrow> (case beyond k sg of (l, r) \<Rightarrow> l \<ge> r)"
    unfolding l r by (simp add: case_prod_beta)
qed

lemma stdev_zero_iff: "length xs \<ge> 2 \<Longrightarrow> stdev xs = 0 \<longleftrightarrow> spread xs = 0"
proof -
  assume l: "length xs \<ge> 2"
  then have "(of_nat (length xs) * (of_nat (length xs) - 1) :: real) \<noteq> 0" by auto
  then have "stdev xs = 0 \<longleftrightarrow> of_int (spread xs) = (0 :: real)"
    unfolding stdev_square(2) [OF l, symmetric] by simp
  then show ?thesis by simp
qed

text \<open>What the detector decides, over the counts.\<close>

definition far :: "int \<Rightarrow> anomaly_signals \<Rightarrow> bool" where
  "far k sg \<longleftrightarrow> length (sg_prior_window_call_counts sg) \<ge> 3 \<and>
     spread (sg_prior_window_call_counts sg) \<noteq> 0 \<and> (case beyond k sg of (l, r) \<Rightarrow> l > r)"

definition very_far :: "anomaly_signals \<Rightarrow> bool" where
  "very_far sg \<longleftrightarrow> (case beyond 5 sg of (l, r) \<Rightarrow> l \<ge> r)"

lemma detect_anomaly_cases:
  "map_option (\<lambda>f. (af_anomaly_type f, af_severity f)) (detect_anomaly sg ev) =
    (if far 3 sg then Some (''rate_spike'', if very_far sg then ''high'' else ''med'')
     else if sg_denials_last_15_min sg \<ge> 3
     then Some (''repeated_denials'', if sg_denials_last_15_min sg \<ge> 5 then ''high'' else ''med'')
     else None)"
proof (cases "length (sg_prior_window_call_counts sg) \<ge> 3 \<and> spread (sg_prior_window_call_counts sg) \<noteq> 0")
  case True
  then have sd: "stdev (sg_prior_window_call_counts sg) \<noteq> 0" by (simp add: stdev_zero_iff)
  note z = zscore_beyond [OF _ _ sd, of 3] zscore_beyond [OF _ _ sd, of 5]
  from True sd z show ?thesis
    by (simp add: detect_anomaly_def compute_rate_zscore_def far_def very_far_def Let_def
        MIN_WINDOWS_FOR_ZSCORE_def ZSCORE_FLAG_THRESHOLD_def ZSCORE_HIGH_SEVERITY_THRESHOLD_def
        REPEATED_DENIALS_THRESHOLD_def REPEATED_DENIALS_HIGH_SEVERITY_THRESHOLD_def)
next
  case False
  then have "compute_rate_zscore sg = None"
    by (auto simp: compute_rate_zscore_def Let_def MIN_WINDOWS_FOR_ZSCORE_def stdev_zero_iff)
  with False show ?thesis
    by (auto simp: detect_anomaly_def far_def Let_def REPEATED_DENIALS_THRESHOLD_def
        REPEATED_DENIALS_HIGH_SEVERITY_THRESHOLD_def)
qed

end
