(* ===== verification/Gateway.thy ===== *)
theory Gateway
  imports GatewayBase
begin

text \<open>
  \<open>gateway/app.py\<close> and \<open>gateway/routing.py\<close>: the request lifecycle, from the HTTP request to
  the reply, as actions on the world.
\<close>

definition POLICY_DENIED_ERROR_CODE :: int where "POLICY_DENIED_ERROR_CODE = -32001"
definition UPSTREAM_ERROR_CODE :: int where "UPSTREAM_ERROR_CODE = -32002"
definition HITL_DENIED_ERROR_CODE :: int where "HITL_DENIED_ERROR_CODE = -32003"
definition HITL_TIMEOUT_ERROR_CODE :: int where "HITL_TIMEOUT_ERROR_CODE = -32004"

definition FORWARD_REQUEST_HEADERS :: "string list" where
  "FORWARD_REQUEST_HEADERS =
     [''content-type'', ''accept'', ''mcp-session-id'', ''mcp-protocol-version'', ''last-event-id'',
      ''authorization'']"

definition STRIP_RESPONSE_HEADERS :: "string list" where
  "STRIP_RESPONSE_HEADERS =
     [''content-length'', ''connection'', ''transfer-encoding'', ''content-encoding'']"

text \<open>A reply, or the call still polling for a reviewer when the fuel of the wait is spent.\<close>

datatype reply = Replied response | StillWaiting

section \<open>Headers and envelopes\<close>

text \<open>\<open>headers.get(name)\<close>: names compare case-insensitively.\<close>

definition header_get :: "(string, string) dict \<Rightarrow> string \<Rightarrow> string option" where
  "header_get hs name = map_option snd (find (\<lambda>h. lower (fst h) = lower name) hs)"

definition BEARER :: string where
  "BEARER = ''bearer ''"

definition extract_agent_id :: "(string, string) dict \<Rightarrow> string option" where
  "extract_agent_id hs =
     (case header_get hs ''authorization'' of
        None \<Rightarrow> None
      | Some auth \<Rightarrow>
          if auth \<noteq> [] \<and> take (length BEARER) (lower auth) = BEARER
          then Some (tl (dropWhile (\<lambda>c. c \<noteq> CHR '' '') auth))
          else None)"

definition forward_headers :: "(string, string) dict \<Rightarrow> (string, string) dict" where
  "forward_headers hs = dict_of_pairs (filter (\<lambda>(k, v). lower k \<in> set FORWARD_REQUEST_HEADERS) hs)"

definition response_headers :: "(string, string) dict \<Rightarrow> (string, string) dict" where
  "response_headers hs = dict_of_pairs (filter (\<lambda>(k, v). lower k \<notin> set STRIP_RESPONSE_HEADERS) hs)"

text \<open>\<open>x or d\<close> on an optional string.\<close>

definition or_default :: "string option \<Rightarrow> string \<Rightarrow> string" where
  "or_default x d = (case x of None \<Rightarrow> d | Some s \<Rightarrow> if s = [] then d else s)"

record tool_call =
  tc_tool_name :: json
  tc_arguments :: json
  tc_rpc_id :: json

definition dict_get :: "(string, json) dict \<Rightarrow> string \<Rightarrow> json" where
  "dict_get d k = (case map_of d k of None \<Rightarrow> JNull | Some v \<Rightarrow> v)"

text \<open>\<open>root.id\<close> of a message that has no such attribute raises.\<close>

definition extract_tool_call :: "rpc_message option \<Rightarrow> tool_call option res" where
  "extract_tool_call message =
     (case message of
        None \<Rightarrow> Inr None
      | Some msg \<Rightarrow>
          if rm_method msg \<noteq> Some ''tools/call'' then Inr None
          else
            (let params = (case rm_params msg of None \<Rightarrow> [] | Some p \<Rightarrow> p);
                 tool_name = dict_get params ''name'';
                 arguments = dict_get params ''arguments''
             in if \<not> truthy tool_name then Inr None
                else (case rm_id msg of
                  None \<Rightarrow> Inl (Exn AttributeErr ''id'')
                | Some i \<Rightarrow>
                    Inr (Some \<lparr>tc_tool_name = tool_name,
                               tc_arguments = (if truthy arguments then arguments else JObj []),
                               tc_rpc_id = i\<rparr>))))"

section \<open>Replies\<close>

definition json_response :: "int \<Rightarrow> json \<Rightarrow> response" where
  "json_response status j = \<lparr>rs_status = status, rs_headers = [], rs_content = CJson j\<rparr>"

definition error_response :: "json \<Rightarrow> int \<Rightarrow> string \<Rightarrow> json \<Rightarrow> response" where
  "error_response rpc_id code message data =
     json_response 200
       (JObj [(''jsonrpc'', JStr ''2.0''), (''id'', rpc_id),
              (''error'', JObj [(''code'', JInt code), (''message'', JStr message), (''data'', data)])])"

definition opt_str :: "string option \<Rightarrow> json" where
  "opt_str x = (case x of None \<Rightarrow> JNull | Some s \<Rightarrow> JStr s)"

definition policy_denied_response :: "json \<Rightarrow> policy_decision \<Rightarrow> response" where
  "policy_denied_response rpc_id d =
     error_response rpc_id POLICY_DENIED_ERROR_CODE ''policy_denied''
       (JObj [(''policy'', opt_str (pd_fired_policy d)), (''reason'', opt_str (pd_reason d))])"

definition upstream_error_response :: "json \<Rightarrow> exn \<Rightarrow> response" where
  "upstream_error_response rpc_id e =
     error_response rpc_id UPSTREAM_ERROR_CODE ''upstream_error'' (JObj [(''detail'', JStr (exn_text e))])"

definition decision_payload :: "policy_decision \<Rightarrow> json" where
  "decision_payload d =
     JObj [(''outcome'', JStr (outcome_value (pd_outcome d))),
           (''fired_policy'', opt_str (pd_fired_policy d)),
           (''reason'', opt_str (pd_reason d))]"

text \<open>The entries of \<open>policies_fired\<close>.\<close>

definition fired_json :: "policy_result list \<Rightarrow> json" where
  "fired_json fired =
     JList (map (\<lambda>f. JObj [(''policy'', JStr (pr_policy f)), (''effect_type'', JStr (pr_effect_type f))]) fired)"

section \<open>One call\<close>

text \<open>What is fixed for a call once it has been recognised.\<close>

record call =
  cl_server :: string
  cl_url :: string
  cl_tool :: string
  cl_arguments :: json
  cl_rpc_id :: json
  cl_agent_id :: "string option"
  cl_session_id :: string
  cl_method :: string
  cl_headers :: "(string, string) dict"
  cl_body :: bytes

definition subject_of :: "call \<Rightarrow> string" where
  "subject_of c = or_default (cl_agent_id c) ''anonymous''"

definition args_hash_of :: "call \<Rightarrow> string" where
  "args_hash_of c = sha256_hex (canonical_dumps (cl_arguments c))"

record hitl_cols =
  hc_ticket_id :: "string option"
  hc_reviewer :: "string option"
  hc_decision :: "string option"
  hc_rationale :: "string option"

definition no_hitl :: hitl_cols where
  "no_hitl = \<lparr>hc_ticket_id = None, hc_reviewer = None, hc_decision = None, hc_rationale = None\<rparr>"

text \<open>The columns every row of a call shares, with those that differ as arguments.\<close>

definition call_row ::
    "call \<Rightarrow> string \<Rightarrow> policy_result list \<Rightarrow> string \<Rightarrow> string \<Rightarrow> json \<Rightarrow> int option \<Rightarrow> int option \<Rightarrow>
     hitl_cols \<Rightarrow> string list \<Rightarrow> entry_args" where
  "call_row c trace_id fired status span_id dec parent latency h tags =
     \<lparr>ea_status = status, ea_trace_id = trace_id, ea_span_id = span_id,
      ea_agent_id = subject_of c, ea_session_id = cl_session_id c, ea_server = cl_server c,
      ea_tool = cl_tool c, ea_args_hash = args_hash_of c, ea_args_redacted = cl_arguments c,
      ea_policies_fired = fired_json fired, ea_decision = dec, ea_parent_id = parent,
      ea_latency_ms = latency, ea_tokens = JNull, ea_hitl_ticket_id = hc_ticket_id h,
      ea_hitl_reviewer = hc_reviewer h, ea_hitl_decision = hc_decision h,
      ea_hitl_rationale = hc_rationale h, ea_tags = Some tags\<rparr>"

definition write_call_row ::
    "'s env \<Rightarrow> call \<Rightarrow> string \<Rightarrow> policy_result list \<Rightarrow> string \<Rightarrow> json \<Rightarrow> int option \<Rightarrow> int option \<Rightarrow>
     hitl_cols \<Rightarrow> string list \<Rightarrow> ('s, audit_entry) act" where
  "write_call_row E c trace_id fired status dec parent latency h tags =
     bind_act (draw (ev_uuid E)) (\<lambda>span_id.
       write_row E (call_row c trace_id fired status span_id dec parent latency h tags))"

text \<open>\<open>_publish_decision_event\<close>\<close>

definition publish_decision_event ::
    "'s env \<Rightarrow> call \<Rightarrow> int \<Rightarrow> string \<Rightarrow> policy_result list \<Rightarrow> policy_decision \<Rightarrow> string option \<Rightarrow>
     ('s, unit) act" where
  "publish_decision_event E c audit_id trace_id fired d ticket =
     bind_act (draw (ev_utcnow E)) (\<lambda>now.
       publish \<lparr>de_audit_id = audit_id, de_trace_id = trace_id, de_agent_id = subject_of c,
         de_session_id = cl_session_id c, de_server = cl_server c, de_tool = cl_tool c,
         de_args_hash = args_hash_of c, de_policies_fired = fired,
         de_decision = \<lparr>cd_outcome = outcome_value (pd_outcome d),
                        cd_fired_policy = pd_fired_policy d, cd_reason = pd_reason d\<rparr>,
         de_hitl_ticket_id = ticket, de_timestamp = now\<rparr>)"

section \<open>Forwarding\<close>

definition call_request :: "call \<Rightarrow> http_request" where
  "call_request c = \<lparr>hq_method = cl_method c, hq_url = cl_url c, hq_headers = cl_headers c,
     hq_body = cl_body c\<rparr>"

definition forward :: "'s env \<Rightarrow> http_request \<Rightarrow> ('s, response) act" where
  "forward E req =
     bind_act (send E req) (\<lambda>up.
       ret \<lparr>rs_status = ur_status up, rs_headers = response_headers (ur_headers up),
            rs_content = CStream (ur_body up)\<rparr>)"

text \<open>Any exception of the buffered stage becomes a \<open>ResponsePolicyError\<close> with its text.\<close>

definition as_response_policy_error :: "exn \<Rightarrow> exn" where
  "as_response_policy_error e =
     (if exn_kind e = ResponsePolicyErr then e else Exn ResponsePolicyErr (exn_text e))"

text \<open>Response-side evaluation runs custom policies on the shared Redis.\<close>

definition run_evaluate_response ::
    "'s env \<Rightarrow> policy_set \<Rightarrow> json \<Rightarrow> response_ctx \<Rightarrow> ('s, evaluation_result) act" where
  "run_evaluate_response E ps payload ctx w =
     (let w1 = await E w;
          (r, s') = evaluate_response (ev_response_policies E) ps payload ctx (sh_redis (wd_shared w1))
      in (r, w1\<lparr>wd_shared := (wd_shared w1)\<lparr>sh_redis := s'\<rparr>\<rparr>))"

definition lift_res :: "'a res \<Rightarrow> ('s, 'a) act" where
  "lift_res r w = (r, w)"

definition stage8 :: "'s env \<Rightarrow> call \<Rightarrow> policy_set \<Rightarrow> bytes \<Rightarrow> string \<Rightarrow> ('s, bytes \<times> string list) act" where
  "stage8 E c ps raw_body content_type =
     bind_act (lift_res (decode_mcp_body (ev_json_float E) raw_body content_type)) (\<lambda>parsed.
       (case parsed of
          JObj kvs \<Rightarrow>
            (case dict_get kvs ''result'' of
               JObj res \<Rightarrow>
                 bind_act (run_evaluate_response E ps (JObj res)
                   \<lparr>pc_session_id = cl_session_id c, pc_server = cl_server c, pc_tool = cl_tool c,
                    pc_arguments = cl_arguments c,
                    pc_response_payload = dict_get res ''structuredContent''\<rparr>) (\<lambda>er.
                 ret (encode_mcp_body (JObj (dict_set ''result'' (er_payload er) kvs)) content_type,
                      er_tags er))
             | _ \<Rightarrow> ret (raw_body, []))
        | _ \<Rightarrow> ret (raw_body, [])))"

definition forward_buffered ::
    "'s env \<Rightarrow> call \<Rightarrow> policy_set \<Rightarrow> ('s, response \<times> string list) act" where
  "forward_buffered E c ps =
     bind_act (send E (call_request c)) (\<lambda>up.
     bind_act (lift_res (ur_body up)) (\<lambda>raw_body.
     (let content_type = (case header_get (ur_headers up) ''content-type'' of None \<Rightarrow> [] | Some t \<Rightarrow> t) in
      bind_act (catch_act (stage8 E c ps raw_body content_type)
                          (\<lambda>e. throw (as_response_policy_error e))) (\<lambda>(body, tags).
        ret (\<lparr>rs_status = ur_status up, rs_headers = response_headers (ur_headers up),
              rs_content = CBytes body\<rparr>, tags)))))"

text \<open>\<open>int(seconds * 1000)\<close>, truncating towards zero.\<close>

definition int_ms :: "rat \<Rightarrow> int" where
  "int_ms x = (let y = x * 1000 in if y < 0 then - \<lfloor>- y\<rfloor> else \<lfloor>y\<rfloor>)"

definition error_decision :: "string \<Rightarrow> string \<Rightarrow> json" where
  "error_decision reason detail =
     JObj [(''outcome'', JStr ''UPSTREAM_ERROR''), (''reason'', JStr reason), (''detail'', JStr detail)]"

definition run_forward :: "'s env \<Rightarrow> call \<Rightarrow> policy_set \<Rightarrow> ('s, response \<times> string list) act" where
  "run_forward E c ps =
     (if has_response_side_policies ps then forward_buffered E c ps
      else bind_act (forward E (call_request c)) (\<lambda>r. ret (r, [])))"

text \<open>The two handled exception classes and their \<open>error_type\<close>; others propagate.\<close>

definition upstream_failure ::
    "'s env \<Rightarrow> call \<Rightarrow> string \<Rightarrow> policy_result list \<Rightarrow> string list \<Rightarrow> int \<Rightarrow> hitl_cols \<Rightarrow> rat \<Rightarrow> exn \<Rightarrow>
     string \<Rightarrow> ('s, response) act" where
  "upstream_failure E c trace_id fired tags parent h start e reason =
     bind_act (draw (ev_monotonic E)) (\<lambda>stop.
     bind_act (measure_metric (ToolCall (cl_server c) (cl_tool c) ''upstream_error'')) (\<lambda>_.
     bind_act (measure_metric (ToolCallError reason)) (\<lambda>_.
     bind_act (write_call_row E c trace_id fired ''UPSTREAM_ERROR'' (error_decision reason (exn_text e))
                 (Some parent) (Some (int_ms (stop - start))) h tags) (\<lambda>_.
       ret (upstream_error_response (cl_rpc_id c) e)))))"

definition merge_tags :: "string list \<Rightarrow> string list \<Rightarrow> string list" where
  "merge_tags static response_tags = static @ filter (\<lambda>t. t \<notin> set static) response_tags"

definition forward_and_record ::
    "'s env \<Rightarrow> call \<Rightarrow> policy_set \<Rightarrow> string \<Rightarrow> policy_result list \<Rightarrow> policy_decision \<Rightarrow> int \<Rightarrow>
     hitl_cols \<Rightarrow> ('s, response) act" where
  "forward_and_record E c ps trace_id fired d parent h =
     bind_act (draw (ev_monotonic E)) (\<lambda>start.
     bind_act (attempt (run_forward E c ps)) (\<lambda>outcome.
       (case outcome of
          Inl e \<Rightarrow>
            (if exn_kind e = HttpErr then
               upstream_failure E c trace_id fired (static_tags ps) parent h start e ''upstream_unreachable''
             else if exn_kind e = ResponsePolicyErr then
               upstream_failure E c trace_id fired (static_tags ps) parent h start e ''response_policy_error''
             else throw e)
        | Inr (response, tags) \<Rightarrow>
            bind_act (measure_metric (ToolCall (cl_server c) (cl_tool c) ''completed'')) (\<lambda>_.
            bind_act (draw (ev_monotonic E)) (\<lambda>stop.
            bind_act (write_call_row E c trace_id fired ''COMPLETED'' (decision_payload d) (Some parent)
                        (Some (int_ms (stop - start))) h (merge_tags (static_tags ps) tags)) (\<lambda>_.
              ret response))))))"

section \<open>Holds\<close>

definition deny_payload :: "policy_decision \<Rightarrow> string \<Rightarrow> json" where
  "deny_payload d reason =
     JObj [(''outcome'', JStr ''DENY''), (''fired_policy'', opt_str (pd_fired_policy d)),
           (''reason'', JStr reason)]"

definition run_create_ticket ::
    "'s env \<Rightarrow> call \<Rightarrow> string \<Rightarrow> int \<Rightarrow> string \<Rightarrow> int \<Rightarrow> ('s, hitl_ticket) act" where
  "run_create_ticket E c trace_id audit_id reviewer_group timeout =
     bind_act (draw (ev_uuid E)) (\<lambda>uid.
     bind_act (draw (ev_time E)) (\<lambda>now. \<lambda>w.
       (let w1 = await E w;
            t = new_ticket uid now (cl_server c) (cl_tool c) (cl_arguments c) (subject_of c)
                  (cl_session_id c) trace_id audit_id reviewer_group timeout;
            (r, s') = create_ticket (ev_redis E) t (sh_redis (wd_shared w1));
            w2 = w1\<lparr>wd_shared := (wd_shared w1)\<lparr>sh_redis := s'\<rparr>\<rparr>
        in case r of Inl e \<Rightarrow> (Inl e, w2) | Inr t \<Rightarrow> (Inr t, log_effect (Opened t) w2))))"

text \<open>Poll until decided or timed out; the other tasks run meanwhile.\<close>

definition run_wait ::
    "'s env \<Rightarrow> string \<Rightarrow> int \<Rightarrow> ('s, hitl_ticket option option) act" where
  "run_wait E ticket_id timeout w =
     (let n = wd_n w;
          r = wait_for_decision (ev_redis E) (ev_float E) (ev_json_float E)
                (ev_seen E n (wd_shared w)) (ev_poll_clock E n) (ev_fuel E) ticket_id timeout;
          w1 = await E w
      in case r of
           None \<Rightarrow> (Inr None, w1)
         | Some (Inl e) \<Rightarrow> (Inl e, w1)
         | Some (Inr t) \<Rightarrow> (Inr (Some t), log_effect (Resolved t) w1))"

definition hold_timeout ::
    "'s env \<Rightarrow> call \<Rightarrow> string \<Rightarrow> policy_result list \<Rightarrow> policy_decision \<Rightarrow> int \<Rightarrow> hitl_ticket \<Rightarrow> string \<Rightarrow>
     string list \<Rightarrow> ('s, reply) act" where
  "hold_timeout E c trace_id fired d held ticket reviewer_group tags =
     bind_act (measure_metric (ToolCall (cl_server c) (cl_tool c) ''hold_timeout'')) (\<lambda>_.
     bind_act (write_call_row E c trace_id fired ''DENIED'' (deny_payload d ''hitl_timeout'') (Some held) None
                 (no_hitl\<lparr>hc_ticket_id := Some (tk_ticket_id ticket)\<rparr>) tags) (\<lambda>_.
       ret (Replied (error_response (cl_rpc_id c) HITL_TIMEOUT_ERROR_CODE ''hitl_timeout''
         (JObj [(''ticket_id'', JStr (tk_ticket_id ticket)), (''reviewer_group'', JStr reviewer_group)])))))"

definition hold_denied ::
    "'s env \<Rightarrow> call \<Rightarrow> string \<Rightarrow> policy_result list \<Rightarrow> policy_decision \<Rightarrow> int \<Rightarrow> hitl_ticket \<Rightarrow> hitl_ticket \<Rightarrow>
     string list \<Rightarrow> ('s, reply) act" where
  "hold_denied E c trace_id fired d held ticket resolved tags =
     bind_act (measure_metric (ToolCall (cl_server c) (cl_tool c) ''hold_denied'')) (\<lambda>_.
     bind_act (write_call_row E c trace_id fired ''DENIED'' (deny_payload d ''hitl_denied'') (Some held) None
                 \<lparr>hc_ticket_id = Some (tk_ticket_id ticket), hc_reviewer = tk_decided_by resolved,
                  hc_decision = Some (tk_status resolved), hc_rationale = tk_rationale resolved\<rparr> tags) (\<lambda>_.
       ret (Replied (error_response (cl_rpc_id c) HITL_DENIED_ERROR_CODE ''hitl_denied''
         (JObj [(''ticket_id'', JStr (tk_ticket_id ticket)),
                (''reviewer'', opt_str (tk_decided_by resolved)),
                (''rationale'', opt_str (tk_rationale resolved))])))))"

definition hold_approved ::
    "'s env \<Rightarrow> call \<Rightarrow> policy_set \<Rightarrow> string \<Rightarrow> policy_result list \<Rightarrow> policy_decision \<Rightarrow> int \<Rightarrow>
     hitl_ticket \<Rightarrow> hitl_ticket \<Rightarrow> ('s, reply) act" where
  "hold_approved E c ps trace_id fired d held ticket resolved =
     bind_act (forward_and_record E c ps trace_id fired d held
       \<lparr>hc_ticket_id = Some (tk_ticket_id ticket), hc_reviewer = tk_decided_by resolved,
        hc_decision = Some (tk_status resolved), hc_rationale = tk_rationale resolved\<rparr>) (\<lambda>r.
       ret (Replied r))"

text \<open>Wait for the reviewer and act on the answer.\<close>

definition resolve_hold ::
    "'s env \<Rightarrow> call \<Rightarrow> policy_set \<Rightarrow> string \<Rightarrow> policy_result list \<Rightarrow> policy_decision \<Rightarrow> int \<Rightarrow>
     hitl_ticket \<Rightarrow> string \<Rightarrow> int \<Rightarrow> ('s, reply) act" where
  "resolve_hold E c ps trace_id fired d held ticket reviewer_group timeout =
     bind_act (run_wait E (tk_ticket_id ticket) timeout) (\<lambda>resolved.
       (case resolved of
          None \<Rightarrow> ret StillWaiting
        | Some None \<Rightarrow> hold_timeout E c trace_id fired d held ticket reviewer_group (static_tags ps)
        | Some (Some t) \<Rightarrow>
            if tk_status t = ''PENDING'' then
              hold_timeout E c trace_id fired d held ticket reviewer_group (static_tags ps)
            else if tk_status t = ''DENIED'' then
              hold_denied E c trace_id fired d held ticket t (static_tags ps)
            else
              hold_approved E c ps trace_id fired d held ticket t))"

definition handle_hold ::
    "'s env \<Rightarrow> call \<Rightarrow> policy_set \<Rightarrow> string \<Rightarrow> policy_result list \<Rightarrow> policy_decision \<Rightarrow> ('s, reply) act"
where
  "handle_hold E c ps trace_id fired d =
     (let reviewer_group = or_default (pd_reviewer_group d) ''unspecified'';
          timeout = (case pd_timeout_seconds d of None \<Rightarrow> 0 | Some t \<Rightarrow> t) in
      bind_act (write_call_row E c trace_id fired ''HELD'' (decision_payload d) None None no_hitl
                  (static_tags ps)) (\<lambda>held.
      bind_act (run_create_ticket E c trace_id (ae_id held) reviewer_group timeout) (\<lambda>ticket.
      bind_act (publish_decision_event E c (ae_id held) trace_id fired d (Some (tk_ticket_id ticket))) (\<lambda>_.
        resolve_hold E c ps trace_id fired d (ae_id held) ticket reviewer_group timeout))))"

section \<open>Tool calls\<close>

text \<open>
  \<open>_evaluate_policy_set\<close>: an engine error becomes a DENY with no policies fired. Evaluation is
  one step: what a custom policy queries is the audit table as it was when evaluation began.
\<close>

definition run_evaluate ::
    "'s env \<Rightarrow> policy_set \<Rightarrow> call \<Rightarrow> ('s, policy_decision) act" where
  "run_evaluate E ps c w =
     (let w1 = await E w; n = wd_n w1; sh = wd_shared w1;
          ctx = \<lparr>rc_session_id = cl_session_id c, rc_agent_id = subject_of c, rc_server = cl_server c,
                 rc_tool = cl_tool c, rc_arguments = cl_arguments c,
                 rc_session_factory =
                   (case ev_db E n of Some e \<Rightarrow> Inl e | None \<Rightarrow> Inr (tb_rows (sh_table sh)))\<rparr>;
          (r, lm) = evaluate (ev_request_policies E) (ev_limiter_clock E) ps (subject_of c) (Some ctx)
                      (sh_limiter sh)
      in (r, tick (w1\<lparr>wd_shared := sh\<lparr>sh_limiter := lm\<rparr>\<rparr>)))"

definition evaluate_policy_set ::
    "'s env \<Rightarrow> policy_set \<Rightarrow> call \<Rightarrow> ('s, policy_decision \<times> policy_result list) act" where
  "evaluate_policy_set E ps c =
     catch_act
       (bind_act (run_evaluate E ps c) (\<lambda>d.
          ret (d, map (\<lambda>p. \<lparr>pr_policy = pol_name p, pr_effect_type = effect_type (pol_effect p)\<rparr>)
                    (ps_policies ps))))
       (\<lambda>e. bind_act (measure_metric (ToolCallError ''policy_engine_error'')) (\<lambda>_.
          ret (decision ODeny None ''policy_engine_error'', [])))"

definition run_compile :: "call \<Rightarrow> ('s, policy_set) act" where
  "run_compile c w =
     (let (ps, pe) = compile (sh_engine (wd_shared w)) (cl_server c) (cl_tool c)
      in (Inr ps, w\<lparr>wd_shared := (wd_shared w)\<lparr>sh_engine := pe\<rparr>\<rparr>))"

fun measure_fires :: "policy_result list \<Rightarrow> policy_decision \<Rightarrow> ('s, unit) act" where
  "measure_fires [] d = ret ()"
| "measure_fires (f # fs) d =
     bind_act (measure_metric (PolicyFire (pr_policy f) (pr_effect_type f) (outcome_value (pd_outcome d))))
       (\<lambda>_. measure_fires fs d)"

definition deny_call ::
    "'s env \<Rightarrow> call \<Rightarrow> policy_set \<Rightarrow> string \<Rightarrow> policy_result list \<Rightarrow> policy_decision \<Rightarrow> ('s, reply) act"
where
  "deny_call E c ps trace_id fired d =
     bind_act (measure_metric (ToolCall (cl_server c) (cl_tool c) ''deny'')) (\<lambda>_.
     bind_act (write_call_row E c trace_id fired ''DENIED'' (decision_payload d) None None no_hitl
                 (static_tags ps)) (\<lambda>denied.
     bind_act (publish_decision_event E c (ae_id denied) trace_id fired d None) (\<lambda>_.
       ret (Replied (policy_denied_response (cl_rpc_id c) d)))))"

definition pass_call ::
    "'s env \<Rightarrow> call \<Rightarrow> policy_set \<Rightarrow> string \<Rightarrow> policy_result list \<Rightarrow> policy_decision \<Rightarrow> ('s, reply) act"
where
  "pass_call E c ps trace_id fired d =
     bind_act (write_call_row E c trace_id fired ''INTENT'' (decision_payload d) None None no_hitl
                 (static_tags ps)) (\<lambda>intent.
     bind_act (publish_decision_event E c (ae_id intent) trace_id fired d None) (\<lambda>_.
     bind_act (forward_and_record E c ps trace_id fired d (ae_id intent) no_hitl) (\<lambda>r.
       ret (Replied r))))"

definition handle_tool_call :: "'s env \<Rightarrow> call \<Rightarrow> ('s, reply) act" where
  "handle_tool_call E c =
     bind_act (run_compile c) (\<lambda>ps.
     bind_act (evaluate_policy_set E ps c) (\<lambda>(d, fired).
     bind_act (measure_fires fired d) (\<lambda>_.
     bind_act (draw (ev_uuid E)) (\<lambda>trace_id.
       (case pd_outcome d of
          ODeny \<Rightarrow> deny_call E c ps trace_id fired d
        | OHold \<Rightarrow> handle_hold E c ps trace_id fired d
        | OPass \<Rightarrow> pass_call E c ps trace_id fired d)))))"

section \<open>The proxy endpoint\<close>

definition resolve :: "'s env \<Rightarrow> string \<Rightarrow> string option" where
  "resolve E server_name = map_of (ev_routing E) server_name"

text \<open>
  The call handled between \<open>inflight_start\<close> and the \<open>finally\<close> block. A tool name that is not a
  string is refused by the database driver when the first row is written, before anything is
  forwarded.
\<close>

definition measured_call :: "'s env \<Rightarrow> call \<Rightarrow> json \<Rightarrow> ('s, reply) act" where
  "measured_call E c tool_name =
     bind_act (measure_metric (Inflight 1)) (\<lambda>_.
     bind_act (draw (ev_monotonic E)) (\<lambda>start.
       finally_act
         (case tool_name of
            JStr t \<Rightarrow> handle_tool_call E c
          | _ \<Rightarrow> throw (Exn DbErr ''DataError''))
         (\<lambda>w. log_effect (Measured (ToolCallDuration (cl_server c) (cl_tool c)
                            (ev_monotonic E (wd_n w) - start)))
                (tick (log_effect (Measured (Inflight (-1))) w)))))"

definition proxy_mcp :: "'s env \<Rightarrow> string \<Rightarrow> client_request \<Rightarrow> ('s, reply) act" where
  "proxy_mcp E server_name req =
     bind_act (draw (ev_uuid E)) (\<lambda>request_id.
       (let agent_id = extract_agent_id (cr_headers req);
            body = cr_body req;
            parsed = (if body = [] then Inr None
                      else bind_res (ev_parse E body) (\<lambda>m. Inr (Some m)))
        in case parsed of
             Inl e \<Rightarrow> ret (Replied (json_response 400
               (JObj [(''error'', JStr ''malformed_mcp_envelope''), (''detail'', JStr (exn_text e))])))
           | Inr message \<Rightarrow>
               (case resolve E server_name of
                  None \<Rightarrow> ret (Replied (json_response 404
                    (JObj [(''error'', JStr ''unknown_server''), (''server'', JStr server_name)])))
                | Some url \<Rightarrow>
                    (let hs = forward_headers (cr_headers req) in
                     bind_act (lift_res (extract_tool_call message)) (\<lambda>tc.
                       (case tc of
                          None \<Rightarrow> bind_act (forward E \<lparr>hq_method = cr_method req, hq_url = url,
                                    hq_headers = hs, hq_body = body\<rparr>) (\<lambda>r. ret (Replied r))
                        | Some t \<Rightarrow>
                            measured_call E
                              \<lparr>cl_server = server_name, cl_url = url,
                               cl_tool = (case tc_tool_name t of JStr s \<Rightarrow> s | _ \<Rightarrow> []),
                               cl_arguments = tc_arguments t, cl_rpc_id = tc_rpc_id t,
                               cl_agent_id = agent_id,
                               cl_session_id =
                                 (case header_get (cr_headers req) ''mcp-session-id'' of
                                    None \<Rightarrow> ''unknown'' | Some s \<Rightarrow> s),
                               cl_method = cr_method req, cl_headers = hs, cl_body = body\<rparr>
                              (tc_tool_name t)))))))"

end
