(* ===== verification/TraceMachine.thy ===== *)
theory TraceMachine
  imports Main
begin

text \<open>
  State machines that accept effects: runs, and the invariants of runs. A component's contract
  is such a machine; the locale gives the induction its safety lemmas rest on.
\<close>

inductive trace_run :: "('p \<Rightarrow> 'e \<Rightarrow> 'p \<Rightarrow> bool) \<Rightarrow> 'p \<Rightarrow> 'e list \<Rightarrow> 'p \<Rightarrow> bool"
  for step :: "'p \<Rightarrow> 'e \<Rightarrow> 'p \<Rightarrow> bool" and p :: 'p where
  run_nil: "trace_run step p [] p"
| run_snoc: "trace_run step p tr q \<Longrightarrow> step q x q' \<Longrightarrow> trace_run step p (tr @ [x]) q'"

inductive_cases trace_run_snocE: "trace_run step p (tr @ [x]) q"
inductive_cases trace_run_nilE: "trace_run step p [] q"

lemma trace_run_trans: "trace_run step q vs r \<Longrightarrow> trace_run step p us q \<Longrightarrow> trace_run step p (us @ vs) r"
proof (induction rule: trace_run.induct)
  case (run_snoc tr q' x r)
  then show ?case using trace_run.run_snoc [of step p "us @ tr" q' x r] by simp
qed simp

lemma trace_run_single: "step p x q \<Longrightarrow> trace_run step p [x] q"
  using trace_run.run_snoc [OF trace_run.run_nil] by fastforce

lemma trace_run_split: "trace_run step p (us @ vs) q \<Longrightarrow> \<exists>m. trace_run step p us m \<and> trace_run step m vs q"
proof (induction vs arbitrary: q rule: rev_induct)
  case Nil
  then show ?case by (auto intro: trace_run.run_nil)
next
  case (snoc x vs)
  then have "trace_run step p ((us @ vs) @ [x]) q" by simp
  then obtain q1 where "trace_run step p (us @ vs) q1" "step q1 x q" by (rule trace_run_snocE) auto
  with snoc.IH [of q1] show ?case by (auto intro: trace_run.run_snoc)
qed

lemma trace_run_ConsD: "trace_run step p (x # tr) q \<Longrightarrow> \<exists>m. step p x m"
proof -
  assume "trace_run step p (x # tr) q"
  then obtain m where "trace_run step p [x] m" using trace_run_split [of step p "[x]" tr q] by auto
  then have "trace_run step p ([] @ [x]) m" by simp
  then show ?thesis by (rule trace_run_snocE) (auto elim: trace_run_nilE)
qed

text \<open>An invariant relates the state to the effects so far.\<close>

locale trace_invariant =
  fixes step :: "'p \<Rightarrow> 'e \<Rightarrow> 'p \<Rightarrow> bool" and start :: 'p and inv :: "'p \<Rightarrow> 'e list \<Rightarrow> bool"
  assumes inv_start: "inv start []"
    and inv_step: "step p x q \<Longrightarrow> inv p tr \<Longrightarrow> inv q (tr @ [x])"
begin

lemma inv_run: "trace_run step start tr q \<Longrightarrow> inv q tr"
proof (induction rule: trace_run.induct)
  case run_nil
  show ?case by (rule inv_start)
next
  case (run_snoc tr q x q')
  then show ?case by (simp add: inv_step)
qed

text \<open>The state in which an effect happens satisfies the invariant for what came before.\<close>

lemma inv_before:
  assumes "trace_run step start (us @ x # vs) q"
  shows "\<exists>p m. step p x m \<and> inv p us"
proof -
  obtain m where m: "trace_run step start us m" "trace_run step m (x # vs) q"
    using trace_run_split [OF assms] by blast
  from trace_run_ConsD [OF m(2)] inv_run [OF m(1)] show ?thesis by blast
qed

end

end
