(* ===== verification/CallProtocol.thy ===== *)
theory CallProtocol
  imports Gateway TraceMachine
begin

text \<open>
  The audit protocol of one tool call as a state machine over the effects it has: the abstract
  contract the handlers of the gateway refine. A call is decided by a DENIED, INTENT or HELD
  row, that row's id is published once, the upstream is contacted only when the call is
  cleared, and the outcome row points back to the deciding row.
\<close>

datatype phase =
    Idle
  | Denied int
  | Intent int
  | Held int
  | Queued int string
  | Waiting int
  | Cleared int
  | Refused int
  | InFlight int
  | Finished

definition approves :: "hitl_ticket option \<Rightarrow> bool" where
  "approves r = (case r of None \<Rightarrow> False | Some t \<Rightarrow> tk_status t \<noteq> ''PENDING'' \<and> tk_status t \<noteq> ''DENIED'')"

inductive call_step :: "phase \<Rightarrow> effect_log \<Rightarrow> phase \<Rightarrow> bool" where
  measured: "call_step p (Measured m) p"
| denied: "ae_status e = ''DENIED'' \<Longrightarrow> ae_parent_id e = None \<Longrightarrow>
    call_step Idle (Wrote e) (Denied (ae_id e))"
| denied_published: "de_audit_id ev = i \<Longrightarrow> cd_outcome (de_decision ev) = ''DENY'' \<Longrightarrow>
    call_step (Denied i) (Published ev) Finished"
| intent: "ae_status e = ''INTENT'' \<Longrightarrow> ae_parent_id e = None \<Longrightarrow>
    call_step Idle (Wrote e) (Intent (ae_id e))"
| intent_published: "de_audit_id ev = i \<Longrightarrow> cd_outcome (de_decision ev) = ''PASS'' \<Longrightarrow>
    call_step (Intent i) (Published ev) (Cleared i)"
| held: "ae_status e = ''HELD'' \<Longrightarrow> ae_parent_id e = None \<Longrightarrow>
    call_step Idle (Wrote e) (Held (ae_id e))"
| opened: "tk_audit_entry_id t = i \<Longrightarrow> tk_status t = ''PENDING'' \<Longrightarrow>
    call_step (Held i) (Opened t) (Queued i (tk_ticket_id t))"
| held_published: "de_audit_id ev = i \<Longrightarrow> cd_outcome (de_decision ev) = ''HOLD'' \<Longrightarrow>
    de_hitl_ticket_id ev = Some k \<Longrightarrow> call_step (Queued i k) (Published ev) (Waiting i)"
| approved: "approves r \<Longrightarrow> call_step (Waiting i) (Resolved r) (Cleared i)"
| refused: "\<not> approves r \<Longrightarrow> call_step (Waiting i) (Resolved r) (Refused i)"
| refusal_recorded: "ae_status e = ''DENIED'' \<Longrightarrow> ae_parent_id e = Some i \<Longrightarrow>
    call_step (Refused i) (Wrote e) Finished"
| sent: "call_step (Cleared i) (Sent req) (InFlight i)"
| outcome_recorded: "ae_status e \<in> {''COMPLETED'', ''UPSTREAM_ERROR''} \<Longrightarrow> ae_parent_id e = Some i \<Longrightarrow>
    call_step (InFlight i) (Wrote e) Finished"

abbreviation call_run :: "phase \<Rightarrow> effect_log list \<Rightarrow> phase \<Rightarrow> bool" where
  "call_run \<equiv> trace_run call_step"

inductive_simps call_step_measured [simp]: "call_step p (Measured m) q"
inductive_simps call_step_wrote: "call_step p (Wrote e) q"
inductive_simps call_step_published: "call_step p (Published ev) q"
inductive_simps call_step_opened: "call_step p (Opened t) q"
inductive_simps call_step_resolved: "call_step p (Resolved r) q"
inductive_simps call_step_sent: "call_step p (Sent req) q"

lemmas call_step_simps =
  call_step_wrote call_step_published call_step_opened call_step_resolved call_step_sent

section \<open>Actions that follow the protocol\<close>

text \<open>
  Started in phase \<open>p\<close>, the action's own effects are a run of the protocol that ends in a phase
  \<open>Q\<close> allows for its result.
\<close>

definition follows :: "phase \<Rightarrow> ('s, 'a) act \<Rightarrow> ('a res \<Rightarrow> phase \<Rightarrow> bool) \<Rightarrow> bool" where
  "follows p m Q \<longleftrightarrow>
     (\<forall>w r w'. m w = (r, w') \<longrightarrow>
        (\<exists>tr q. wd_trace w' = wd_trace w @ tr \<and> call_run p tr q \<and> Q r q))"

lemma followsI:
  "(\<And>w r w'. m w = (r, w') \<Longrightarrow> \<exists>tr q. wd_trace w' = wd_trace w @ tr \<and> call_run p tr q \<and> Q r q) \<Longrightarrow>
     follows p m Q"
  by (simp add: follows_def)

lemma follows_quiet:
  assumes "\<And>w. wd_trace (snd (m w)) = wd_trace w" and "\<And>w. Q (fst (m w)) p"
  shows "follows p m Q"
proof (rule followsI)
  fix w r w'
  assume m: "m w = (r, w')"
  show "\<exists>tr q. wd_trace w' = wd_trace w @ tr \<and> call_run p tr q \<and> Q r q"
    using assms [of w] m by (intro exI [of _ "[]"] exI [of _ p]) (simp add: trace_run.run_nil)
qed

lemma follows_mono: "follows p m R \<Longrightarrow> (\<And>r q. R r q \<Longrightarrow> Q r q) \<Longrightarrow> follows p m Q"
  by (fastforce simp: follows_def)

lemma follows_bind:
  assumes m: "follows p m R" and fail: "\<And>e q. R (Inl e) q \<Longrightarrow> Q (Inl e) q"
    and k: "\<And>a q. R (Inr a) q \<Longrightarrow> follows q (k a) Q"
  shows "follows p (bind_act m k) Q"
proof (rule followsI)
  fix w r w'
  assume b: "bind_act m k w = (r, w')"
  obtain r1 w1 where m1: "m w = (r1, w1)" by fastforce
  then obtain tr1 q1 where t1: "wd_trace w1 = wd_trace w @ tr1" "call_run p tr1 q1" "R r1 q1"
    using m unfolding follows_def by blast
  show "\<exists>tr q. wd_trace w' = wd_trace w @ tr \<and> call_run p tr q \<and> Q r q"
  proof (cases r1)
    case (Inl e)
    then show ?thesis using b m1 t1 fail [of e q1] by (auto simp: bind_act_def)
  next
    case (Inr a)
    then have "k a w1 = (r, w')" using b m1 by (simp add: bind_act_def)
    then obtain tr2 q2 where "wd_trace w' = wd_trace w1 @ tr2" "call_run q1 tr2 q2" "Q r q2"
      using k [of a q1] t1(3) Inr unfolding follows_def by blast
    then show ?thesis using t1 trace_run_trans [of call_step q1 tr2 q2 p tr1] by (intro exI [of _ "tr1 @ tr2"]) auto
  qed
qed

lemma follows_ret: "Q (Inr a) p \<Longrightarrow> follows p (ret a) Q"
  by (rule follows_quiet) (simp_all add: ret_def)

lemma follows_throw: "Q (Inl e) p \<Longrightarrow> follows p (throw e) Q"
  by (rule follows_quiet) (simp_all add: throw_def)

lemma follows_draw: "(\<And>a. Q (Inr a) p) \<Longrightarrow> follows p (draw f) Q"
  by (rule follows_quiet) (simp_all add: draw_def tick_def)

lemma follows_lift: "Q r p \<Longrightarrow> follows p (lift_res r) Q"
  by (rule follows_quiet) (simp_all add: lift_res_def)

lemma follows_measure: "Q (Inr ()) p \<Longrightarrow> follows p (measure_metric m) Q"
proof (rule followsI)
  fix w :: "'a world" and r w'
  assume "Q (Inr ()) p" and "measure_metric m w = (r, w')"
  then show "\<exists>tr q. wd_trace w' = wd_trace w @ tr \<and> call_run p tr q \<and> Q r q"
    by (intro exI [of _ "[Measured m]"] exI [of _ p])
      (auto simp: measure_metric_def log_effect_def intro!: trace_run_single)
qed

lemma write_entry_fields:
  "write_entry fault now a tb = (Inr e, tb') \<Longrightarrow>
     ae_status e = ea_status a \<and> ae_parent_id e = ea_parent_id a \<and> ae_trace_id e = ea_trace_id a"
  by (auto simp: write_entry_def insert_row_def Let_def entry_of_args_def
      split: option.splits sum.splits if_splits)

lemma follows_write_row:
  assumes "\<And>e. ae_status e = ea_status a \<Longrightarrow> ae_parent_id e = ea_parent_id a \<Longrightarrow>
      \<exists>q. call_step p (Wrote e) q \<and> Q (Inr e) q"
    and "\<And>e. Q (Inl e) p"
  shows "follows p (write_row E a) Q"
proof (rule followsI)
  fix w r w'
  assume w: "write_row E a w = (r, w')"
  let ?w1 = "await E w"
  obtain x tb where x: "write_entry (ev_db E (wd_n ?w1)) (ev_utcnow E (wd_n ?w1)) a (sh_table (wd_shared ?w1)) = (x, tb)"
    by fastforce
  show "\<exists>tr q. wd_trace w' = wd_trace w @ tr \<and> call_run p tr q \<and> Q r q"
  proof (cases x)
    case (Inl e)
    then have "r = Inl e" "wd_trace w' = wd_trace w"
      using w x by (auto simp: write_row_def Let_def await_def tick_def)
    then show ?thesis using assms(2) by (intro exI [of _ "[]"] exI [of _ p]) (simp add: trace_run.run_nil)
  next
    case (Inr e)
    then have r: "r = Inr e" "wd_trace w' = wd_trace w @ [Wrote e]"
      using w x by (auto simp: write_row_def Let_def await_def tick_def log_effect_def)
    from write_entry_fields [of _ _ a _ e tb] x Inr obtain q where "call_step p (Wrote e) q" "Q (Inr e) q"
      using assms(1) [of e] by metis
    then show ?thesis using r by (intro exI [of _ "[Wrote e]"] exI [of _ q]) (simp add: trace_run_single)
  qed
qed

lemma follows_publish:
  assumes "call_step p (Published ev) q" and "Q (Inr ()) q"
  shows "follows p (publish ev) Q"
proof (rule followsI)
  fix w :: "'a world" and r w'
  assume "publish ev w = (r, w')"
  then show "\<exists>tr q. wd_trace w' = wd_trace w @ tr \<and> call_run p tr q \<and> Q r q"
    using assms by (intro exI [of _ "[Published ev]"] exI [of _ q])
      (auto simp: publish_def log_effect_def intro!: trace_run_single)
qed

lemma follows_send:
  assumes "call_step p (Sent req) q" and "\<And>r. Q r q"
  shows "follows p (send E req) Q"
proof (rule followsI)
  fix w r w'
  assume "send E req w = (r, w')"
  then show "\<exists>tr q. wd_trace w' = wd_trace w @ tr \<and> call_run p tr q \<and> Q r q"
    using assms by (intro exI [of _ "[Sent req]"] exI [of _ q])
      (auto simp: send_def Let_def await_def tick_def log_effect_def intro!: trace_run_single)
qed

lemma follows_catch:
  assumes m: "follows p m R" and ok: "\<And>a q. R (Inr a) q \<Longrightarrow> Q (Inr a) q"
    and h: "\<And>e q. R (Inl e) q \<Longrightarrow> follows q (h e) Q"
  shows "follows p (catch_act m h) Q"
proof (rule followsI)
  fix w r w'
  assume b: "catch_act m h w = (r, w')"
  obtain r1 w1 where m1: "m w = (r1, w1)" by fastforce
  then obtain tr1 q1 where t1: "wd_trace w1 = wd_trace w @ tr1" "call_run p tr1 q1" "R r1 q1"
    using m unfolding follows_def by blast
  show "\<exists>tr q. wd_trace w' = wd_trace w @ tr \<and> call_run p tr q \<and> Q r q"
  proof (cases r1)
    case (Inr a)
    then show ?thesis using b m1 t1 ok [of a q1] by (auto simp: catch_act_def)
  next
    case (Inl e)
    then have "h e w1 = (r, w')" using b m1 by (simp add: catch_act_def)
    then obtain tr2 q2 where "wd_trace w' = wd_trace w1 @ tr2" "call_run q1 tr2 q2" "Q r q2"
      using h [of e q1] t1(3) Inl unfolding follows_def by blast
    then show ?thesis using t1 trace_run_trans [of call_step q1 tr2 q2 p tr1] by (intro exI [of _ "tr1 @ tr2"]) auto
  qed
qed

lemma follows_attempt:
  assumes "follows p m R" and "\<And>r q. R r q \<Longrightarrow> Q (Inr r) q"
  shows "follows p (attempt m) Q"
proof (rule followsI)
  fix w r w'
  assume "attempt m w = (r, w')"
  then obtain r1 where m: "m w = (r1, w')" and r: "r = Inr r1"
    by (auto simp: attempt_def split: prod.splits)
  from m assms(1) obtain tr q where "wd_trace w' = wd_trace w @ tr" "call_run p tr q" "R r1 q"
    unfolding follows_def by blast
  then show "\<exists>tr q. wd_trace w' = wd_trace w @ tr \<and> call_run p tr q \<and> Q r q"
    using assms(2) r by blast
qed

text \<open>Draws and metrics neither fail nor move the protocol.\<close>

lemma follows_draw_bind [intro]:
  "(\<And>a. follows p (k a) Q) \<Longrightarrow> follows p (bind_act (draw f) k) Q"
  by (rule follows_bind [where R = "\<lambda>r q. q = p \<and> (\<exists>a. r = Inr a)", OF follows_draw]) auto

lemma follows_measure_bind [intro]:
  "follows p (k ()) Q \<Longrightarrow> follows p (bind_act (measure_metric m) k) Q"
  by (rule follows_bind [where R = "\<lambda>r q. q = p \<and> r = Inr ()", OF follows_measure]) auto

section \<open>The handlers follow the protocol\<close>

definition replied_finished :: "reply res \<Rightarrow> phase \<Rightarrow> bool" where
  "replied_finished r q =
     (case r of
        Inl e \<Rightarrow> True
      | Inr (Replied x) \<Rightarrow> q = Finished
      | Inr StillWaiting \<Rightarrow> \<exists>i. q = Waiting i)"

lemma replied_finished_simps [simp]:
  "replied_finished (Inl e) q" "replied_finished (Inr (Replied x)) q = (q = Finished)"
  "replied_finished (Inr StillWaiting) q = (\<exists>i. q = Waiting i)"
  by (simp_all add: replied_finished_def)

definition returned_finished :: "'a res \<Rightarrow> phase \<Rightarrow> bool" where
  "returned_finished r q = (case r of Inl e \<Rightarrow> True | Inr a \<Rightarrow> q = Finished)"

lemma returned_finished_simps [simp]:
  "returned_finished (Inl e) q" "returned_finished (Inr a) q = (q = Finished)"
  by (simp_all add: returned_finished_def)

lemma call_row_simps [simp]:
  "ea_status (call_row c t f status s d parent l h tags) = status"
  "ea_parent_id (call_row c t f status s d parent l h tags) = parent"
  "ea_trace_id (call_row c t f status s d parent l h tags) = t"
  by (simp_all add: call_row_def)

lemma follows_write_call_row:
  assumes "\<And>e. ae_status e = status \<Longrightarrow> ae_parent_id e = parent \<Longrightarrow>
      \<exists>q. call_step p (Wrote e) q \<and> Q (Inr e) q"
    and "\<And>e. Q (Inl e) p"
  shows "follows p (write_call_row E c trace_id fired status dec parent latency h tags) Q"
  unfolding write_call_row_def
  by (rule follows_bind [where R = "\<lambda>r q. q = p", OF follows_draw])
    (auto intro!: follows_write_row assms)

lemma follows_publish_decision_event:
  assumes "\<And>ev. de_audit_id ev = i \<Longrightarrow> cd_outcome (de_decision ev) = outcome_value (pd_outcome d) \<Longrightarrow>
      de_hitl_ticket_id ev = ticket \<Longrightarrow> call_step p (Published ev) q"
    and "Q (Inr ()) q"
  shows "follows p (publish_decision_event E c i trace_id fired d ticket) Q"
  unfolding publish_decision_event_def
  by (rule follows_bind [where R = "\<lambda>r q. q = p \<and> (\<exists>a. r = Inr a)", OF follows_draw])
    (auto intro!: follows_publish assms)

lemma follows_forward: "follows (Cleared i) (forward E req) (\<lambda>r q. q = InFlight i)"
  unfolding forward_def
  by (rule follows_bind [where R = "\<lambda>r q. q = InFlight i", OF follows_send])
    (auto simp: call_step_sent intro: follows_ret)

lemma follows_run_evaluate_response:
  "follows p (run_evaluate_response E ps payload ctx) (\<lambda>r q. q = p)"
  by (rule follows_quiet)
    (simp_all add: run_evaluate_response_def Let_def case_prod_beta' await_def tick_def)

lemma follows_stage8: "follows p (stage8 E c ps raw ct) (\<lambda>r q. q = p)"
  unfolding stage8_def
proof (rule follows_bind [where R = "\<lambda>r q. q = p", OF follows_lift])
  fix parsed q
  assume "q = p"
  have eval: "follows p (bind_act (run_evaluate_response E ps pl ctx) (\<lambda>er. ret (f er))) (\<lambda>r q. q = p)"
    for pl ctx and f :: "evaluation_result \<Rightarrow> bytes \<times> string list"
    by (rule follows_bind [OF follows_run_evaluate_response]) (auto intro: follows_ret)
  show "follows q (case parsed of
      JObj kvs \<Rightarrow>
        (case dict_get kvs ''result'' of
           JObj res \<Rightarrow>
             bind_act (run_evaluate_response E ps (JObj res)
               \<lparr>pc_session_id = cl_session_id c, pc_server = cl_server c, pc_tool = cl_tool c,
                pc_arguments = cl_arguments c,
                pc_response_payload = dict_get res ''structuredContent''\<rparr>) (\<lambda>er.
             ret (encode_mcp_body (JObj (dict_set ''result'' (er_payload er) kvs)) ct, er_tags er))
         | _ \<Rightarrow> ret (raw, []))
    | _ \<Rightarrow> ret (raw, [])) (\<lambda>r q. q = p)"
    using \<open>q = p\<close> by (auto intro: follows_ret eval split: json.split)
qed auto

lemma follows_forward_buffered: "follows (Cleared i) (forward_buffered E c ps) (\<lambda>r q. q = InFlight i)"
  unfolding forward_buffered_def Let_def
  by (rule follows_bind [where R = "\<lambda>r q. q = InFlight i", OF follows_send])
    (auto simp: call_step_sent
      intro!: follows_bind [where R = "\<lambda>r q. q = InFlight i"] follows_lift
        follows_catch [OF follows_stage8] follows_throw follows_ret)

lemma follows_run_forward: "follows (Cleared i) (run_forward E c ps) (\<lambda>r q. q = InFlight i)"
  unfolding run_forward_def
  by (auto intro!: follows_forward_buffered follows_bind [OF follows_forward] follows_ret)

lemma follows_outcome_row:
  assumes "status \<in> {''COMPLETED'', ''UPSTREAM_ERROR''}"
  shows "follows (InFlight i) (write_call_row E c t f status d (Some i) l h tags)
    returned_finished"
  by (rule follows_write_call_row) (use assms in \<open>auto simp: call_step_wrote\<close>)

lemma follows_upstream_failure:
  "follows (InFlight i) (upstream_failure E c t f tags i h start e reason)
     returned_finished"
  unfolding upstream_failure_def
  by (intro follows_draw_bind follows_measure_bind follows_bind [OF follows_outcome_row])
    (auto intro: follows_ret)

lemma follows_forward_and_record:
  "follows (Cleared i) (forward_and_record E c ps t f d i h) returned_finished"
  unfolding forward_and_record_def
proof (rule follows_bind [where R = "\<lambda>r q. q = Cleared i", OF follows_draw])
  fix start q
  assume q: "q = Cleared i"
  have completed: "follows (InFlight i)
      (bind_act (measure_metric (ToolCall (cl_server c) (cl_tool c) ''completed'')) (\<lambda>_.
       bind_act (draw (ev_monotonic E)) (\<lambda>stop.
       bind_act (write_call_row E c t f ''COMPLETED'' (decision_payload d) (Some i)
                   (Some (int_ms (stop - start))) h (merge_tags (static_tags ps) tags)) (\<lambda>_.
         ret resp)))) returned_finished" for resp :: response and tags
    by (intro follows_draw_bind follows_measure_bind follows_bind [OF follows_outcome_row])
      (auto intro: follows_ret)
  show "follows q (bind_act (attempt (run_forward E c ps)) (\<lambda>outcome.
       (case outcome of
          Inl e \<Rightarrow>
            (if exn_kind e = HttpErr then
               upstream_failure E c t f (static_tags ps) i h start e ''upstream_unreachable''
             else if exn_kind e = ResponsePolicyErr then
               upstream_failure E c t f (static_tags ps) i h start e ''response_policy_error''
             else throw e)
        | Inr (response, tags) \<Rightarrow>
            bind_act (measure_metric (ToolCall (cl_server c) (cl_tool c) ''completed'')) (\<lambda>_.
            bind_act (draw (ev_monotonic E)) (\<lambda>stop.
            bind_act (write_call_row E c t f ''COMPLETED'' (decision_payload d) (Some i)
                        (Some (int_ms (stop - start))) h (merge_tags (static_tags ps) tags)) (\<lambda>_.
              ret response)))))) returned_finished"
    unfolding q
    by (rule follows_bind [where R = "\<lambda>r q. q = InFlight i \<and> (\<exists>s. r = Inr s)"],
        rule follows_attempt [OF follows_run_forward])
      (auto intro!: follows_upstream_failure follows_throw completed split: sum.split)
qed auto

lemma follows_run_create_ticket:
  "follows (Held i) (run_create_ticket E c t i g timeout)
     (\<lambda>r q. case r of Inl e \<Rightarrow> True | Inr tk \<Rightarrow> q = Queued i (tk_ticket_id tk))"
  unfolding run_create_ticket_def
proof (intro follows_draw_bind followsI)
  fix uid now w r w'
  let ?t = "new_ticket uid now (cl_server c) (cl_tool c) (cl_arguments c) (subject_of c)
      (cl_session_id c) t i g timeout"
  assume w: "(let w1 = await E w; tk = ?t;
      (r, s') = create_ticket (ev_redis E) tk (sh_redis (wd_shared w1));
      w2 = w1\<lparr>wd_shared := (wd_shared w1)\<lparr>sh_redis := s'\<rparr>\<rparr>
    in case r of Inl e \<Rightarrow> (Inl e, w2) | Inr t \<Rightarrow> (Inr t, log_effect (Opened t) w2)) = (r, w')"
  obtain x s' where x: "create_ticket (ev_redis E) ?t (sh_redis (wd_shared (await E w))) = (x, s')"
    by fastforce
  show "\<exists>tr q. wd_trace w' = wd_trace w @ tr \<and> call_run (Held i) tr q \<and>
      (case r of Inl e \<Rightarrow> True | Inr tk \<Rightarrow> q = Queued i (tk_ticket_id tk))"
  proof (cases x)
    case (Inl e)
    then show ?thesis using w x
      by (intro exI [of _ "[]"] exI [of _ "Held i"]) (auto simp: Let_def await_def tick_def trace_run.run_nil)
  next
    case (Inr tk)
    then have tk: "tk = ?t" using x by (auto simp: create_ticket_def Let_def split: prod.splits sum.splits)
    then have "call_step (Held i) (Opened tk) (Queued i (tk_ticket_id tk))"
      by (simp add: call_step_opened new_ticket_def)
    then show ?thesis using w x Inr
      by (intro exI [of _ "[Opened tk]"] exI [of _ "Queued i (tk_ticket_id tk)"])
        (auto simp: Let_def await_def tick_def log_effect_def intro: trace_run_single)
  qed
qed

definition after_wait :: "int \<Rightarrow> hitl_ticket option option res \<Rightarrow> phase \<Rightarrow> bool" where
  "after_wait i r q =
     (case r of
        Inl e \<Rightarrow> True
      | Inr None \<Rightarrow> q = Waiting i
      | Inr (Some t) \<Rightarrow> q = (if approves t then Cleared i else Refused i))"

lemma follows_run_wait: "follows (Waiting i) (run_wait E k timeout) (after_wait i)"
proof (rule followsI)
  fix w r w'
  assume w: "run_wait E k timeout w = (r, w')"
  let ?x = "wait_for_decision (ev_redis E) (ev_float E) (ev_json_float E)
    (ev_seen E (wd_n w) (wd_shared w)) (ev_poll_clock E (wd_n w)) (ev_fuel E) k timeout"
  consider (none) "?x = None" | (err) e where "?x = Some (Inl e)" | (ok) t where "?x = Some (Inr t)"
    by (cases ?x) (auto, metis sum.exhaust)
  then show "\<exists>tr q. wd_trace w' = wd_trace w @ tr \<and> call_run (Waiting i) tr q \<and> after_wait i r q"
  proof cases
    case none
    then show ?thesis using w
      by (intro exI [of _ "[]"] exI [of _ "Waiting i"])
        (auto simp: run_wait_def Let_def await_def tick_def after_wait_def trace_run.run_nil)
  next
    case err
    then show ?thesis using w
      by (intro exI [of _ "[]"] exI [of _ "Waiting i"])
        (auto simp: run_wait_def Let_def await_def tick_def after_wait_def trace_run.run_nil)
  next
    case ok
    let ?q = "if approves t then Cleared i else Refused i"
    have "call_step (Waiting i) (Resolved t) ?q" by (simp add: call_step_resolved)
    then show ?thesis using w ok
      by (intro exI [of _ "[Resolved t]"] exI [of _ ?q])
        (auto simp: run_wait_def Let_def await_def tick_def log_effect_def after_wait_def
          intro: trace_run_single)
  qed
qed

lemma follows_refusal_row:
  "follows (Refused i) (write_call_row E c t f ''DENIED'' d (Some i) l h tags)
    returned_finished"
  by (rule follows_write_call_row) (auto simp: call_step_wrote)

lemma follows_hold_timeout: "follows (Refused i) (hold_timeout E c t f d i tk g tags) replied_finished"
  unfolding hold_timeout_def
  by (intro follows_measure_bind follows_bind [OF follows_refusal_row]) (auto intro: follows_ret)

lemma follows_hold_denied: "follows (Refused i) (hold_denied E c t f d i tk rs tags) replied_finished"
  unfolding hold_denied_def
  by (intro follows_measure_bind follows_bind [OF follows_refusal_row]) (auto intro: follows_ret)

lemma follows_hold_approved: "follows (Cleared i) (hold_approved E c ps t f d i tk rs) replied_finished"
  unfolding hold_approved_def
  by (rule follows_bind [OF follows_forward_and_record]) (auto intro: follows_ret)

lemma follows_resolve_hold:
  "follows (Waiting i) (resolve_hold E c ps t f d i tk g timeout) replied_finished"
  unfolding resolve_hold_def
  by (rule follows_bind [OF follows_run_wait])
    (auto simp: after_wait_def approves_def
      intro!: follows_ret follows_hold_timeout follows_hold_denied follows_hold_approved
      split: option.splits if_splits)

lemma follows_handle_hold:
  assumes "pd_outcome d = OHold"
  shows "follows Idle (handle_hold E c ps t f d) replied_finished"
  unfolding handle_hold_def Let_def
proof (rule follows_bind [where R = "\<lambda>r q. \<forall>e. r = Inr e \<longrightarrow> q = Held (ae_id e)", OF follows_write_call_row])
  fix held q
  assume q: "\<forall>e. Inr held = Inr e \<longrightarrow> q = Held (ae_id e)"
  let ?i = "ae_id held"
  let ?g = "or_default (pd_reviewer_group d) ''unspecified''"
  let ?to = "case pd_timeout_seconds d of None \<Rightarrow> 0 | Some t \<Rightarrow> t"
  show "follows q
     (bind_act (run_create_ticket E c t ?i ?g ?to) (\<lambda>ticket.
      bind_act (publish_decision_event E c ?i t f d (Some (tk_ticket_id ticket))) (\<lambda>_.
        resolve_hold E c ps t f d ?i ticket ?g ?to))) replied_finished"
  proof (rule follows_bind [OF follows_run_create_ticket [of ?i, folded q [rule_format, OF refl]]], simp)
    fix ticket :: hitl_ticket and q1
    assume "case Inr ticket of Inl e \<Rightarrow> True | Inr tk \<Rightarrow> q1 = Queued ?i (tk_ticket_id tk)"
    then have q1: "q1 = Queued ?i (tk_ticket_id ticket)" by simp
    show "follows q1 (bind_act (publish_decision_event E c ?i t f d (Some (tk_ticket_id ticket))) (\<lambda>_.
        resolve_hold E c ps t f d ?i ticket ?g ?to)) replied_finished"
      unfolding q1
      by (rule follows_bind [where R = "\<lambda>r q. q = Waiting ?i",
            OF follows_publish_decision_event [where q = "Waiting ?i"]])
        (use assms follows_resolve_hold in \<open>auto simp: call_step_published\<close>)
  qed
qed (auto simp: call_step_wrote)

lemma follows_deny_call:
  assumes "pd_outcome d = ODeny"
  shows "follows Idle (deny_call E c ps t f d) replied_finished"
  unfolding deny_call_def
proof (intro follows_measure_bind
    follows_bind [where R = "\<lambda>r q. \<forall>e. r = Inr e \<longrightarrow> q = Denied (ae_id e)", OF follows_write_call_row])
  fix e q
  assume "\<forall>x. Inr e = Inr x \<longrightarrow> q = Denied (ae_id x)"
  then have q: "q = Denied (ae_id e)" by simp
  show "follows q (bind_act (publish_decision_event E c (ae_id e) t f d None) (\<lambda>_.
       ret (Replied (policy_denied_response (cl_rpc_id c) d)))) replied_finished"
    unfolding q
    by (rule follows_bind [where R = "\<lambda>r q. q = Finished",
          OF follows_publish_decision_event [where q = Finished]])
      (use assms in \<open>auto simp: call_step_published intro: follows_ret\<close>)
qed (auto simp: call_step_wrote)

lemma follows_pass_call:
  assumes "pd_outcome d = OPass"
  shows "follows Idle (pass_call E c ps t f d) replied_finished"
  unfolding pass_call_def
proof (rule follows_bind [where R = "\<lambda>r q. \<forall>e. r = Inr e \<longrightarrow> q = Intent (ae_id e)", OF follows_write_call_row])
  fix e q
  assume "\<forall>x. Inr e = Inr x \<longrightarrow> q = Intent (ae_id x)"
  then have q: "q = Intent (ae_id e)" by simp
  show "follows q (bind_act (publish_decision_event E c (ae_id e) t f d None) (\<lambda>_.
     bind_act (forward_and_record E c ps t f d (ae_id e) no_hitl) (\<lambda>r. ret (Replied r)))) replied_finished"
    unfolding q
    by (rule follows_bind [where R = "\<lambda>r q. q = Cleared (ae_id e)",
          OF follows_publish_decision_event [where q = "Cleared (ae_id e)"]])
      (use assms in \<open>auto simp: call_step_published intro!: follows_ret follows_bind [OF follows_forward_and_record]\<close>)
qed (auto simp: call_step_wrote)

lemma follows_measure_fires: "follows p (measure_fires fs d) (\<lambda>r q. q = p)"
  by (induction fs) (auto intro: follows_ret)

lemma follows_evaluate_policy_set: "follows p (evaluate_policy_set E ps c) (\<lambda>r q. q = p)"
proof -
  have e: "follows p (run_evaluate E ps c) (\<lambda>r q. q = p)"
    by (rule follows_quiet) (simp_all add: run_evaluate_def Let_def case_prod_beta' await_def tick_def)
  show ?thesis
    unfolding evaluate_policy_set_def
    by (rule follows_catch [OF follows_bind [OF e, where Q = "\<lambda>r q. q = p"]])
      (auto intro: follows_ret)
qed

lemma follows_run_compile: "follows p (run_compile c) (\<lambda>r q. q = p)"
  by (rule follows_quiet) (simp_all add: run_compile_def case_prod_beta' Let_def)

lemma follows_handle_tool_call: "follows Idle (handle_tool_call E c) replied_finished"
proof -
  have d: "follows Idle (bind_act (draw (ev_uuid E)) (\<lambda>t.
      (case pd_outcome d of
         ODeny \<Rightarrow> deny_call E c ps t f d
       | OHold \<Rightarrow> handle_hold E c ps t f d
       | OPass \<Rightarrow> pass_call E c ps t f d))) replied_finished" for d ps f
    by (rule follows_draw_bind)
      (auto intro: follows_deny_call follows_handle_hold follows_pass_call split: outcome.split)
  have f: "follows Idle (bind_act (measure_fires f d) (\<lambda>_. bind_act (draw (ev_uuid E)) (\<lambda>t.
      (case pd_outcome d of
         ODeny \<Rightarrow> deny_call E c ps t f d
       | OHold \<Rightarrow> handle_hold E c ps t f d
       | OPass \<Rightarrow> pass_call E c ps t f d)))) replied_finished" for d ps f
    by (rule follows_bind [OF follows_measure_fires]) (auto simp: d)
  show ?thesis
    unfolding handle_tool_call_def
    by (rule follows_bind [OF follows_run_compile], simp,
        rule follows_bind [OF follows_evaluate_policy_set]) (auto simp: f)
qed

end
