(* ===== verification/CallSafety.thy ===== *)
theory CallSafety
  imports CallProtocol
begin

text \<open>
  What the protocol of a call rules out, by rule induction over its runs, and the same for the
  handlers, which follow it: complete mediation of the upstream call, the shape of the audit
  trail, one published event per call.
\<close>

section \<open>The parts of a trace\<close>

fun rows_of :: "effect_log list \<Rightarrow> audit_entry list" where
  "rows_of [] = []"
| "rows_of (Wrote e # tr) = e # rows_of tr"
| "rows_of (_ # tr) = rows_of tr"

fun events_of :: "effect_log list \<Rightarrow> decision_event list" where
  "events_of [] = []"
| "events_of (Published ev # tr) = ev # events_of tr"
| "events_of (_ # tr) = events_of tr"

fun sent_of :: "effect_log list \<Rightarrow> http_request list" where
  "sent_of [] = []"
| "sent_of (Sent req # tr) = req # sent_of tr"
| "sent_of (_ # tr) = sent_of tr"

fun approved_in :: "effect_log list \<Rightarrow> bool" where
  "approved_in [] = False"
| "approved_in (Resolved r # tr) = (approves r \<or> approved_in tr)"
| "approved_in (_ # tr) = approved_in tr"

lemma parts_append [simp]:
  "rows_of (us @ vs) = rows_of us @ rows_of vs"
  "events_of (us @ vs) = events_of us @ events_of vs"
  "sent_of (us @ vs) = sent_of us @ sent_of vs"
  "approved_in (us @ vs) = (approved_in us \<or> approved_in vs)"
proof -
  show "rows_of (us @ vs) = rows_of us @ rows_of vs"
    by (induction us rule: rows_of.induct) auto
  show "events_of (us @ vs) = events_of us @ events_of vs"
    by (induction us rule: events_of.induct) auto
  show "sent_of (us @ vs) = sent_of us @ sent_of vs"
    by (induction us rule: sent_of.induct) auto
  show "approved_in (us @ vs) = (approved_in us \<or> approved_in vs)"
    by (induction us rule: approved_in.induct) auto
qed

lemma rows_of_iff: "e \<in> set (rows_of tr) \<longleftrightarrow> Wrote e \<in> set tr"
  by (induction tr rule: rows_of.induct) auto

section \<open>The invariant of a run\<close>

text \<open>The row that decided the call, with the event published for it.\<close>

definition decided_by :: "string \<Rightarrow> int \<Rightarrow> effect_log list \<Rightarrow> bool" where
  "decided_by status i tr \<longleftrightarrow>
     (\<exists>e. rows_of tr = [e] \<and> ae_id e = i \<and> ae_status e = status \<and> ae_parent_id e = None)"

definition announced :: "int \<Rightarrow> effect_log list \<Rightarrow> bool" where
  "announced i tr \<longleftrightarrow> (\<exists>ev. events_of tr = [ev] \<and> de_audit_id ev = i)"

text \<open>An INTENT row, or a HELD row and a reviewer's approval.\<close>

definition cleared :: "int \<Rightarrow> effect_log list \<Rightarrow> bool" where
  "cleared i tr \<longleftrightarrow> announced i tr \<and>
     (decided_by ''INTENT'' i tr \<or> decided_by ''HELD'' i tr \<and> approved_in tr)"

text \<open>The three ways a call ends.\<close>

definition ended_denied :: "effect_log list \<Rightarrow> bool" where
  "ended_denied tr \<longleftrightarrow> sent_of tr = [] \<and> (\<exists>i. announced i tr \<and> decided_by ''DENIED'' i tr)"

definition ended_refused :: "effect_log list \<Rightarrow> bool" where
  "ended_refused tr \<longleftrightarrow> sent_of tr = [] \<and>
     (\<exists>e f. rows_of tr = [e, f] \<and> ae_status e = ''HELD'' \<and> ae_parent_id e = None \<and>
        ae_status f = ''DENIED'' \<and> ae_parent_id f = Some (ae_id e) \<and> announced (ae_id e) tr)"

definition ended_forwarded :: "effect_log list \<Rightarrow> bool" where
  "ended_forwarded tr \<longleftrightarrow> (\<exists>req. sent_of tr = [req]) \<and>
     (\<exists>e f. rows_of tr = [e, f] \<and> ae_parent_id e = None \<and>
        (ae_status e = ''INTENT'' \<or> ae_status e = ''HELD'' \<and> approved_in tr) \<and>
        ae_status f \<in> {''COMPLETED'', ''UPSTREAM_ERROR''} \<and> ae_parent_id f = Some (ae_id e) \<and>
        announced (ae_id e) tr)"

fun run_inv :: "phase \<Rightarrow> effect_log list \<Rightarrow> bool" where
  "run_inv Idle tr = (rows_of tr = [] \<and> events_of tr = [] \<and> sent_of tr = [])"
| "run_inv (Denied i) tr = (decided_by ''DENIED'' i tr \<and> events_of tr = [] \<and> sent_of tr = [])"
| "run_inv (Intent i) tr = (decided_by ''INTENT'' i tr \<and> events_of tr = [] \<and> sent_of tr = [])"
| "run_inv (Held i) tr = (decided_by ''HELD'' i tr \<and> events_of tr = [] \<and> sent_of tr = [])"
| "run_inv (Queued i k) tr = (decided_by ''HELD'' i tr \<and> events_of tr = [] \<and> sent_of tr = [])"
| "run_inv (Waiting i) tr = (decided_by ''HELD'' i tr \<and> announced i tr \<and> sent_of tr = [])"
| "run_inv (Cleared i) tr = (cleared i tr \<and> sent_of tr = [])"
| "run_inv (Refused i) tr = (decided_by ''HELD'' i tr \<and> announced i tr \<and> sent_of tr = [])"
| "run_inv (InFlight i) tr = (cleared i tr \<and> (\<exists>req. sent_of tr = [req]))"
| "run_inv Finished tr = (ended_denied tr \<or> ended_refused tr \<or> ended_forwarded tr)"

lemmas trace_defs =
  decided_by_def announced_def cleared_def ended_denied_def ended_refused_def ended_forwarded_def

lemma run_inv_measured: "run_inv p tr \<Longrightarrow> run_inv p (tr @ [Measured m])"
  by (cases p) (simp_all add: trace_defs)

lemma run_inv_step: "call_step p x q \<Longrightarrow> run_inv p tr \<Longrightarrow> run_inv q (tr @ [x])"
proof (induction rule: call_step.induct)
  case (measured p m)
  then show ?case by (rule run_inv_measured)
next
  case (outcome_recorded e i)
  then show ?case by (auto simp: trace_defs)
next
  case (refusal_recorded e i)
  then show ?case by (auto simp: trace_defs)
qed (auto simp: trace_defs)

interpretation cp: trace_invariant call_step Idle run_inv
  by unfold_locales (auto simp: run_inv_step)

section \<open>Mediation\<close>

text \<open>When a request is sent, the call has been decided, announced and, if held, approved.\<close>

lemma sent_after_cleared:
  assumes "call_run Idle (us @ Sent req # vs) q"
  shows "\<exists>i. cleared i us \<and> sent_of us = []"
  using cp.inv_before [OF assms] by (auto simp: call_step_sent)

section \<open>The handlers\<close>

lemma handle_tool_call_run:
  assumes "handle_tool_call E c w = (r, w')"
  obtains tr q where "wd_trace w' = wd_trace w @ tr" and "call_run Idle tr q" and "replied_finished r q"
  using follows_handle_tool_call [of E c] assms unfolding follows_def by blast

lemma handle_tool_call_mediated:
  assumes "handle_tool_call E c w = (r, w')" and "wd_trace w' = wd_trace w @ us @ Sent req # vs"
  shows "\<exists>i. cleared i us \<and> sent_of us = []"
proof -
  obtain tr q where "wd_trace w' = wd_trace w @ tr" "call_run Idle tr q"
    using handle_tool_call_run [OF assms(1)] .
  then show ?thesis using sent_after_cleared [of us req vs q] assms(2) by simp
qed

lemma handle_tool_call_trail:
  assumes "handle_tool_call E c w = (Inr (Replied x), w')" and "wd_trace w' = wd_trace w @ tr"
  shows "ended_denied tr \<or> ended_refused tr \<or> ended_forwarded tr"
proof -
  obtain tr' q where t: "wd_trace w' = wd_trace w @ tr'" "call_run Idle tr' q"
    "replied_finished (Inr (Replied x)) q"
    using handle_tool_call_run [OF assms(1)] .
  then have "call_run Idle tr Finished" using assms(2) by simp
  from cp.inv_run [OF this] show ?thesis by simp
qed

end
