(* ===== verification/PolicySetProps.thy ===== *)
theory PolicySetProps
  imports PolicySet Interfaces
begin

text \<open>
  What policy evaluation guarantees: the precedence of the checks, when a call passes, the
  fixed-window bound of the rate limiter, coherence of the compile cache, default-deny for a
  server with an allowlist, and redaction of every response that is evaluated.
\<close>

section \<open>Tags\<close>

lemma set_tags_fold:
  "set (foldl (\<lambda>tags p. add_missing tags (f p)) acc ps) = set acc \<union> (\<Union>p \<in> set ps. set (f p))"
  by (induction ps arbitrary: acc) auto

lemma distinct_tags_fold:
  "distinct acc \<Longrightarrow> distinct (foldl (\<lambda>tags p. add_missing tags (f p)) acc ps)"
  by (induction ps arbitrary: acc) (simp_all add: distinct_add_missing)

lemma set_static_tags: "set (static_tags ps) = (\<Union>p \<in> set (ps_policies ps). set (am_tag (pol_audit p)))"
  by (simp add: static_tags_def set_tags_fold)

lemma distinct_static_tags: "distinct (static_tags ps)"
  by (simp add: static_tags_def distinct_tags_fold)

section \<open>The rate limiter\<close>

lemma check_and_increment_other:
  "k' \<noteq> k \<Longrightarrow> map_of (rl_windows (snd (check_and_increment clock k l w lm))) k' = map_of (rl_windows lm) k'"
  by (simp add: check_and_increment_def Let_def case_prod_beta')

lemma check_and_increment_reads:
  "rl_reads (snd (check_and_increment clock k l w lm)) = rl_reads lm + 1"
  by (simp add: check_and_increment_def Let_def case_prod_beta')

text \<open>The window of one key alone: the state and verdict of a call at time \<open>now\<close>.\<close>

definition window_step :: "int \<Rightarrow> int \<Rightarrow> (int \<times> rat) option \<Rightarrow> rat \<Rightarrow> bool \<times> (int \<times> rat) option" where
  "window_step limit w st now =
     (let (c, s) = (case st of None \<Rightarrow> (0, now) | Some x \<Rightarrow> x);
          (c', s') = (if now - s \<ge> of_int w then (0, now) else (c, s))
      in (c' + 1 \<le> limit, Some (c' + 1, s')))"

lemma check_and_increment_window:
  "fst (check_and_increment clock k l w lm) = fst (window_step l w (map_of (rl_windows lm) k) (clock (rl_reads lm)))"
  "map_of (rl_windows (snd (check_and_increment clock k l w lm))) k =
     snd (window_step l w (map_of (rl_windows lm) k) (clock (rl_reads lm)))"
  by (auto simp: check_and_increment_def window_step_def Let_def split: option.splits prod.splits)

fun window_run :: "int \<Rightarrow> int \<Rightarrow> (int \<times> rat) option \<Rightarrow> rat list \<Rightarrow> (rat \<times> bool) list" where
  "window_run limit w st [] = []"
| "window_run limit w st (t # ts) =
     (case window_step limit w st t of (ok, st') \<Rightarrow> (t, ok) # window_run limit w st' ts)"

definition accepted_in :: "rat \<Rightarrow> rat \<Rightarrow> (rat \<times> bool) list \<Rightarrow> nat" where
  "accepted_in a b rs = length (filter (\<lambda>(t, ok). ok \<and> a \<le> t \<and> t < b) rs)"

lemma accepted_in_simps [simp]:
  "accepted_in a b [] = 0"
  "accepted_in a b ((t, ok) # rs) = (if ok \<and> a \<le> t \<and> t < b then 1 else 0) + accepted_in a b rs"
  by (simp_all add: accepted_in_def)

text \<open>
  With \<open>c\<close> calls counted in the current window, the rest of that window accepts at most
  \<open>limit - c\<close> more. Any stretch no longer than one window meets at most two windows, so it
  accepts at most twice the limit.
\<close>

definition left :: "int \<Rightarrow> int \<Rightarrow> nat" where
  "left limit c = nat (limit - c)"

lemma window_run_bound_one:
  assumes "0 < limit" and "sorted ts" and "b \<le> s + of_int w" and "\<forall>t \<in> set ts. s \<le> t"
  shows "accepted_in a b (window_run limit w (Some (c, s)) ts) \<le> left limit c"
  using assms
proof (induction ts arbitrary: c)
  case Nil
  then show ?case by simp
next
  case (Cons t ts)
  show ?case
  proof (cases "t - s \<ge> of_int w")
    case False
    then have step: "window_step limit w (Some (c, s)) t = (c + 1 \<le> limit, Some (c + 1, s))"
      by (simp add: window_step_def)
    have "accepted_in a b (window_run limit w (Some (c + 1, s)) ts) \<le> left limit (c + 1)"
      using Cons by simp
    then show ?thesis by (auto simp: step left_def)
  next
    case True
    then have late: "b \<le> t" using Cons.prems(3) by simp
    have "accepted_in a b (window_run limit w st us) = 0" if "\<forall>u \<in> set us. b \<le> u" for st us
      using that
      by (induction us arbitrary: st) (auto split: prod.splits)
    from this [of "t # ts" "Some (c, s)"] late Cons.prems(2)
    have "accepted_in a b (window_run limit w (Some (c, s)) (t # ts)) = 0"
      by (fastforce simp del: window_run.simps)
    then show ?thesis by linarith
  qed
qed

lemma window_run_bound_from:
  assumes "0 < limit" and "sorted ts" and "b \<le> a + of_int w" and "\<forall>t \<in> set ts. a \<le> t"
  shows "accepted_in a b (window_run limit w st ts) \<le>
    (case st of None \<Rightarrow> 0 | Some (c, s) \<Rightarrow> left limit c) + nat limit"
  using assms(2,4)
proof (induction ts arbitrary: st)
  case Nil
  then show ?case by simp
next
  case (Cons t ts)
  have pos: "Suc (left limit 1) = nat limit" using assms(1) by (simp add: left_def)
  have fresh: "accepted_in a b (window_run limit w (Some (1, t)) ts) \<le> left limit 1"
    using window_run_bound_one [of limit ts b t w a 1] assms(1,3) Cons.prems by simp
  have reset: "accepted_in a b ((t, 1 \<le> limit) # window_run limit w (Some (1, t)) ts) \<le> nat limit"
    using fresh pos by simp
  show ?case
  proof (cases st)
    case None
    then have "window_step limit w st t = (1 \<le> limit, Some (1, t))"
      by (simp add: window_step_def)
    then show ?thesis using reset None by simp
  next
    case (Some x)
    obtain c s where x: "x = (c, s)" by (cases x)
    show ?thesis
    proof (cases "t - s \<ge> of_int w")
      case True
      then have "window_step limit w st t = (1 \<le> limit, Some (1, t))"
        by (simp add: window_step_def Some x)
      then show ?thesis using reset Some x by simp
    next
      case False
      then have "window_step limit w st t = (c + 1 \<le> limit, Some (c + 1, s))"
        by (simp add: window_step_def Some x)
      moreover have "accepted_in a b (window_run limit w (Some (c + 1, s)) ts) \<le> left limit (c + 1) + nat limit"
        using Cons.IH [of "Some (c + 1, s)"] Cons.prems by simp
      ultimately show ?thesis using Some x by (auto simp: left_def)
    qed
  qed
qed

lemma left_le: "0 \<le> c \<Longrightarrow> left limit c \<le> nat limit"
  by (simp add: left_def)

lemma window_run_bound_two:
  assumes l: "0 < limit" and "sorted ts" and b: "b \<le> a + of_int w"
    and st: "case st of None \<Rightarrow> True | Some (c, s) \<Rightarrow> 0 \<le> c"
  shows "accepted_in a b (window_run limit w st ts) \<le> 2 * nat limit"
  using assms(2) st
proof (induction ts arbitrary: st)
  case Nil
  then show ?case by simp
next
  case (Cons t ts)
  show ?case
  proof (cases "a \<le> t")
    case True
    then have "\<forall>u \<in> set (t # ts). a \<le> u" using Cons.prems(1) by auto
    from window_run_bound_from [OF l Cons.prems(1) b this, of st]
    show ?thesis using Cons.prems(2) left_le [of _ limit]
      by (fastforce split: option.splits prod.splits)
  next
    case False
    obtain ok st' where step: "window_step limit w st t = (ok, st')" by fastforce
    then have "case st' of None \<Rightarrow> True | Some (c, s) \<Rightarrow> 0 \<le> c"
      using Cons.prems(2) by (auto simp: window_step_def Let_def split: option.splits prod.splits if_splits)
    with Cons.IH [of st'] Cons.prems(1) False step show ?thesis by simp
  qed
qed

section \<open>The compile cache\<close>

lemma flags_fold:
  "map_of (foldl (\<lambda>flags p. if is_allowlist (pol_effect p)
      then dict_set (at_server (pol_applies p)) True flags else flags) fl ps) srv =
   (if \<exists>p \<in> set ps. is_allowlist (pol_effect p) \<and> at_server (pol_applies p) = srv
    then Some True else map_of fl srv)"
  by (induction ps arbitrary: fl) auto

lemma compute_flags:
  "map_of (compute_server_allowlist_flags ps) srv =
   (if \<exists>p \<in> set ps. is_allowlist (pol_effect p) \<and> at_server (pol_applies p) = srv
    then Some True else None)"
  by (simp add: compute_server_allowlist_flags_def flags_fold)

definition engine_ok :: "policy list \<Rightarrow> policy_engine \<Rightarrow> bool" where
  "engine_ok policies pe \<longleftrightarrow>
     pe_policies pe = policies \<and> pe_flags pe = compute_server_allowlist_flags policies \<and>
     (\<forall>srv tool ps. map_of (pe_cache pe) (srv, tool) = Some ps \<longrightarrow>
        ps = compile_fresh policies (compute_server_allowlist_flags policies) srv tool)"

definition compiled :: "policy list \<Rightarrow> string \<Rightarrow> string \<Rightarrow> policy_set" where
  "compiled policies srv tool = compile_fresh policies (compute_server_allowlist_flags policies) srv tool"

lemma engine_ok_new: "engine_ok policies (new_engine policies)"
  by (simp add: engine_ok_def new_engine_def)

lemma compile_ok:
  assumes "engine_ok policies pe"
  shows "fst (compile pe srv tool) = compiled policies srv tool"
    and "engine_ok policies (snd (compile pe srv tool))"
  using assms by (auto simp: compile_def engine_ok_def compiled_def Let_def split: option.splits)

interpretation pc: memo_table "\<lambda>(srv, tool) pe. compile pe srv tool" "\<lambda>(srv, tool). compiled policies srv tool"
  "engine_ok policies" for policies
  by standard (auto simp: compile_ok)

lemma compiled_policies:
  "set (ps_policies (compiled policies srv tool)) =
     {p \<in> set policies. applies_matches (pol_applies p) srv tool}"
  by (auto simp: compiled_def compile_fresh_def)

lemma compiled_sorted:
  "sorted (map (\<lambda>p. effect_rank (pol_effect p)) (ps_policies (compiled policies srv tool)))"
  by (simp add: compiled_def compile_fresh_def)

lemma compiled_stable:
  "filter (\<lambda>p. effect_rank (pol_effect p) = k) (ps_policies (compiled policies srv tool)) =
   filter (\<lambda>p. effect_rank (pol_effect p) = k \<and> applies_matches (pol_applies p) srv tool) policies"
  by (simp add: compiled_def compile_fresh_def sort_key_stable conj_commute)

lemma compiled_flag:
  "ps_server_has_allowlist (compiled policies srv tool) \<longleftrightarrow>
     (\<exists>p \<in> set policies. is_allowlist (pol_effect p) \<and> at_server (pol_applies p) = srv)"
  by (simp add: compiled_def compile_fresh_def compute_flags)

section \<open>Request-side evaluation\<close>

lemma rate_loop_deny: "rate_loop clock subject ps lm = (Some d, lm') \<Longrightarrow> pd_outcome d = ODeny"
  by (induction ps arbitrary: lm)
    (auto simp: decision_def split: effect.splits prod.splits if_splits)

lemma decision_outcome: "pd_outcome (decision oc f r) = oc" by (simp add: decision_def)
lemma custom_loop_deny: "custom_loop reg ctx ps = Inr (Some d) \<Longrightarrow> pd_outcome d = ODeny"
proof (induction ps)
  case (Cons p ps)
  show ?case
  proof (cases "pol_effect p")
    case (CustomEffect n st params)
    show ?thesis
    proof (cases "st = RequestStage")
      case True
      then show ?thesis
        using Cons CustomEffect by (auto simp: bind_res_eq_Inr decision_outcome split: option.splits)
    qed (use Cons CustomEffect in simp)
  qed (use Cons in simp_all)
qed simp

definition hold_decision :: "policy \<Rightarrow> policy_decision" where
  "hold_decision p =
     \<lparr>pd_outcome = OHold, pd_fired_policy = Some (pol_name p), pd_reason = Some ''hitl_required'',
      pd_reviewer_group = Some (reviewer_group_of (pol_effect p)),
      pd_timeout_seconds = Some (hitl_timeout (pol_effect p))\<rparr>"

lemma hitl_loop_find:
  "hitl_loop ps = map_option hold_decision (find (\<lambda>p. is_hitl_gate (pol_effect p)) ps)"
proof (induction ps)
  case (Cons p ps)
  then show ?case by (cases "pol_effect p") (simp_all add: hold_decision_def)
qed simp

lemma hitl_loop_None: "hitl_loop ps = None \<longleftrightarrow> (\<forall>p \<in> set ps. \<not> is_hitl_gate (pol_effect p))"
  by (induction ps) (auto split: effect.splits)

lemma custom_loop_None:
  "custom_loop reg (Some c) ps = Inr None \<longleftrightarrow>
     (\<forall>p \<in> set ps. \<forall>n params. pol_effect p = CustomEffect n RequestStage params \<longrightarrow>
        (\<exists>fn. map_of reg n = Some fn \<and> fn p c = Inr None))"
proof (induction ps)
  case (Cons p ps)
  then show ?case
    by (cases "pol_effect p") (auto simp: bind_res_eq_Inr split: option.splits)
qed simp

text \<open>When a call passes.\<close>

definition passes :: "(string, request_fn) dict \<Rightarrow> (nat \<Rightarrow> rat) \<Rightarrow> policy_set \<Rightarrow> string \<Rightarrow> request_ctx \<Rightarrow>
    limiter \<Rightarrow> bool" where
  "passes reg clock ps subject ctx lm \<longleftrightarrow>
     (\<exists>p \<in> set (ps_policies ps). is_allowlist (pol_effect p)) \<or>
     \<not> ps_server_has_allowlist ps \<and>
     (\<forall>p \<in> set (ps_policies ps). \<not> is_denylist (pol_effect p) \<and> \<not> is_hitl_gate (pol_effect p) \<and>
        \<not> is_cost_cap (pol_effect p)) \<and>
     fst (rate_loop clock subject (ps_policies ps) lm) = None \<and>
     (\<forall>p \<in> set (ps_policies ps). \<forall>n params. pol_effect p = CustomEffect n RequestStage params \<longrightarrow>
        (\<exists>fn. map_of reg n = Some fn \<and> fn p ctx = Inr None))"

lemma decision_simps [simp]:
  "pd_outcome (decision oc f why) = oc" "pd_fired_policy (decision oc f why) = f"
  "pd_reason (decision oc f why) = Some why" "pd_outcome pass_decision = OPass"
  "pd_outcome (hold_decision p) = OHold"
  by (simp_all add: decision_def pass_decision_def hold_decision_def)

lemma evaluate_pass_iff:
  "(\<exists>d. fst (evaluate reg clock ps subject (Some ctx) lm) = Inr d \<and> pd_outcome d = OPass) \<longleftrightarrow>
     passes reg clock ps subject ctx lm"
proof (cases "find (\<lambda>p. is_allowlist (pol_effect p)) (ps_policies ps)")
  case (Some p)
  then show ?thesis using find_SomeD [OF Some] by (auto simp: evaluate_def passes_def)
next
  case None
  note allow = this
  then have na: "\<not> (\<exists>p \<in> set (ps_policies ps). is_allowlist (pol_effect p))" by (simp add: find_None_all)
  show ?thesis
  proof (cases "ps_server_has_allowlist ps")
    case True
    then show ?thesis using allow na by (simp add: evaluate_def passes_def)
  next
    case False
    note flag = this
    show ?thesis
    proof (cases "find (\<lambda>p. is_denylist (pol_effect p)) (ps_policies ps)")
      case (Some p)
      then show ?thesis using allow flag na find_SomeD [OF Some] by (auto simp: evaluate_def passes_def)
    next
      case None
      note deny = this
      then have nd: "\<forall>p \<in> set (ps_policies ps). \<not> is_denylist (pol_effect p)" by (simp add: find_None_all)
      obtain r lm' where r: "rate_loop clock subject (ps_policies ps) lm = (r, lm')" by fastforce
      show ?thesis
      proof (cases r)
        case (Some d)
        then show ?thesis using allow flag deny na r rate_loop_deny [of clock subject "ps_policies ps" lm d lm']
          by (simp add: evaluate_def passes_def)
      next
        case None
        note rate = this
        let ?c = "custom_loop reg (Some ctx) (ps_policies ps)"
        have custom: "?c = Inr None \<longleftrightarrow> (\<forall>p \<in> set (ps_policies ps). \<forall>n params.
            pol_effect p = CustomEffect n RequestStage params \<longrightarrow>
            (\<exists>fn. map_of reg n = Some fn \<and> fn p ctx = Inr None))"
          by (rule custom_loop_None)
        consider (err) e where "?c = Inl e" | (deny) d where "?c = Inr (Some d)" | (none) "?c = Inr None"
          by (cases ?c) (auto simp: option.nchotomy)
        then show ?thesis
        proof cases
          case err
          then show ?thesis using allow flag deny na r rate custom by (simp add: evaluate_def passes_def)
        next
          case deny
          then show ?thesis
            using allow flag \<open>find (\<lambda>p. is_denylist (pol_effect p)) (ps_policies ps) = None\<close> na r rate custom
              custom_loop_deny [OF deny]
            by (simp add: evaluate_def passes_def)
        next
          case none
          have hitl: "hitl_loop (ps_policies ps) = None \<longleftrightarrow> (\<forall>p \<in> set (ps_policies ps). \<not> is_hitl_gate (pol_effect p))"
            by (rule hitl_loop_None)
          have cap: "find (\<lambda>p. is_cost_cap (pol_effect p)) (ps_policies ps) = None \<longleftrightarrow>
              (\<forall>p \<in> set (ps_policies ps). \<not> is_cost_cap (pol_effect p))" by (rule find_None_all)
          have hold: "pd_outcome d = OHold" if "hitl_loop (ps_policies ps) = Some d" for d
            using that by (auto simp: hitl_loop_find)
          have eval: "fst (evaluate reg clock ps subject (Some ctx) lm) =
              (case hitl_loop (ps_policies ps) of
                 Some d \<Rightarrow> Inr d
               | None \<Rightarrow> (case find (\<lambda>p. is_cost_cap (pol_effect p)) (ps_policies ps) of
                   Some p \<Rightarrow> Inl (Exn NotImplementedErr (cost_cap_text p))
                 | None \<Rightarrow> Inr pass_decision))"
            using allow flag deny r rate none by (simp add: evaluate_def split: option.split)
          show ?thesis
          proof (cases "hitl_loop (ps_policies ps)")
            case (Some d)
            then show ?thesis using eval hold hitl na flag by (auto simp: passes_def)
          next
            case None
            then show ?thesis using eval hitl cap na flag nd r rate custom none
              by (auto simp: passes_def split: option.splits)
          qed
        qed
      qed
    qed
  qed
qed

text \<open>An allowlist hit passes whatever else applies, and counts against no rate limit.\<close>

lemma evaluate_allowlisted:
  "find (\<lambda>p. is_allowlist (pol_effect p)) (ps_policies ps) = Some p \<Longrightarrow>
     evaluate reg clock ps subject ctx lm = (Inr (decision OPass (Some (pol_name p)) ''allowlisted''), lm)"
  by (simp add: evaluate_def)

lemma default_deny:
  assumes "\<exists>p \<in> set policies. is_allowlist (pol_effect p) \<and> at_server (pol_applies p) = srv"
    and "\<forall>p \<in> set policies. is_allowlist (pol_effect p) \<longrightarrow> \<not> applies_matches (pol_applies p) srv tool"
  shows "evaluate reg clock (compiled policies srv tool) subject ctx lm =
    (Inr (decision ODeny None ''not_on_allowlist''), lm)"
proof -
  have "find (\<lambda>p. is_allowlist (pol_effect p)) (ps_policies (compiled policies srv tool)) = None"
    using assms(2) by (auto simp: find_None_all compiled_policies)
  moreover have "ps_server_has_allowlist (compiled policies srv tool)"
    using assms(1) by (simp add: compiled_flag)
  ultimately show ?thesis by (simp add: evaluate_def)
qed

lemma evaluate_denylist:
  assumes "\<forall>p \<in> set (ps_policies ps). \<not> is_allowlist (pol_effect p)"
    and "\<exists>p \<in> set (ps_policies ps). is_denylist (pol_effect p)"
  shows "\<exists>d. evaluate reg clock ps subject ctx lm = (Inr d, lm) \<and> pd_outcome d = ODeny"
proof -
  obtain p where "find (\<lambda>p. is_denylist (pol_effect p)) (ps_policies ps) = Some p"
    using assms(2) by (metis find_None_all option.exhaust)
  moreover have "find (\<lambda>p. is_allowlist (pol_effect p)) (ps_policies ps) = None"
    using assms(1) by (simp add: find_None_all)
  ultimately show ?thesis by (auto simp: evaluate_def)
qed

section \<open>Response-side evaluation\<close>

lemma pii_pattern_names_set:
  "name \<in> set (pii_pattern_names ps) \<longleftrightarrow>
     (\<exists>p \<in> set ps. \<exists>pats. pol_effect p = PiiRedactionEffect pats \<and> name \<in> set pats)"
  by (induction ps) (auto split: effect.splits)

lemma evaluate_response_redacts:
  assumes "evaluate_response reg ps payload ctx s = (Inr r, s')"
  shows "\<forall>t \<in> set (json_strings (er_payload r)). \<not> pii_in (pii_pattern_names (ps_policies ps)) t"
    and "json_frame (er_payload r) = json_frame payload"
proof -
  have "er_payload r = (if pii_pattern_names (ps_policies ps) \<noteq> []
      then redact_json_value payload (pii_pattern_names (ps_policies ps)) else payload)"
    using assms by (auto simp: evaluate_response_def Let_def split: prod.splits sum.splits)
  then show "\<forall>t \<in> set (json_strings (er_payload r)). \<not> pii_in (pii_pattern_names (ps_policies ps)) t"
    and "json_frame (er_payload r) = json_frame payload"
    using redact_json_value_no_pii [of payload] json_frame_redact [of payload]
    by (auto simp: pii_in_def)
qed

lemma response_loop_none:
  "\<not> list_ex (\<lambda>p. custom_at ResponseStage (pol_effect p)) ps \<Longrightarrow> response_loop reg ctx ps s = (Inr [], s)"
proof (induction ps)
  case (Cons p ps)
  then show ?case by (cases "pol_effect p") (auto split: if_splits)
qed simp

lemma pii_pattern_names_none:
  "\<not> list_ex (\<lambda>p. is_pii_redaction (pol_effect p)) ps \<Longrightarrow> pii_pattern_names ps = []"
proof (induction ps)
  case (Cons p ps)
  then show ?case by (cases "pol_effect p") auto
qed simp

lemma evaluate_response_unneeded:
  "\<not> has_response_side_policies ps \<Longrightarrow>
     evaluate_response reg ps payload ctx s = (Inr \<lparr>er_payload = payload, er_tags = []\<rparr>, s)"
  using response_loop_none [of "ps_policies ps" reg ctx s] pii_pattern_names_none [of "ps_policies ps"]
  by (simp add: has_response_side_policies_def evaluate_response_def list_ex_iff)

end
