(* ===== verification/GatewayInv.thy ===== *)
theory GatewayInv
  imports CallSafety PolicySetProps
begin

text \<open>
  What a call does to the shared state, whatever the other tasks do within the same bounds: the
  audit table stays a valid chain and only grows, the engine's cache stays coherent, and every
  row the call recorded is in the table.
\<close>

text \<open>The bounds on a change of the shared state: the guarantee of a call and its rely.\<close>

definition grows :: "policy list \<Rightarrow> 's shared \<Rightarrow> 's shared \<Rightarrow> bool" where
  "grows policies s s' \<longleftrightarrow>
     (table_ok (sh_table s) \<longrightarrow> table_ok (sh_table s')) \<and>
     (\<exists>new. tb_rows (sh_table s') = tb_rows (sh_table s) @ new) \<and>
     (engine_ok policies (sh_engine s) \<longrightarrow> engine_ok policies (sh_engine s'))"

lemma grows_refl [simp]: "grows policies s s"
  by (simp add: grows_def)

lemma grows_trans: "grows policies s t \<Longrightarrow> grows policies t u \<Longrightarrow> grows policies s u"
  by (auto simp: grows_def)

lemma grows_rows: "grows policies s s' \<Longrightarrow> set (tb_rows (sh_table s)) \<subseteq> set (tb_rows (sh_table s'))"
  by (auto simp: grows_def)

definition others_ok :: "policy list \<Rightarrow> 's env \<Rightarrow> bool" where
  "others_ok policies E \<longleftrightarrow> (\<forall>n s. grows policies s (ev_others E n s))"

definition keeps :: "policy list \<Rightarrow> ('s, 'a) act \<Rightarrow> bool" where
  "keeps policies m \<longleftrightarrow>
     (\<forall>w r w'. m w = (r, w') \<longrightarrow>
        grows policies (wd_shared w) (wd_shared w') \<and>
        (\<exists>tr. wd_trace w' = wd_trace w @ tr \<and>
           set (rows_of tr) \<subseteq> set (tb_rows (sh_table (wd_shared w')))))"

lemma keepsD:
  assumes "keeps policies m" and "m w = (r, w')"
  obtains tr where "grows policies (wd_shared w) (wd_shared w')" and "wd_trace w' = wd_trace w @ tr"
    and "set (rows_of tr) \<subseteq> set (tb_rows (sh_table (wd_shared w')))"
proof -
  have "\<exists>tr. grows policies (wd_shared w) (wd_shared w') \<and> wd_trace w' = wd_trace w @ tr \<and>
      set (rows_of tr) \<subseteq> set (tb_rows (sh_table (wd_shared w')))"
    using assms unfolding keeps_def by blast
  then show ?thesis using that by blast
qed

lemma keeps_quiet:
  assumes "\<And>w. grows policies (wd_shared w) (wd_shared (snd (m w)))"
    and "\<And>w. \<exists>tr. wd_trace (snd (m w)) = wd_trace w @ tr \<and> rows_of tr = []"
  shows "keeps policies m"
  unfolding keeps_def
proof (intro allI impI)
  fix w r w'
  assume "m w = (r, w')"
  then have w': "w' = snd (m w)" by simp
  show "grows policies (wd_shared w) (wd_shared w') \<and>
      (\<exists>tr. wd_trace w' = wd_trace w @ tr \<and> set (rows_of tr) \<subseteq> set (tb_rows (sh_table (wd_shared w'))))"
    using assms [of w] unfolding w' by fastforce
qed

lemma keeps_sequence:
  assumes m: "keeps policies m" "m w = (r1, w1)" and k: "keeps policies k" "k w1 = (r, w')"
  shows "grows policies (wd_shared w) (wd_shared w') \<and>
    (\<exists>tr. wd_trace w' = wd_trace w @ tr \<and> set (rows_of tr) \<subseteq> set (tb_rows (sh_table (wd_shared w'))))"
proof -
  obtain tr1 where 1: "grows policies (wd_shared w) (wd_shared w1)" "wd_trace w1 = wd_trace w @ tr1"
    "set (rows_of tr1) \<subseteq> set (tb_rows (sh_table (wd_shared w1)))" using keepsD [OF m] .
  obtain tr2 where 2: "grows policies (wd_shared w1) (wd_shared w')" "wd_trace w' = wd_trace w1 @ tr2"
    "set (rows_of tr2) \<subseteq> set (tb_rows (sh_table (wd_shared w')))" using keepsD [OF k] .
  have "set (rows_of tr1) \<subseteq> set (tb_rows (sh_table (wd_shared w')))"
    using 1(3) grows_rows [OF 2(1)] by blast
  then show ?thesis using 1 2 grows_trans [OF 1(1) 2(1)] by (intro conjI exI [of _ "tr1 @ tr2"]) auto
qed

lemma keeps_bind [intro]:
  assumes m: "keeps policies m" and k: "\<And>a. keeps policies (k a)"
  shows "keeps policies (bind_act m k)"
  unfolding keeps_def
proof (intro allI impI)
  fix w r w'
  assume b: "bind_act m k w = (r, w')"
  obtain r1 w1 where m1: "m w = (r1, w1)" by fastforce
  show "grows policies (wd_shared w) (wd_shared w') \<and>
    (\<exists>tr. wd_trace w' = wd_trace w @ tr \<and> set (rows_of tr) \<subseteq> set (tb_rows (sh_table (wd_shared w'))))"
  proof (cases r1)
    case (Inl e)
    then show ?thesis using b m1 m by (auto simp: bind_act_def keeps_def)
  next
    case (Inr a)
    then show ?thesis using b m1 keeps_sequence [OF m m1 k [of a]] by (simp add: bind_act_def)
  qed
qed

lemma keeps_catch [intro]:
  assumes m: "keeps policies m" and h: "\<And>e. keeps policies (h e)"
  shows "keeps policies (catch_act m h)"
  unfolding keeps_def
proof (intro allI impI)
  fix w r w'
  assume b: "catch_act m h w = (r, w')"
  obtain r1 w1 where m1: "m w = (r1, w1)" by fastforce
  show "grows policies (wd_shared w) (wd_shared w') \<and>
    (\<exists>tr. wd_trace w' = wd_trace w @ tr \<and> set (rows_of tr) \<subseteq> set (tb_rows (sh_table (wd_shared w'))))"
  proof (cases r1)
    case (Inr a)
    then show ?thesis using b m1 m by (auto simp: catch_act_def keeps_def)
  next
    case (Inl e)
    then show ?thesis using b m1 keeps_sequence [OF m m1 h [of e]] by (simp add: catch_act_def)
  qed
qed

lemma keeps_attempt [intro]: "keeps policies m \<Longrightarrow> keeps policies (attempt m)"
  by (fastforce simp: keeps_def attempt_def split: prod.splits)

lemma keeps_finally:
  assumes "keeps policies m" and "\<And>w. wd_shared (f w) = wd_shared w"
    and "\<And>w. \<exists>tr. wd_trace (f w) = wd_trace w @ tr \<and> rows_of tr = []"
  shows "keeps policies (finally_act m f)"
  unfolding keeps_def
proof (intro allI impI)
  fix w r w'
  assume b: "finally_act m f w = (r, w')"
  then obtain w1 where m1: "m w = (r, w1)" and w': "w' = f w1"
    by (auto simp: finally_act_def split: prod.splits)
  obtain tr1 where 1: "grows policies (wd_shared w) (wd_shared w1)" "wd_trace w1 = wd_trace w @ tr1"
    "set (rows_of tr1) \<subseteq> set (tb_rows (sh_table (wd_shared w1)))" using keepsD [OF assms(1) m1] .
  obtain tr2 where "wd_trace (f w1) = wd_trace w1 @ tr2" "rows_of tr2 = []" using assms(3) by blast
  then show "grows policies (wd_shared w) (wd_shared w') \<and>
    (\<exists>tr. wd_trace w' = wd_trace w @ tr \<and> set (rows_of tr) \<subseteq> set (tb_rows (sh_table (wd_shared w'))))"
    using 1 assms(2) [of w1] unfolding w' by (intro conjI exI [of _ "tr1 @ tr2"]) auto
qed

lemma keeps_ret [intro, simp]: "keeps policies (ret a)"
  by (rule keeps_quiet) (simp_all add: ret_def)

lemma keeps_throw [intro, simp]: "keeps policies (throw e)"
  by (rule keeps_quiet) (simp_all add: throw_def)

lemma keeps_draw [intro, simp]: "keeps policies (draw f)"
  by (rule keeps_quiet) (simp_all add: draw_def tick_def)

lemma keeps_lift [intro, simp]: "keeps policies (lift_res r)"
  by (rule keeps_quiet) (simp_all add: lift_res_def)

lemma keeps_measure [intro, simp]: "keeps policies (measure_metric m)"
  by (rule keeps_quiet) (simp_all add: measure_metric_def log_effect_def)

lemma keeps_publish [intro, simp]: "keeps policies (publish ev)"
  by (rule keeps_quiet) (simp_all add: publish_def log_effect_def grows_def)

lemma await_grows: "others_ok policies E \<Longrightarrow> grows policies (wd_shared w) (wd_shared (await E w))"
  by (simp add: await_def tick_def others_ok_def)

lemma await_trace [simp]: "wd_trace (await E w) = wd_trace w"
  by (simp add: await_def tick_def)

lemma grows_redis: "grows policies s (s'\<lparr>sh_redis := x\<rparr>) = grows policies s s'"
  by (simp add: grows_def)

lemma grows_limiter: "grows policies s (s'\<lparr>sh_limiter := x\<rparr>) = grows policies s s'"
  by (simp add: grows_def)

lemma write_entry_stored:
  "write_entry fault now a tb = (Inr e, tb') \<Longrightarrow> tb_rows tb' = tb_rows tb @ [e]"
  by (auto simp: write_entry_def insert_row_def Let_def split: option.splits sum.splits if_splits)

lemma keeps_write_row:
  assumes E: "others_ok policies E"
  shows "keeps policies (write_row E a)"
  unfolding keeps_def
proof (intro allI impI)
  fix w r w'
  assume w: "write_row E a w = (r, w')"
  let ?w1 = "await E w"
  let ?tb = "sh_table (wd_shared ?w1)"
  obtain x tb where x: "write_entry (ev_db E (wd_n ?w1)) (ev_utcnow E (wd_n ?w1)) a ?tb = (x, tb)"
    by fastforce
  have s': "wd_shared w' = (wd_shared ?w1)\<lparr>sh_table := tb\<rparr>"
    using w x by (auto simp: write_row_def Let_def tick_def log_effect_def split: sum.splits)
  have "grows policies (wd_shared ?w1) (wd_shared w')"
    using table_ok_write [OF _ x] write_entry_append_only [of "ev_db E (wd_n ?w1)" "ev_utcnow E (wd_n ?w1)" a ?tb] x
    by (auto simp: s' grows_def)
  then have g: "grows policies (wd_shared w) (wd_shared w')"
    by (rule grows_trans [OF await_grows [OF E]])
  show "grows policies (wd_shared w) (wd_shared w') \<and>
    (\<exists>tr. wd_trace w' = wd_trace w @ tr \<and> set (rows_of tr) \<subseteq> set (tb_rows (sh_table (wd_shared w'))))"
  proof (cases x)
    case (Inl e)
    then have "wd_trace w' = wd_trace w" using w x by (auto simp: write_row_def Let_def tick_def)
    then show ?thesis using g by (intro conjI exI [of _ "[]"]) auto
  next
    case (Inr e)
    then have "wd_trace w' = wd_trace w @ [Wrote e]"
      using w x by (auto simp: write_row_def Let_def tick_def log_effect_def)
    moreover have "e \<in> set (tb_rows (sh_table (wd_shared w')))"
      using write_entry_stored [of _ _ a ?tb e tb] x Inr by (simp add: s')
    ultimately show ?thesis using g by (intro conjI exI [of _ "[Wrote e]"]) auto
  qed
qed

lemma keeps_send: "others_ok policies E \<Longrightarrow> keeps policies (send E req)"
  by (rule keeps_quiet)
    (simp_all add: send_def Let_def log_effect_def await_def tick_def others_ok_def)

lemma keeps_run_evaluate_response:
  "others_ok policies E \<Longrightarrow> keeps policies (run_evaluate_response E ps payload ctx)"
  by (rule keeps_quiet)
    (simp_all add: run_evaluate_response_def Let_def case_prod_beta' grows_redis await_grows)

lemma keeps_run_wait: "others_ok policies E \<Longrightarrow> keeps policies (run_wait E k timeout)"
proof (rule keeps_quiet)
  fix w
  assume E: "others_ok policies E"
  show "grows policies (wd_shared w) (wd_shared (snd (run_wait E k timeout w)))"
    using await_grows [OF E, of w]
    by (auto simp: run_wait_def Let_def log_effect_def split: option.splits sum.splits)
  show "\<exists>tr. wd_trace (snd (run_wait E k timeout w)) = wd_trace w @ tr \<and> rows_of tr = []"
    by (auto simp: run_wait_def Let_def log_effect_def split: option.splits sum.splits)
qed

lemma keeps_run_create_ticket:
  assumes E: "others_ok policies E"
  shows "keeps policies (run_create_ticket E c t i g timeout)"
  unfolding run_create_ticket_def
proof (intro keeps_bind keeps_draw keeps_quiet)
  fix uid now w
  let ?m = "\<lambda>w. (let w1 = await E w;
      tk = new_ticket uid now (cl_server c) (cl_tool c) (cl_arguments c) (subject_of c)
             (cl_session_id c) t i g timeout;
      (r, s') = create_ticket (ev_redis E) tk (sh_redis (wd_shared w1));
      w2 = w1\<lparr>wd_shared := (wd_shared w1)\<lparr>sh_redis := s'\<rparr>\<rparr>
    in case r of Inl e \<Rightarrow> (Inl e, w2) | Inr t \<Rightarrow> (Inr t, log_effect (Opened t) w2))"
  show "grows policies (wd_shared w) (wd_shared (snd (?m w)))"
    using await_grows [OF E, of w]
    by (auto simp: Let_def log_effect_def grows_redis split: prod.splits sum.splits)
  show "\<exists>tr. wd_trace (snd (?m w)) = wd_trace w @ tr \<and> rows_of tr = []"
    by (auto simp: Let_def log_effect_def split: prod.splits sum.splits)
qed

lemma keeps_run_evaluate: "others_ok policies E \<Longrightarrow> keeps policies (run_evaluate E ps c)"
  by (rule keeps_quiet)
    (simp_all add: run_evaluate_def Let_def case_prod_beta' tick_def grows_limiter await_grows)

lemma keeps_run_compile: "keeps policies (run_compile c)"
proof (rule keeps_quiet)
  fix w :: "'a world"
  show "grows policies (wd_shared w) (wd_shared (snd (run_compile c w)))"
    using compile_ok(2) [of policies "sh_engine (wd_shared w)" "cl_server c" "cl_tool c"]
    by (auto simp: run_compile_def grows_def case_prod_beta' Let_def)
  show "\<exists>tr. wd_trace (snd (run_compile c w)) = wd_trace w @ tr \<and> rows_of tr = []"
    by (simp add: run_compile_def case_prod_beta' Let_def)
qed

lemma keeps_measure_fires: "keeps policies (measure_fires fs d)"
  by (induction fs) auto

lemmas keeps_actions = keeps_write_row keeps_send keeps_run_evaluate_response keeps_run_wait
  keeps_run_create_ticket keeps_run_evaluate keeps_run_compile keeps_measure_fires

lemma keeps_write_call_row:
  "others_ok policies E \<Longrightarrow> keeps policies (write_call_row E c t f status d parent l h tags)"
  unfolding write_call_row_def by (intro keeps_bind keeps_draw keeps_write_row)

lemma keeps_publish_decision_event: "keeps policies (publish_decision_event E c i t f d k)"
  unfolding publish_decision_event_def by (intro keeps_bind keeps_draw keeps_publish)

lemma keeps_run_forward:
  assumes E: "others_ok policies E"
  shows "keeps policies (run_forward E c ps)"
proof -
  have "keeps policies (stage8 E c ps raw ct)" for raw ct
    unfolding stage8_def
    by (intro keeps_bind keeps_lift) (auto intro: keeps_run_evaluate_response [OF E] split: json.split)
  then have "keeps policies (forward_buffered E c ps)"
    unfolding forward_buffered_def Let_def
    by (auto intro!: keeps_bind keeps_send [OF E])
  moreover have "keeps policies (forward E req)" for req
    unfolding forward_def by (auto intro: keeps_send [OF E])
  ultimately show ?thesis unfolding run_forward_def by auto
qed

lemma keeps_forward_and_record:
  assumes E: "others_ok policies E"
  shows "keeps policies (forward_and_record E c ps t f d i h)"
proof -
  have "keeps policies (upstream_failure E c t f tags i h start e reason)" for tags start e reason
    unfolding upstream_failure_def
    by (intro keeps_bind keeps_draw keeps_measure keeps_write_call_row [OF E] keeps_ret)
  then show ?thesis
    unfolding forward_and_record_def
    by (auto intro!: keeps_bind keeps_run_forward [OF E] keeps_write_call_row [OF E] split: sum.split)
qed

lemma keeps_hold_end:
  assumes E: "others_ok policies E"
  shows "keeps policies (hold_timeout E c t f d i tk g tags)"
    and "keeps policies (hold_denied E c t f d i tk rs tags)"
    and "keeps policies (hold_approved E c ps t f d i tk rs)"
  unfolding hold_timeout_def hold_denied_def hold_approved_def
  by (intro keeps_bind keeps_measure keeps_write_call_row [OF E] keeps_forward_and_record [OF E] keeps_ret)+

lemma keeps_handle_hold:
  assumes E: "others_ok policies E"
  shows "keeps policies (handle_hold E c ps t f d)"
proof -
  have "keeps policies (resolve_hold E c ps t f d i tk g timeout)" for i tk g timeout
    unfolding resolve_hold_def
    by (rule keeps_bind [OF keeps_run_wait [OF E]]) (auto intro: keeps_hold_end [OF E] split: option.split)
  then show ?thesis
    unfolding handle_hold_def Let_def
    by (intro keeps_bind keeps_write_call_row [OF E] keeps_run_create_ticket [OF E]
        keeps_publish_decision_event)
qed

lemma keeps_handle_tool_call:
  assumes E: "others_ok policies E"
  shows "keeps policies (handle_tool_call E c)"
proof -
  have "keeps policies (deny_call E c ps t f d)" for ps t f d
    unfolding deny_call_def
    by (intro keeps_bind keeps_measure keeps_write_call_row [OF E] keeps_publish_decision_event keeps_ret)
  moreover have "keeps policies (pass_call E c ps t f d)" for ps t f d
    unfolding pass_call_def
    by (intro keeps_bind keeps_write_call_row [OF E] keeps_publish_decision_event
        keeps_forward_and_record [OF E] keeps_ret)
  moreover have "keeps policies (evaluate_policy_set E ps c)" for ps
    unfolding evaluate_policy_set_def by (auto intro!: keeps_run_evaluate [OF E])
  ultimately show ?thesis
    unfolding handle_tool_call_def
    by (auto intro!: keeps_bind keeps_run_compile keeps_measure_fires keeps_handle_hold [OF E]
        split: prod.split outcome.split)
qed

lemma keeps_measured_call:
  assumes E: "others_ok policies E"
  shows "keeps policies (measured_call E c tool_name)"
  unfolding measured_call_def
  by (intro keeps_bind keeps_measure keeps_draw keeps_finally)
    (auto simp: log_effect_def tick_def intro: keeps_handle_tool_call [OF E] split: json.split)

lemma keeps_proxy_mcp:
  assumes E: "others_ok policies E"
  shows "keeps policies (proxy_mcp E server_name req)"
proof -
  have "keeps policies (forward E r)" for r
    unfolding forward_def by (auto intro: keeps_send [OF E])
  then show ?thesis
    unfolding proxy_mcp_def Let_def
    by (intro keeps_bind keeps_draw)
      (auto intro!: keeps_bind keeps_measured_call [OF E] split: sum.split option.split)
qed

end
