(* ===== verification/CallIdentity.thy ===== *)
theory CallIdentity
  imports GatewayInv
begin

text \<open>
  What the effects of a call are about: one trace id, the agent, session, server, tool and
  arguments of the call, and, for the request sent upstream, the client's own request.
\<close>

definition emits :: "(effect_log \<Rightarrow> bool) \<Rightarrow> ('s, 'a) act \<Rightarrow> bool" where
  "emits P m \<longleftrightarrow>
     (\<forall>w r w'. m w = (r, w') \<longrightarrow> (\<exists>tr. wd_trace w' = wd_trace w @ tr \<and> (\<forall>x \<in> set tr. P x)))"

lemma emits_quiet: "(\<And>w. wd_trace (snd (m w)) = wd_trace w) \<Longrightarrow> emits P m"
  unfolding emits_def by (metis append_Nil2 empty_iff list.set(1) snd_conv)

lemma emits_one:
  "(\<And>w. wd_trace (snd (m w)) = wd_trace w \<or> (\<exists>x. wd_trace (snd (m w)) = wd_trace w @ [x] \<and> P x)) \<Longrightarrow>
     emits P m"
  unfolding emits_def
proof (intro allI impI)
  fix w r w'
  assume one: "\<And>w. wd_trace (snd (m w)) = wd_trace w \<or> (\<exists>x. wd_trace (snd (m w)) = wd_trace w @ [x] \<and> P x)"
    and m: "m w = (r, w')"
  from one [of w] m consider "wd_trace w' = wd_trace w" | x where "wd_trace w' = wd_trace w @ [x]" "P x"
    by auto
  then show "\<exists>tr. wd_trace w' = wd_trace w @ tr \<and> (\<forall>x \<in> set tr. P x)"
  proof cases
    case 1
    then show ?thesis by (intro exI [of _ "[]"]) simp
  next
    case (2 x)
    then show ?thesis by (intro exI [of _ "[x]"]) simp
  qed
qed

lemma emits_sequence:
  assumes "emits P m" and "m w = (r1, w1)" and "emits P k" and "k w1 = (r, w')"
  shows "\<exists>tr. wd_trace w' = wd_trace w @ tr \<and> (\<forall>x \<in> set tr. P x)"
proof -
  obtain tr1 where 1: "wd_trace w1 = wd_trace w @ tr1" "\<forall>x \<in> set tr1. P x"
    using assms(1,2) unfolding emits_def by blast
  obtain tr2 where "wd_trace w' = wd_trace w1 @ tr2" "\<forall>x \<in> set tr2. P x"
    using assms(3,4) unfolding emits_def by blast
  with 1 show ?thesis by (intro exI [of _ "tr1 @ tr2"]) auto
qed

lemma emits_bind:
  assumes m: "emits P m" and k: "\<And>a. emits P (k a)"
  shows "emits P (bind_act m k)"
  unfolding emits_def
proof (intro allI impI)
  fix w r w'
  assume b: "bind_act m k w = (r, w')"
  obtain r1 w1 where m1: "m w = (r1, w1)" by fastforce
  show "\<exists>tr. wd_trace w' = wd_trace w @ tr \<and> (\<forall>x \<in> set tr. P x)"
  proof (cases r1)
    case (Inl e)
    then have "w' = w1" using b m1 by (simp add: bind_act_def)
    then show ?thesis using m m1 unfolding emits_def by blast
  next
    case (Inr a)
    then show ?thesis using b m1 emits_sequence [OF m m1 k [of a]] by (simp add: bind_act_def)
  qed
qed

lemma emits_catch:
  assumes m: "emits P m" and h: "\<And>e. emits P (h e)"
  shows "emits P (catch_act m h)"
  unfolding emits_def
proof (intro allI impI)
  fix w r w'
  assume b: "catch_act m h w = (r, w')"
  obtain r1 w1 where m1: "m w = (r1, w1)" by fastforce
  show "\<exists>tr. wd_trace w' = wd_trace w @ tr \<and> (\<forall>x \<in> set tr. P x)"
  proof (cases r1)
    case (Inr a)
    then have "w' = w1" using b m1 by (simp add: catch_act_def)
    then show ?thesis using m m1 unfolding emits_def by blast
  next
    case (Inl e)
    then show ?thesis using b m1 emits_sequence [OF m m1 h [of e]] by (simp add: catch_act_def)
  qed
qed

lemma emits_attempt: "emits P m \<Longrightarrow> emits P (attempt m)"
  unfolding emits_def attempt_def by (auto split: prod.splits)

lemma emits_ret: "emits P (ret a)"
  by (rule emits_quiet) (simp add: ret_def)

lemma emits_throw: "emits P (throw e)"
  by (rule emits_quiet) (simp add: throw_def)

lemma emits_draw: "emits P (draw f)"
  by (rule emits_quiet) (simp add: draw_def tick_def)

lemma emits_lift: "emits P (lift_res r)"
  by (rule emits_quiet) (simp add: lift_res_def)

lemma emits_measure: "P (Measured m) \<Longrightarrow> emits P (measure_metric m)"
  by (rule emits_one) (simp add: measure_metric_def log_effect_def)

lemmas emits_basic = emits_bind emits_ret emits_throw emits_draw emits_lift emits_measure

section \<open>The identity of a call\<close>

definition row_about :: "call \<Rightarrow> string \<Rightarrow> audit_entry \<Rightarrow> bool" where
  "row_about c t e \<longleftrightarrow>
     ae_trace_id e = t \<and> ae_agent_id e = subject_of c \<and> ae_session_id e = cl_session_id c \<and>
     ae_server e = cl_server c \<and> ae_tool e = cl_tool c \<and> ae_args_hash e = args_hash_of c \<and>
     ae_args_redacted e = cl_arguments c"

definition event_about :: "call \<Rightarrow> string \<Rightarrow> decision_event \<Rightarrow> bool" where
  "event_about c t ev \<longleftrightarrow>
     de_trace_id ev = t \<and> de_agent_id ev = subject_of c \<and> de_session_id ev = cl_session_id c \<and>
     de_server ev = cl_server c \<and> de_tool ev = cl_tool c \<and> de_args_hash ev = args_hash_of c \<and>
     (cd_outcome (de_decision ev) = ''HOLD'' \<longleftrightarrow> de_hitl_ticket_id ev \<noteq> None)"

definition ticket_about :: "call \<Rightarrow> string \<Rightarrow> hitl_ticket \<Rightarrow> bool" where
  "ticket_about c t k \<longleftrightarrow>
     tk_trace_id k = t \<and> tk_agent_id k = subject_of c \<and> tk_session_id k = cl_session_id c \<and>
     tk_server k = cl_server c \<and> tk_tool k = cl_tool c \<and> tk_arguments k = cl_arguments c"

fun metric_about :: "call \<Rightarrow> metric \<Rightarrow> bool" where
  "metric_about c (ToolCall srv tool oc) = (srv = cl_server c \<and> tool = cl_tool c)"
| "metric_about c (Inflight i) = False"
| "metric_about c (ToolCallDuration srv tool x) = False"
| "metric_about c _ = True"

fun about :: "call \<Rightarrow> string \<Rightarrow> effect_log \<Rightarrow> bool" where
  "about c t (Wrote e) = row_about c t e"
| "about c t (Published ev) = event_about c t ev"
| "about c t (Opened k) = ticket_about c t k"
| "about c t (Sent req) = (req = call_request c)"
| "about c t (Measured m) = metric_about c m"
| "about c t (Resolved r) = True"

text \<open>The same, with rows of certain statuses only.\<close>

definition about_in :: "string set \<Rightarrow> call \<Rightarrow> string \<Rightarrow> effect_log \<Rightarrow> bool" where
  "about_in S c t x \<longleftrightarrow> about c t x \<and> (\<forall>e. x = Wrote e \<longrightarrow> ae_status e \<in> S)"

lemma about_in_simps [simp]:
  "about_in S c t (Wrote e) \<longleftrightarrow> row_about c t e \<and> ae_status e \<in> S"
  "about_in S c t (Published ev) \<longleftrightarrow> event_about c t ev"
  "about_in S c t (Opened k) \<longleftrightarrow> ticket_about c t k"
  "about_in S c t (Sent req) \<longleftrightarrow> req = call_request c"
  "about_in S c t (Measured m) \<longleftrightarrow> metric_about c m"
  "about_in S c t (Resolved rs)"
  by (simp_all add: about_in_def)

lemma emits_about: "emits (about_in S c t) m \<Longrightarrow> emits (about c t) m"
  unfolding emits_def about_in_def by meson

lemma write_entry_about:
  "write_entry fault now (call_row c t f status s d parent l h tags) tb = (Inr e, tb') \<Longrightarrow>
     row_about c t e \<and> ae_status e = status"
  by (auto simp: write_entry_def insert_row_def Let_def entry_of_args_def call_row_def row_about_def
      split: option.splits sum.splits if_splits)

lemma emits_write_call_row:
  assumes "status \<in> S"
  shows "emits (about_in S c t) (write_call_row E c t f status d parent l h tags)"
  unfolding write_call_row_def
proof (intro emits_bind emits_draw emits_one)
  fix s and w :: "'a world"
  let ?a = "call_row c t f status s d parent l h tags"
  let ?w1 = "await E w"
  obtain x tb where x: "write_entry (ev_db E (wd_n ?w1)) (ev_utcnow E (wd_n ?w1)) ?a (sh_table (wd_shared ?w1)) = (x, tb)"
    by fastforce
  then show "wd_trace (snd (write_row E ?a w)) = wd_trace w \<or>
      (\<exists>x. wd_trace (snd (write_row E ?a w)) = wd_trace w @ [x] \<and> about_in S c t x)"
  proof (cases x)
    case (Inr e)
    then have "about_in S c t (Wrote e)" using x write_entry_about assms by fastforce
    then show ?thesis using Inr x by (auto simp: write_row_def Let_def log_effect_def tick_def)
  qed (auto simp: write_row_def Let_def tick_def)
qed

lemma outcome_value_hold [simp]: "outcome_value x = ''HOLD'' \<longleftrightarrow> x = OHold"
  by (cases x) simp_all

lemma emits_publish_decision_event:
  "(pd_outcome d = OHold \<longleftrightarrow> k \<noteq> None) \<Longrightarrow> emits (about_in S c t) (publish_decision_event E c i t f d k)"
  unfolding publish_decision_event_def
  by (intro emits_bind emits_draw emits_one) (auto simp: publish_def log_effect_def event_about_def)

lemma emits_send: "emits (about_in S c t) (send E (call_request c))"
  by (rule emits_one) (simp add: send_def Let_def log_effect_def)

lemma emits_run_forward: "emits (about_in S c t) (run_forward E c ps)"
proof -
  have ev: "emits (about_in S c t) (run_evaluate_response E ps p ctx)" for p ctx
    by (rule emits_quiet) (simp add: run_evaluate_response_def Let_def case_prod_beta')
  have "emits (about_in S c t) (stage8 E c ps raw ct)" for raw ct
    unfolding stage8_def
    by (intro emits_bind emits_lift) (auto intro!: ev emits_basic split: json.split)
  then have "emits (about_in S c t) (forward_buffered E c ps)"
    unfolding forward_buffered_def Let_def
    by (auto intro!: emits_bind emits_send emits_catch emits_lift emits_throw emits_ret)
  moreover have "emits (about_in S c t) (forward E (call_request c))"
    unfolding forward_def by (intro emits_bind emits_send emits_ret)
  ultimately show ?thesis unfolding run_forward_def by (auto intro!: emits_bind emits_ret)
qed

lemma emits_forward_and_record:
  assumes "{''COMPLETED'', ''UPSTREAM_ERROR''} \<subseteq> S"
  shows "emits (about_in S c t) (forward_and_record E c ps t f d i h)"
proof -
  have "emits (about_in S c t) (upstream_failure E c t f tags i h start e reason)" for tags start e reason
    unfolding upstream_failure_def using assms by (intro emits_basic emits_write_call_row) simp_all
  then show ?thesis
    unfolding forward_and_record_def using assms
    by (auto intro!: emits_basic emits_attempt emits_run_forward emits_write_call_row split: sum.split)
qed

lemma emits_run_create_ticket: "emits (about_in S c t) (run_create_ticket E c t i g timeout)"
  unfolding run_create_ticket_def
proof (intro emits_bind emits_draw emits_one)
  fix uid now and w :: "'a world"
  let ?t = "new_ticket uid now (cl_server c) (cl_tool c) (cl_arguments c) (subject_of c)
      (cl_session_id c) t i g timeout"
  let ?m = "\<lambda>w. (let w1 = await E w; tk = ?t;
      (r, s') = create_ticket (ev_redis E) tk (sh_redis (wd_shared w1));
      w2 = w1\<lparr>wd_shared := (wd_shared w1)\<lparr>sh_redis := s'\<rparr>\<rparr>
    in case r of Inl e \<Rightarrow> (Inl e, w2) | Inr t \<Rightarrow> (Inr t, log_effect (Opened t) w2))"
  obtain x s' where x: "create_ticket (ev_redis E) ?t (sh_redis (wd_shared (await E w))) = (x, s')"
    by fastforce
  have "x = Inr tk \<Longrightarrow> ticket_about c t tk" for tk
    using x by (auto simp: create_ticket_def Let_def ticket_about_def new_ticket_def split: prod.splits sum.splits)
  then show "wd_trace (snd (?m w)) = wd_trace w \<or>
      (\<exists>x. wd_trace (snd (?m w)) = wd_trace w @ [x] \<and> about_in S c t x)"
    using x by (cases x) (auto simp: Let_def log_effect_def)
qed

lemma emits_run_wait: "emits (about_in S c t) (run_wait E k timeout)"
  by (rule emits_one) (auto simp: run_wait_def Let_def log_effect_def split: option.splits sum.splits)

text \<open>A held call writes no INTENT row, a passed call writes no HELD row.\<close>

definition hold_statuses :: "string set" where
  "hold_statuses = {''HELD'', ''DENIED'', ''COMPLETED'', ''UPSTREAM_ERROR''}"

definition pass_statuses :: "string set" where
  "pass_statuses = {''INTENT'', ''COMPLETED'', ''UPSTREAM_ERROR''}"

lemma emits_handle_hold:
  assumes h: "pd_outcome d = OHold"
  shows "emits (about_in hold_statuses c t) (handle_hold E c ps t f d)"
proof -
  have S: "''HELD'' \<in> hold_statuses" "''DENIED'' \<in> hold_statuses" "{''COMPLETED'', ''UPSTREAM_ERROR''} \<subseteq> hold_statuses"
    by (simp_all add: hold_statuses_def)
  have "emits (about_in hold_statuses c t) (hold_timeout E c t f d i tk g tags)"
    "emits (about_in hold_statuses c t) (hold_denied E c t f d i tk rs tags)"
    "emits (about_in hold_statuses c t) (hold_approved E c ps t f d i tk rs)" for i tk rs g tags
    unfolding hold_timeout_def hold_denied_def hold_approved_def
    by (intro emits_basic emits_write_call_row emits_forward_and_record S; simp)+
  then have "emits (about_in hold_statuses c t) (resolve_hold E c ps t f d i tk g timeout)" for i tk g timeout
    unfolding resolve_hold_def
    by (auto intro!: emits_bind emits_run_wait emits_ret split: option.split)
  then show ?thesis
    unfolding handle_hold_def Let_def
    by (intro emits_bind emits_write_call_row emits_run_create_ticket emits_publish_decision_event S)
      (simp_all add: h)
qed

lemma emits_pass_call:
  assumes "pd_outcome d = OPass"
  shows "emits (about_in pass_statuses c t) (pass_call E c ps t f d)"
  unfolding pass_call_def
  by (intro emits_basic emits_write_call_row emits_publish_decision_event emits_forward_and_record)
    (simp_all add: assms pass_statuses_def)

lemma emits_decided:
  "emits (about c t) (case pd_outcome d of
     ODeny \<Rightarrow> deny_call E c ps t f d
   | OHold \<Rightarrow> handle_hold E c ps t f d
   | OPass \<Rightarrow> pass_call E c ps t f d)"
proof -
  have "emits (about_in UNIV c t) (deny_call E c ps t f d)" if "pd_outcome d = ODeny"
    unfolding deny_call_def
    by (intro emits_basic emits_write_call_row emits_publish_decision_event) (simp_all add: that)
  then show ?thesis
    by (auto intro: emits_about emits_about [OF emits_handle_hold] emits_about [OF emits_pass_call] split: outcome.split)
qed

section \<open>One trace id per call\<close>

definition emits_some :: "('i \<Rightarrow> effect_log \<Rightarrow> bool) \<Rightarrow> ('s, 'a) act \<Rightarrow> bool" where
  "emits_some P m \<longleftrightarrow>
     (\<forall>w r w'. m w = (r, w') \<longrightarrow> (\<exists>i tr. wd_trace w' = wd_trace w @ tr \<and> (\<forall>x \<in> set tr. P i x)))"

lemma emits_someI: "emits (P i) m \<Longrightarrow> emits_some P m"
  unfolding emits_def emits_some_def by blast

lemma emits_some_bind:
  assumes q: "emits (\<lambda>x. \<forall>i. P i x) m" and k: "\<And>a. emits_some P (k a)"
  shows "emits_some P (bind_act m k)"
  unfolding emits_some_def
proof (intro allI impI)
  fix w r w'
  assume b: "bind_act m k w = (r, w')"
  obtain r1 w1 where m1: "m w = (r1, w1)" by fastforce
  obtain tr1 where 1: "wd_trace w1 = wd_trace w @ tr1" "\<forall>x \<in> set tr1. \<forall>i. P i x"
    using q m1 unfolding emits_def by blast
  show "\<exists>i tr. wd_trace w' = wd_trace w @ tr \<and> (\<forall>x \<in> set tr. P i x)"
  proof (cases r1)
    case (Inl e)
    then show ?thesis using b m1 1 by (auto simp: bind_act_def)
  next
    case (Inr a)
    then have "k a w1 = (r, w')" using b m1 by (simp add: bind_act_def)
    then obtain i tr2 where "wd_trace w' = wd_trace w1 @ tr2" "\<forall>x \<in> set tr2. P i x"
      using k [of a] unfolding emits_some_def by blast
    with 1 show ?thesis by (intro exI [of _ i] exI [of _ "tr1 @ tr2"]) auto
  qed
qed

lemma emits_run_compile: "emits P (run_compile c)"
  by (rule emits_quiet) (simp add: run_compile_def case_prod_beta' Let_def)

lemma emits_evaluate_policy_set:
  assumes "P (Measured (ToolCallError ''policy_engine_error''))"
  shows "emits P (evaluate_policy_set E ps c)"
proof -
  have "emits P (run_evaluate E ps c)"
    by (rule emits_quiet) (simp add: run_evaluate_def Let_def case_prod_beta' tick_def)
  then show ?thesis
    unfolding evaluate_policy_set_def by (intro emits_catch emits_basic) (auto intro: assms)
qed

lemma emits_measure_fires:
  "(\<And>p k oc. P (Measured (PolicyFire p k oc))) \<Longrightarrow> emits P (measure_fires fs d)"
  by (induction fs) (auto intro!: emits_basic)

lemma emits_some_handle_tool_call: "emits_some (about c) (handle_tool_call E c)"
  unfolding handle_tool_call_def
  by (auto intro!: emits_some_bind emits_run_compile emits_evaluate_policy_set emits_measure_fires
      emits_draw emits_someI [OF emits_decided])

lemma handle_tool_call_about:
  assumes "handle_tool_call E c w = (r, w')" and "wd_trace w' = wd_trace w @ tr"
  shows "\<exists>t. \<forall>x \<in> set tr. about c t x"
  using emits_some_handle_tool_call [of c E] assms unfolding emits_some_def by fastforce

end
