(* ===== verification/GatewayProps.thy ===== *)
theory GatewayProps
  imports CallIdentity
begin

text \<open>
  The endpoint end to end: a denied call and an engine failure never reach the upstream, the
  default deny of an allowlisted server holds at the endpoint, what a call leaves in the table
  and on the metrics, and what the buffered response stage returns.
\<close>

section \<open>Calls that are denied\<close>

text \<open>The requests an action sent, as the suffix it added to the trace.\<close>

definition sends :: "'s world \<Rightarrow> 's world \<Rightarrow> http_request list" where
  "sends w w' = sent_of (drop (length (wd_trace w)) (wd_trace w'))"

lemma sends_append: "wd_trace w' = wd_trace w @ tr \<Longrightarrow> sends w w' = sent_of tr"
  by (simp add: sends_def)

definition silent :: "effect_log \<Rightarrow> bool" where
  "silent x \<longleftrightarrow> (\<forall>req. x \<noteq> Sent req)"

lemma sent_of_silent: "(\<forall>x \<in> set tr. silent x) \<Longrightarrow> sent_of tr = []"
  by (induction tr rule: sent_of.induct) (auto simp: silent_def)

lemma emits_silent_sends: "emits silent m \<Longrightarrow> m w = (r, w') \<Longrightarrow> sends w w' = []"
  unfolding emits_def using sent_of_silent sends_append by metis

lemma silent_simps [simp]:
  "silent (Wrote e)" "silent (Published ev)" "silent (Opened t)" "silent (Resolved r)"
  "silent (Measured m)" "\<not> silent (Sent req)"
  by (simp_all add: silent_def)

lemma emits_silent_deny_call: "emits silent (deny_call E c ps t f d)"
proof -
  have "emits silent (write_row E a)" for a
    by (rule emits_one) (auto simp: write_row_def Let_def tick_def log_effect_def split: prod.splits sum.splits)
  moreover have "emits silent (publish ev)" for ev
    by (rule emits_one) (simp add: publish_def log_effect_def)
  ultimately show ?thesis
    unfolding deny_call_def write_call_row_def publish_decision_event_def
    by (intro emits_basic) simp_all
qed

text \<open>The replies of \<open>deny_call\<close>.\<close>

definition replies :: "(reply \<Rightarrow> bool) \<Rightarrow> reply res \<Rightarrow> bool" where
  "replies P r = (case r of Inl e \<Rightarrow> True | Inr x \<Rightarrow> P x)"

lemma replies_simps [simp]: "replies P (Inl e)" "replies P (Inr x) = P x"
  by (simp_all add: replies_def)

lemma bind_act_eq: "m w = (Inr a, w1) \<Longrightarrow> bind_act m k w = k a w1"
  by (simp add: bind_act_def)

lemma bind_act_Inr: "bind_act m k w = (Inr b, w') \<Longrightarrow> \<exists>a w1. m w = (Inr a, w1) \<and> k a w1 = (Inr b, w')"
  by (auto simp: bind_act_def split: prod.splits sum.splits)

lemma deny_call_reply:
  assumes "deny_call E c ps t f d w = (Inr x, w')"
  shows "x = Replied (policy_denied_response (cl_rpc_id c) d)"
  using assms unfolding deny_call_def by (auto dest!: bind_act_Inr simp: ret_def)

definition call_set :: "call \<Rightarrow> 's world \<Rightarrow> policy_set" where
  "call_set c w = fst (compile (sh_engine (wd_shared w)) (cl_server c) (cl_tool c))"

text \<open>What evaluation answers in the state it runs in, exceptions included.\<close>

definition verdict :: "'s env \<Rightarrow> call \<Rightarrow> 's world \<Rightarrow> policy_decision res" where
  "verdict E c w = fst (run_evaluate E (call_set c w) c (snd (run_compile c w)))"

definition denial :: "policy_decision res \<Rightarrow> policy_decision option" where
  "denial r = (case r of
     Inl e \<Rightarrow> Some (decision ODeny None ''policy_engine_error'')
   | Inr d \<Rightarrow> if pd_outcome d = ODeny then Some d else None)"

lemma evaluate_policy_set_result:
  "run_evaluate E ps c w = (r, w1) \<Longrightarrow>
     \<exists>d f w2. evaluate_policy_set E ps c w = (Inr (d, f), w2) \<and>
       (case r of Inl e \<Rightarrow> d = decision ODeny None ''policy_engine_error'' \<and> f = []
        | Inr d' \<Rightarrow> d = d')"
  by (cases r)
    (auto simp: evaluate_policy_set_def catch_act_def bind_act_def ret_def measure_metric_def)

lemma measure_fires_ret: "\<exists>w1. measure_fires fs d w = (Inr (), w1)"
proof (induction fs arbitrary: w)
  case (Cons f fs)
  let ?m = "measure_metric (PolicyFire (pr_policy f) (pr_effect_type f) (outcome_value (pd_outcome d)))"
  obtain w1 where 1: "?m w = (Inr (), w1)" by (simp add: measure_metric_def)
  from Cons [of w1] show ?case by (simp add: bind_act_eq [of ?m, OF 1])
qed (simp add: ret_def)

text \<open>
  What a call does once it was evaluated: some metrics, then the handler of the decision. An
  exception of the engine is a decision too.
\<close>

definition final_decision :: "policy_decision res \<Rightarrow> policy_decision" where
  "final_decision r = (case r of Inl e \<Rightarrow> decision ODeny None ''policy_engine_error'' | Inr d \<Rightarrow> d)"

definition is_measure :: "effect_log \<Rightarrow> bool" where
  "is_measure x \<longleftrightarrow> (\<exists>m. x = Measured m)"

lemma handled_as_decided:
  assumes h: "handle_tool_call E c w = (r, w')" and d: "d = final_decision (verdict E c w)"
  obtains t f w1 tr where "wd_trace w1 = wd_trace w @ tr" "\<forall>x \<in> set tr. is_measure x"
    "(case pd_outcome d of
        ODeny \<Rightarrow> deny_call E c (call_set c w) t f d
      | OHold \<Rightarrow> handle_hold E c (call_set c w) t f d
      | OPass \<Rightarrow> pass_call E c (call_set c w) t f d) w1 = (r, w')"
proof -
  let ?ps = "call_set c w" and ?w1 = "snd (run_compile c w)"
  have c: "run_compile c w = (Inr ?ps, ?w1)"
    by (simp add: run_compile_def call_set_def case_prod_beta' Let_def)
  obtain v w2 where v: "run_evaluate E ?ps c ?w1 = (v, w2)" by fastforce
  obtain f w3 where e: "evaluate_policy_set E ?ps c ?w1 = (Inr (d, f), w3)"
    using evaluate_policy_set_result [OF v] v d
    by (auto simp: final_decision_def verdict_def split: sum.splits)
  obtain w4 where m: "measure_fires f d w3 = (Inr (), w4)" using measure_fires_ret by blast
  obtain t w5 where t: "draw (ev_uuid E) w4 = (Inr t, w5)" by (simp add: draw_def)
  have "emits is_measure (evaluate_policy_set E ?ps c)" "emits is_measure (measure_fires f d)"
    by (auto intro!: emits_evaluate_policy_set emits_measure_fires simp: is_measure_def)
  then obtain tr1 tr2 where tr: "wd_trace w3 = wd_trace ?w1 @ tr1" "\<forall>x \<in> set tr1. is_measure x"
    "wd_trace w4 = wd_trace w3 @ tr2" "\<forall>x \<in> set tr2. is_measure x"
    using e m unfolding emits_def by metis
  have quiet: "wd_trace ?w1 = wd_trace w" "wd_trace w5 = wd_trace w4"
    using t by (auto simp: run_compile_def case_prod_beta' Let_def draw_def tick_def)
  show thesis
  proof (rule that)
    show "wd_trace w5 = wd_trace w @ (tr1 @ tr2)" using tr quiet by simp
    show "\<forall>x \<in> set (tr1 @ tr2). is_measure x" using tr by auto
    show "(case pd_outcome d of
        ODeny \<Rightarrow> deny_call E c ?ps t f d
      | OHold \<Rightarrow> handle_hold E c ?ps t f d
      | OPass \<Rightarrow> pass_call E c ?ps t f d) w5 = (r, w')"
      using h by (simp add: handle_tool_call_def bind_act_eq [of "run_compile c", OF c]
          bind_act_eq [of "evaluate_policy_set E ?ps c", OF e] bind_act_eq [of "measure_fires f d", OF m]
          bind_act_eq [of "draw (ev_uuid E)", OF t] del: measure_fires.simps)
  qed
qed

lemma measures_silent: "\<forall>x \<in> set tr. is_measure x \<Longrightarrow> \<forall>x \<in> set tr. silent x"
  by (auto simp: is_measure_def)

lemma denied_call:
  assumes den: "denial (verdict E c w) = Some d" and h: "handle_tool_call E c w = (r, w')"
  shows "sends w w' = []" and "replies (\<lambda>x. x = Replied (policy_denied_response (cl_rpc_id c) d)) r"
proof -
  have d: "d = final_decision (verdict E c w)" "pd_outcome d = ODeny"
    using den by (auto simp: denial_def final_decision_def split: sum.splits if_splits)
  obtain t f w1 tr where 1: "wd_trace w1 = wd_trace w @ tr" "\<forall>x \<in> set tr. is_measure x"
    and tail: "deny_call E c (call_set c w) t f d w1 = (r, w')"
    by (rule handled_as_decided [OF h d(1)]) (simp add: d(2))
  obtain tr2 where 2: "wd_trace w' = wd_trace w1 @ tr2" "\<forall>x \<in> set tr2. silent x"
    using emits_silent_deny_call tail unfolding emits_def by blast
  from 1 2 have "wd_trace w' = wd_trace w @ (tr @ tr2)" "\<forall>x \<in> set (tr @ tr2). silent x"
    using measures_silent by auto
  then show "sends w w' = []" by (metis sends_append sent_of_silent)
  show "replies (\<lambda>x. x = Replied (policy_denied_response (cl_rpc_id c) d)) r"
    using deny_call_reply tail by (cases r) auto
qed

text \<open>The rows of a held call and of a passed one.\<close>

lemma rows_in:
  assumes "wd_trace w1 = wd_trace w @ tr" "\<forall>x \<in> set tr. is_measure x"
    and "emits (about_in S c t) m" "m w1 = (r, w')" "wd_trace w' = wd_trace w @ us @ vs"
  shows "\<forall>e \<in> set (rows_of us). ae_status e \<in> S"
proof -
  obtain tr2 where "wd_trace w' = wd_trace w1 @ tr2" "\<forall>x \<in> set tr2. about_in S c t x"
    using assms(3,4) unfolding emits_def by blast
  with assms(1,5) have "us @ vs = tr @ tr2" by simp
  moreover have "\<forall>x \<in> set (tr @ tr2). \<forall>e. x = Wrote e \<longrightarrow> ae_status e \<in> S"
    using assms(2) \<open>\<forall>x \<in> set tr2. about_in S c t x\<close> by (auto simp: is_measure_def about_in_def)
  ultimately have "\<forall>x \<in> set us. \<forall>e. x = Wrote e \<longrightarrow> ae_status e \<in> S" by (metis UnCI set_append)
  moreover have "e \<in> set (rows_of us) \<longleftrightarrow> Wrote e \<in> set us" for e
    by (induction us rule: rows_of.induct) auto
  ultimately show ?thesis by blast
qed

lemma handled_rows:
  assumes "handle_tool_call E c w = (r, w')" and "wd_trace w' = wd_trace w @ us @ vs"
    and "verdict E c w = Inr d"
  shows "pd_outcome d = OHold \<Longrightarrow> \<forall>e \<in> set (rows_of us). ae_status e \<in> hold_statuses"
    and "pd_outcome d = OPass \<Longrightarrow> \<forall>e \<in> set (rows_of us). ae_status e \<in> pass_statuses"
proof -
  have d: "d = final_decision (verdict E c w)" using assms(3) by (simp add: final_decision_def)
  obtain t f w1 tr where 1: "wd_trace w1 = wd_trace w @ tr" "\<forall>x \<in> set tr. is_measure x"
    and tail: "(case pd_outcome d of
        ODeny \<Rightarrow> deny_call E c (call_set c w) t f d
      | OHold \<Rightarrow> handle_hold E c (call_set c w) t f d
      | OPass \<Rightarrow> pass_call E c (call_set c w) t f d) w1 = (r, w')"
    by (rule handled_as_decided [OF assms(1) d])
  show "pd_outcome d = OHold \<Longrightarrow> \<forall>e \<in> set (rows_of us). ae_status e \<in> hold_statuses"
    using rows_in [OF 1 emits_handle_hold _ assms(2)] tail by simp
  show "pd_outcome d = OPass \<Longrightarrow> \<forall>e \<in> set (rows_of us). ae_status e \<in> pass_statuses"
    using rows_in [OF 1 emits_pass_call _ assms(2)] tail by simp
qed

text \<open>The engine every call starts from is the compiled policy pack.\<close>

lemma denied_by_default:
  assumes eng: "engine_ok policies (sh_engine (wd_shared w))"
    and allow: "\<exists>p \<in> set policies. is_allowlist (pol_effect p) \<and> at_server (pol_applies p) = cl_server c"
    and unlisted: "\<forall>p \<in> set policies. is_allowlist (pol_effect p) \<longrightarrow>
      \<not> applies_matches (pol_applies p) (cl_server c) (cl_tool c)"
  shows "denial (verdict E c w) = Some (decision ODeny None ''not_on_allowlist'')"
proof -
  have "call_set c w = compiled policies (cl_server c) (cl_tool c)"
    unfolding call_set_def by (rule compile_ok(1) [OF eng])
  then show ?thesis
    using default_deny [OF allow unlisted]
    by (simp add: verdict_def denial_def run_evaluate_def Let_def)
qed

section \<open>The audit table after a request\<close>

lemma proxy_mcp_table:
  assumes E: "others_ok policies E" and p: "proxy_mcp E server_name req w = (r, w')"
  shows "table_ok (sh_table (wd_shared w)) \<Longrightarrow> table_ok (sh_table (wd_shared w'))"
    and "\<exists>new. tb_rows (sh_table (wd_shared w')) = tb_rows (sh_table (wd_shared w)) @ new"
    and "engine_ok policies (sh_engine (wd_shared w)) \<Longrightarrow> engine_ok policies (sh_engine (wd_shared w'))"
    and "set (rows_of (drop (length (wd_trace w)) (wd_trace w'))) \<subseteq> set (tb_rows (sh_table (wd_shared w')))"
proof -
  obtain tr where t: "grows policies (wd_shared w) (wd_shared w')" "wd_trace w' = wd_trace w @ tr"
    "set (rows_of tr) \<subseteq> set (tb_rows (sh_table (wd_shared w')))"
    using keepsD [OF keeps_proxy_mcp [OF E] p] .
  from t(1) show "table_ok (sh_table (wd_shared w)) \<Longrightarrow> table_ok (sh_table (wd_shared w'))"
    and "\<exists>new. tb_rows (sh_table (wd_shared w')) = tb_rows (sh_table (wd_shared w)) @ new"
    and "engine_ok policies (sh_engine (wd_shared w)) \<Longrightarrow> engine_ok policies (sh_engine (wd_shared w'))"
    by (simp_all add: grows_def)
  from t(2,3) show "set (rows_of (drop (length (wd_trace w)) (wd_trace w'))) \<subseteq>
      set (tb_rows (sh_table (wd_shared w')))" by simp
qed

section \<open>The saturation metric\<close>

fun inflight_sum :: "effect_log list \<Rightarrow> int" where
  "inflight_sum [] = 0"
| "inflight_sum (Measured (Inflight i) # tr) = i + inflight_sum tr"
| "inflight_sum (_ # tr) = inflight_sum tr"

lemma inflight_sum_append [simp]: "inflight_sum (us @ vs) = inflight_sum us + inflight_sum vs"
  by (induction us rule: inflight_sum.induct) auto

definition steady :: "effect_log \<Rightarrow> bool" where
  "steady x \<longleftrightarrow> (\<forall>i. x \<noteq> Measured (Inflight i))"

lemma inflight_sum_steady: "(\<forall>x \<in> set tr. steady x) \<Longrightarrow> inflight_sum tr = 0"
  by (induction tr rule: inflight_sum.induct) (auto simp: steady_def)

definition balanced :: "('s, 'a) act \<Rightarrow> bool" where
  "balanced m \<longleftrightarrow>
     (\<forall>w r w'. m w = (r, w') \<longrightarrow> (\<exists>tr. wd_trace w' = wd_trace w @ tr \<and> inflight_sum tr = 0))"

lemma balanced_emits: "emits steady m \<Longrightarrow> balanced m"
  unfolding emits_def balanced_def using inflight_sum_steady by metis

lemma about_steady: "about c t x \<Longrightarrow> steady x"
  by (cases x) (auto simp: steady_def)

lemma handle_tool_call_steady: "emits steady (handle_tool_call E c)"
  using emits_some_handle_tool_call [of c E] about_steady
  unfolding emits_def emits_some_def by metis

text \<open>The call handled between the two updates of the gauge leaves it where it was.\<close>

lemma balanced_measured_call: "balanced (measured_call E c tool_name)"
  unfolding balanced_def
proof (intro allI impI)
  fix w r w'
  assume m: "measured_call E c tool_name w = (r, w')"
  let ?w1 = "tick (log_effect (Measured (Inflight 1)) w)"
  let ?body = "case tool_name of JStr t \<Rightarrow> handle_tool_call E c | _ \<Rightarrow> throw (Exn DbErr ''DataError'')"
  have "emits steady ?body"
    by (auto intro: handle_tool_call_steady emits_throw split: json.split)
  moreover obtain r1 w2 where b: "?body ?w1 = (r1, w2)" by fastforce
  ultimately obtain tr where tr: "wd_trace w2 = wd_trace ?w1 @ tr" "\<forall>x \<in> set tr. steady x"
    unfolding emits_def by blast
  from m b obtain x where "wd_trace w' = wd_trace w2 @ [Measured (Inflight (-1)), Measured (ToolCallDuration (cl_server c) (cl_tool c) x)]"
    by (auto simp: measured_call_def bind_act_def measure_metric_def draw_def finally_act_def
        log_effect_def tick_def split: prod.splits)
  with tr show "\<exists>tr. wd_trace w' = wd_trace w @ tr \<and> inflight_sum tr = 0"
    by (intro exI [of _ "[Measured (Inflight 1)] @ tr @ [Measured (Inflight (-1)), Measured (ToolCallDuration (cl_server c) (cl_tool c) x)]"])
      (simp add: log_effect_def tick_def inflight_sum_steady)
qed

lemma balanced_bind_quiet:
  assumes "\<And>w. wd_trace (snd (m w)) = wd_trace w" and "\<And>a. balanced (k a)"
  shows "balanced (bind_act m k)"
  unfolding balanced_def
proof (intro allI impI)
  fix w r w'
  assume b: "bind_act m k w = (r, w')"
  obtain r1 w1 where m1: "m w = (r1, w1)" by fastforce
  then have t: "wd_trace w1 = wd_trace w" using assms(1) [of w] by simp
  show "\<exists>tr. wd_trace w' = wd_trace w @ tr \<and> inflight_sum tr = 0"
  proof (cases r1)
    case (Inl e)
    then show ?thesis using b m1 t by (auto simp: bind_act_def)
  next
    case (Inr a)
    then have "k a w1 = (r, w')" using b m1 by (simp add: bind_act_def)
    then show ?thesis using t assms(2) [of a] unfolding balanced_def by metis
  qed
qed

lemma balanced_ret: "balanced (ret a)"
  by (rule balanced_emits [OF emits_ret])

lemma balanced_proxy_mcp: "balanced (proxy_mcp E server_name req)"
proof -
  have send: "emits steady (send E rq)" for rq
    by (rule emits_one) (simp add: send_def Let_def log_effect_def steady_def)
  then have fwd: "balanced (bind_act (forward E rq) (\<lambda>r. ret (Replied r)))" for rq
    unfolding forward_def by (intro balanced_emits emits_bind emits_ret)
  show ?thesis
    unfolding proxy_mcp_def Let_def
    by (rule balanced_bind_quiet)
      (auto simp: draw_def tick_def lift_res_def intro!: fwd balanced_ret balanced_measured_call balanced_bind_quiet
        split: sum.split option.split)
qed

end
