(* ===== verification/ResponseStage.thy ===== *)
theory ResponseStage
  imports GatewayProps
begin

text \<open>
  Stage 8 for a call whose policies look at the response: what the client can decode from the
  buffered reply, and that a reply the stage cannot vouch for is never passed on.
\<close>

section \<open>Redaction keeps a value printable\<close>

lemma wf_json_frame [simp]: "wf_json fr (json_frame j) = wf_json fr j"
proof (induction j)
  case (JObj kvs)
  have "map fst (map (\<lambda>(k, v). (k, json_frame v)) kvs) = map fst kvs" by (induction kvs) auto
  moreover have "(\<forall>(k, v) \<in> set (map (\<lambda>(k, v). (k, json_frame v)) kvs). wf_json fr v) \<longleftrightarrow>
      (\<forall>(k, v) \<in> set kvs. wf_json fr v)"
    using JObj by fastforce
  ultimately show ?case by (simp del: map_map)
qed auto

lemma wf_json_same_frame: "json_frame i = json_frame j \<Longrightarrow> wf_json fr i = wf_json fr j"
  by (metis wf_json_frame)

lemma frame_dict_set:
  "map_of kvs k = Some old \<Longrightarrow> json_frame v = json_frame old \<Longrightarrow>
     json_frame (JObj (dict_set k v kvs)) = json_frame (JObj kvs)"
  by (induction k v kvs rule: dict_set.induct) (auto split: if_splits)

section \<open>The result of a response\<close>

definition result_of :: "json \<Rightarrow> json option" where
  "result_of j =
     (case j of
        JObj kvs \<Rightarrow> (case dict_get kvs ''result'' of JObj r \<Rightarrow> Some (JObj r) | _ \<Rightarrow> None)
      | _ \<Rightarrow> None)"

lemma result_of_Some:
  "result_of j = Some r \<longleftrightarrow> (\<exists>kvs res. j = JObj kvs \<and> map_of kvs ''result'' = Some (JObj res) \<and> r = JObj res)"
  by (auto simp: result_of_def dict_get_def split: json.splits option.splits)

text \<open>No string of the result matches a pattern the policies redact.\<close>

definition clean :: "policy_set \<Rightarrow> json \<Rightarrow> bool" where
  "clean ps j \<longleftrightarrow> (\<forall>t \<in> set (json_strings j). \<not> pii_in (pii_pattern_names (ps_policies ps)) t)"

definition content_type_of :: "up_response \<Rightarrow> string" where
  "content_type_of up = (case header_get (ur_headers up) ''content-type'' of None \<Rightarrow> [] | Some t \<Rightarrow> t)"

lemma stage8_body:
  assumes "stage8 E c ps raw ct w = (Inr (body, tags), w')"
  shows "\<exists>parsed. decode_mcp_body (ev_json_float E) raw ct = Inr parsed \<and>
    (case result_of parsed of
       None \<Rightarrow> body = raw \<and> tags = []
     | Some res \<Rightarrow> \<exists>kvs payload. parsed = JObj kvs \<and> json_frame payload = json_frame res \<and>
         clean ps payload \<and> body = encode_mcp_body (JObj (dict_set ''result'' payload kvs)) ct)"
proof -
  obtain parsed where p: "decode_mcp_body (ev_json_float E) raw ct = Inr parsed"
    using assms by (auto simp: stage8_def bind_act_def lift_res_def split: sum.splits)
  show ?thesis
  proof (cases "result_of parsed")
    case None
    then have "body = raw \<and> tags = []"
      using assms p
      by (auto simp: stage8_def bind_act_def lift_res_def ret_def result_of_def split: json.splits)
    then show ?thesis using p None by simp
  next
    case (Some r)
    then obtain kvs res where k: "parsed = JObj kvs" "map_of kvs ''result'' = Some (JObj res)" "r = JObj res"
      by (auto simp: result_of_Some)
    then have d: "dict_get kvs ''result'' = JObj res" by (simp add: dict_get_def)
    obtain ctx er w1 where er: "run_evaluate_response E ps (JObj res) ctx w = (Inr er, w1)"
      and b: "body = encode_mcp_body (JObj (dict_set ''result'' (er_payload er) kvs)) ct"
      using assms p k d by (auto simp: stage8_def lift_res_def ret_def dest!: bind_act_Inr)
    from er obtain s s' where "evaluate_response (ev_response_policies E) ps (JObj res) ctx s = (Inr er, s')"
      by (auto simp: run_evaluate_response_def Let_def split: prod.splits)
    from evaluate_response_redacts [OF this] b p k Some show ?thesis by (auto simp: clean_def)
  qed
qed

text \<open>
  What the client decodes: the upstream's message with the same shape, the result free of what
  the policies redact.
\<close>

lemma stage8_decoded:
  assumes s: "stage8 E c ps raw ct w = (Inr (body, tags), w')"
    and p: "decode_mcp_body (ev_json_float E) raw ct = Inr parsed" and r: "result_of parsed = Some res"
    and wf: "wf_json (ev_json_float E) parsed"
  shows "\<exists>out res'. decode_mcp_body (ev_json_float E) body ct = Inr out \<and>
    json_frame out = json_frame parsed \<and> result_of out = Some res' \<and> clean ps res'"
proof -
  obtain kvs payload where k: "parsed = JObj kvs" "json_frame payload = json_frame res"
    "clean ps payload" "body = encode_mcp_body (JObj (dict_set ''result'' payload kvs)) ct"
    using stage8_body [OF s] p r by auto
  obtain rs where rs: "map_of kvs ''result'' = Some (JObj rs)" "res = JObj rs"
    using r k(1) by (auto simp: result_of_Some)
  let ?out = "JObj (dict_set ''result'' payload kvs)"
  have f: "json_frame ?out = json_frame parsed"
    using frame_dict_set [OF rs(1)] k(1,2) rs(2) by metis
  then have "wf_json (ev_json_float E) ?out" using wf wf_json_same_frame by blast
  then have "decode_mcp_body (ev_json_float E) body ct = Inr ?out"
    unfolding k(4) by (rule decode_encode_mcp_body)
  moreover have "\<exists>ps'. payload = JObj ps'"
    using k(2) rs(2) by (cases payload) auto
  then have "result_of ?out = Some payload" by (auto simp: result_of_Some)
  ultimately show ?thesis using f k(3) by blast
qed

lemma forward_buffered_cases:
  assumes "forward_buffered E c ps w = (Inr (resp, tags), w')"
  obtains n up raw body w1 where "ev_send E n (call_request c) = Inr up" and "ur_body up = Inr raw"
    and "stage8 E c ps raw (content_type_of up) w1 = (Inr (body, tags), w')"
    and "resp = \<lparr>rs_status = ur_status up, rs_headers = response_headers (ur_headers up),
           rs_content = CBytes body\<rparr>"
proof -
  obtain up w1 raw w2 body tgs w3 where s: "send E (call_request c) w = (Inr up, w1)"
    and raw: "lift_res (ur_body up) w1 = (Inr raw, w2)"
    and c: "catch_act (stage8 E c ps raw (content_type_of up))
      (\<lambda>e. throw (as_response_policy_error e)) w2 = (Inr (body, tgs), w3)"
    and r: "ret (\<lparr>rs_status = ur_status up, rs_headers = response_headers (ur_headers up),
      rs_content = CBytes body\<rparr>, tgs) w3 = (Inr (resp, tags), w')"
    using assms unfolding forward_buffered_def content_type_of_def [symmetric] Let_def
    by (auto dest!: bind_act_Inr)
  from c r have "stage8 E c ps raw (content_type_of up) w2 = (Inr (body, tags), w')"
    by (auto simp: catch_act_def throw_def ret_def split: prod.splits sum.splits)
  moreover from s obtain n where "ev_send E n (call_request c) = Inr up"
    by (auto simp: send_def Let_def)
  ultimately show thesis using that raw r by (auto simp: lift_res_def ret_def)
qed

text \<open>
  A forward that fails, in transport or in the response stage, is answered with the error it
  failed with, whatever the upstream had sent; any other exception propagates.
\<close>

lemma failed_forward_reply:
  assumes "run_forward E c ps (tick w) = (Inl e, w2)"
  shows "case fst (forward_and_record E c ps t f d i h w) of
      Inl e' \<Rightarrow> True
    | Inr resp \<Rightarrow> resp = upstream_error_response (cl_rpc_id c) e \<and> exn_kind e \<in> {HttpErr, ResponsePolicyErr}"
proof (cases "fst (forward_and_record E c ps t f d i h w)")
  case (Inr resp)
  then obtain w' where "forward_and_record E c ps t f d i h w = (Inr resp, w')" by (metis prod.collapse)
  then have "resp = upstream_error_response (cl_rpc_id c) e \<and> exn_kind e \<in> {HttpErr, ResponsePolicyErr}"
    using assms
    by (auto simp: forward_and_record_def upstream_failure_def attempt_def ret_def throw_def draw_def
        dest!: bind_act_Inr split: prod.splits if_splits)
  then show ?thesis using Inr by simp
qed simp

lemma buffered_errors:
  assumes "forward_buffered E c ps w = (Inl e, w')"
  shows "(\<exists>n. ev_send E n (call_request c) = Inl e) \<or>
    (\<exists>n up. ev_send E n (call_request c) = Inr up \<and> ur_body up = Inl e) \<or>
    exn_kind e = ResponsePolicyErr"
  using assms
  by (auto simp: forward_buffered_def bind_act_def catch_act_def throw_def ret_def lift_res_def Let_def
      send_def as_response_policy_error_def split: prod.splits sum.splits if_splits)

end
