(* ===== verification/Samples.thy ===== *)
theory Samples
  imports AuditStore PolicySetProps
begin

text \<open>Concrete inputs the witnesses of the properties are evaluated at.\<close>

definition sample_time :: datetime where
  "sample_time = \<lparr>dt_year = 2026, dt_month = 1, dt_day = 2, dt_hour = 3, dt_minute = 4,
     dt_second = 5, dt_micro = 678, dt_offset = 0\<rparr>"

definition sample_args :: entry_args where
  "sample_args =
     \<lparr>ea_status = ''INTENT'', ea_trace_id = ''t1'', ea_span_id = ''s1'', ea_agent_id = ''agent-a'',
      ea_session_id = ''session-1'', ea_server = ''hello-echo'', ea_tool = ''echo'', ea_args_hash = ''00'',
      ea_args_redacted = JObj [(''message'', JStr ''hi'')],
      ea_policies_fired = JList [], ea_decision = JObj [(''outcome'', JStr ''PASS'')],
      ea_parent_id = None, ea_latency_ms = None, ea_tokens = JNull, ea_hitl_ticket_id = None,
      ea_hitl_reviewer = None, ea_hitl_decision = None, ea_hitl_rationale = None, ea_tags = None\<rparr>"

text \<open>The row a first write appends, as the log it makes.\<close>

definition sample_row :: audit_entry where
  "sample_row = sealed_entry empty_table sample_time sample_args"

lemma sample_write:
  "write_entry None sample_time sample_args empty_table =
     (Inr sample_row, \<lparr>tb_rows = [sample_row], tb_seq = 1\<rparr>)"
proof -
  have "ae_id (sealed_entry empty_table sample_time sample_args) = 1"
    by (simp add: sealed_entry_id) (simp add: empty_table_def)
  then have i: "(sealed_entry empty_table sample_time sample_args)\<lparr>ae_id := 1\<rparr> = sample_row"
    by (simp add: sample_row_def)
  have "row_constraints [] sample_row"
    by (simp add: row_constraints_def sample_row_def sealed_entry_def Let_def entry_of_args_def
        sample_args_def STATUSES_def)
  then show ?thesis
    using i by (simp add: write_entry_eq insert_row_def Let_def) (simp add: empty_table_def)
qed

lemma sample_row_valid: "audit_valid [sample_row]" "audit_valid [sample_row\<lparr>ae_id := 7\<rparr>]"
proof -
  have p: "ae_prev_hash sample_row = GENESIS_HASH" "ae_this_hash sample_row = entry_digest GENESIS_HASH sample_row"
    using sealed_entry_hashes [of empty_table sample_time sample_args]
    by (simp_all add: sample_row_def empty_table_def)
  then show "audit_valid [sample_row]" by (simp add: audit_valid_iff)
  have "entry_digest GENESIS_HASH (sample_row\<lparr>ae_id := 7\<rparr>) = entry_digest GENESIS_HASH sample_row"
    by (simp add: entry_digest_def entry_text_def entry_pairs_def)
  with p show "audit_valid [sample_row\<lparr>ae_id := 7\<rparr>]" by (simp add: audit_valid_iff)
qed

lemma sample_row_ok: "entry_ok fr sample_row"
  by (simp add: entry_ok_def sample_row_def sealed_entry_def Let_def entry_of_args_def sample_args_def
      sample_time_def datetime_ok_def)

lemma sample_row_renumbered: "entry_ok fr (sample_row\<lparr>ae_id := i\<rparr>)"
  using sample_row_ok [of fr] by (simp add: entry_ok_def)

end
