(* ===== verification/HitlProps.thy ===== *)
theory HitlProps
  imports HitlQueue Interfaces
begin

text \<open>
  What the HITL queue promises: tickets survive the trip through Redis, a created ticket can
  be read back and is listed, a decision is applied once, polling ends within a bounded number
  of rounds, and the read-then-write of a decision is not atomic.
\<close>

section \<open>Round trip\<close>

text \<open>What is left of a ticket after storing it: empty optional texts read back as \<open>None\<close>.\<close>

definition ticket_norm :: "hitl_ticket \<Rightarrow> hitl_ticket" where
  "ticket_norm t = t\<lparr>tk_decided_by := or_none (or_empty (tk_decided_by t)),
     tk_rationale := or_none (or_empty (tk_rationale t))\<rparr>"

definition ticket_ok :: "(string \<Rightarrow> string res) \<Rightarrow> (string \<Rightarrow> string) \<Rightarrow> hitl_ticket \<Rightarrow> bool" where
  "ticket_ok fl fr t \<longleftrightarrow> wf_json fr (tk_arguments t) \<and> fl (tk_created_at t) = Inr (tk_created_at t) \<and>
     (case tk_decided_at t of None \<Rightarrow> True | Some d \<Rightarrow> d \<noteq> [] \<and> fl d = Inr d)"

lemma from_redis_cong:
  assumes "\<And>k. k \<in> fst ` set (to_redis t) \<Longrightarrow> map_of d k = map_of (to_redis t) k"
  shows "from_redis fl fr d = from_redis fl fr (to_redis t)"
proof -
  have "get_field d k = get_field (to_redis t) k" if "k \<in> fst ` set (to_redis t)" for k
    using assms [OF that] by (simp add: get_field_def)
  then show ?thesis by (simp add: from_redis_def to_redis_def)
qed

lemma get_field_to_redis:
  "get_field (to_redis t) ''ticket_id'' = Inr (tk_ticket_id t)"
  "get_field (to_redis t) ''server'' = Inr (tk_server t)"
  "get_field (to_redis t) ''tool'' = Inr (tk_tool t)"
  "get_field (to_redis t) ''arguments'' = Inr (json_dumps (tk_arguments t))"
  "get_field (to_redis t) ''agent_id'' = Inr (tk_agent_id t)"
  "get_field (to_redis t) ''session_id'' = Inr (tk_session_id t)"
  "get_field (to_redis t) ''trace_id'' = Inr (tk_trace_id t)"
  "get_field (to_redis t) ''audit_entry_id'' = Inr (show_int (tk_audit_entry_id t))"
  "get_field (to_redis t) ''reviewer_group'' = Inr (tk_reviewer_group t)"
  "get_field (to_redis t) ''timeout_seconds'' = Inr (show_int (tk_timeout_seconds t))"
  "get_field (to_redis t) ''status'' = Inr (tk_status t)"
  "get_field (to_redis t) ''created_at'' = Inr (tk_created_at t)"
  "get_field (to_redis t) ''decided_by'' = Inr (or_empty (tk_decided_by t))"
  "get_field (to_redis t) ''decided_at'' = Inr (or_empty (tk_decided_at t))"
  "get_field (to_redis t) ''rationale'' = Inr (or_empty (tk_rationale t))"
  by (simp_all add: get_field_def to_redis_def)

lemma from_to_redis:
  assumes "ticket_ok fl fr t"
  shows "from_redis fl fr (to_redis t) = Inr (ticket_norm t)"
proof -
  have a: "loads_res fr (json_dumps (tk_arguments t)) = Inr (tk_arguments t)"
    using assms by (simp add: loads_res_def ticket_ok_def json_loads_json_dumps)
  have d: "(if or_empty (tk_decided_at t) = [] then Inr None
      else bind_res (fl (or_empty (tk_decided_at t))) (\<lambda>x. Inr (Some x))) = Inr (tk_decided_at t)"
    using assms by (auto simp: ticket_ok_def or_empty_def split: option.splits)
  have c: "fl (tk_created_at t) = Inr (tk_created_at t)" using assms by (simp add: ticket_ok_def)
  show ?thesis
    unfolding from_redis_def get_field_to_redis bind_res_simps a c d py_int_show_int
    by (simp add: ticket_norm_def)
qed

interpretation tk: codec to_redis "from_redis fl fr" Inr "ticket_ok fl fr" ticket_norm for fl fr
  by standard (simp_all add: from_to_redis)

section \<open>Reading back what was written\<close>

lemma map_of_foldl_dict_set:
  "distinct (map fst m) \<Longrightarrow>
     map_of (foldl (\<lambda>d (f, v). dict_set f v d) d m) k = (case map_of m k of None \<Rightarrow> map_of d k | Some v \<Rightarrow> Some v)"
proof (induction m arbitrary: d)
  case (Cons p m)
  obtain f v where p: "p = (f, v)" by (cases p)
  from Cons.prems p have "f \<notin> fst ` set m" by simp
  then have none: "map_of m f = None" by (simp add: map_of_eq_None_iff)
  show ?case
    using Cons.IH [of "dict_set f v d"] Cons.prems p none by (cases "k = f") (simp_all split: option.split)
qed simp

lemma to_redis_distinct: "distinct (map fst (to_redis t))"
  by (simp add: to_redis_def)

lemma hset_ticket_reads_back:
  assumes "ticket_ok fl fr t"
  shows "from_redis fl fr (foldl (\<lambda>d (f, v). dict_set f v d) d (to_redis t)) = Inr (ticket_norm t)"
    and "foldl (\<lambda>d (f, v). dict_set f v d) d (to_redis t) \<noteq> []"
proof -
  let ?d = "foldl (\<lambda>d (f, v). dict_set f v d) d (to_redis t)"
  have eq: "map_of ?d k = map_of (to_redis t) k" if k: "k \<in> fst ` set (to_redis t)" for k
  proof -
    from k obtain v where "map_of (to_redis t) k = Some v"
      by (metis map_of_eq_None_iff option.exhaust)
    then show ?thesis by (simp add: map_of_foldl_dict_set [OF to_redis_distinct])
  qed
  from from_redis_cong [of t ?d, OF eq] from_to_redis [OF assms]
  show "from_redis fl fr ?d = Inr (ticket_norm t)" by simp
  have "map_of ?d ''ticket_id'' = Some (tk_ticket_id t)"
    using eq [of "''ticket_id''"] by (simp add: to_redis_def)
  then show "?d \<noteq> []" by auto
qed

lemma ticket_key_neq_pending: "length i \<noteq> 7 \<Longrightarrow> ticket_key i \<noteq> PENDING_SET_KEY"
  by (auto simp: ticket_key_def PENDING_SET_KEY_def)

lemma create_then_get:
  assumes laws: "redis_laws R" and ok: "ticket_ok fl fr t" and ttl: "0 \<le> tk_timeout_seconds t"
    and id: "length (tk_ticket_id t) \<noteq> 7"
    and read: "rd_hgetall R (ticket_key (tk_ticket_id t)) s = Inr d" "rd_smembers R PENDING_SET_KEY s = Inr ms"
    and create: "create_ticket R t s = (Inr t', s')"
  shows "get_ticket R fl fr (tk_ticket_id t) s' = Inr (Some (ticket_norm t))"
    and "\<exists>ms'. rd_smembers R PENDING_SET_KEY s' = Inr ms' \<and> set ms' = insert (tk_ticket_id t) (set ms)"
    and "t' = t"
proof -
  let ?k = "ticket_key (tk_ticket_id t)"
  let ?cmds = "[HSet ?k (to_redis t), Expire ?k (tk_timeout_seconds t + TICKET_TTL_GRACE_SECONDS),
    SAdd PENDING_SET_KEY (tk_ticket_id t)]"
  have x: "rd_exec R ?cmds s = (Inr (), s')" and t': "t' = t"
    using create by (auto simp: create_ticket_def Let_def split: prod.splits sum.splits)
  have live: "\<not> tk_timeout_seconds t + TICKET_TTL_GRACE_SECONDS \<le> 0"
    using ttl by (simp add: TICKET_TTL_GRACE_SECONDS_def)
  have "hash_after ?k ?cmds d = foldl (\<lambda>d (f, v). dict_set f v d) d (to_redis t)"
    using live by (simp add: hash_after_def)
  then have "rd_hgetall R ?k s' = Inr (foldl (\<lambda>d (f, v). dict_set f v d) d (to_redis t))"
    using redis_laws_hgetall [OF laws x read(1)] by simp
  then show "get_ticket R fl fr (tk_ticket_id t) s' = Inr (Some (ticket_norm t))"
    using hset_ticket_reads_back [OF ok, of d] by (simp add: get_ticket_def)
  have "members_after PENDING_SET_KEY ?cmds (set ms) = insert (tk_ticket_id t) (set ms)"
    using live ticket_key_neq_pending [OF id] by (simp add: members_after_def)
  then show "\<exists>ms'. rd_smembers R PENDING_SET_KEY s' = Inr ms' \<and> set ms' = insert (tk_ticket_id t) (set ms)"
    using redis_laws_smembers [OF laws x read(2)] by simp
  show "t' = t" by (rule t')
qed

section \<open>Deciding\<close>

lemma decide_settled:
  assumes "get_ticket R fl fr i s = Inr (Some t)" and "tk_status t \<noteq> ''PENDING''"
  shows "decide_ticket R fl fr now i st who why s = (Inr (Some (t, False)), s)"
  using assms
  by (auto simp: get_ticket_def decide_ticket_def decide_read_def bind_res_eq_Inr split: if_splits)

lemma decide_missing:
  assumes "get_ticket R fl fr i s = Inr None"
  shows "decide_ticket R fl fr now i st who why s = (Inr None, s)"
  using assms
  by (auto simp: get_ticket_def decide_ticket_def decide_read_def bind_res_eq_Inr split: if_splits)

definition decided :: "string \<Rightarrow> string \<Rightarrow> string \<Rightarrow> string \<Rightarrow> hitl_ticket \<Rightarrow> hitl_ticket" where
  "decided now st who why t = t\<lparr>tk_status := st, tk_decided_by := Some who,
     tk_decided_at := Some now, tk_rationale := Some why\<rparr>"

lemma decide_write_reads_back:
  assumes laws: "redis_laws R" and ok: "ticket_ok fl fr t"
    and read: "rd_hgetall R (ticket_key i) s = Inr d" and w: "decide_write R i t s = (Inr (), s')"
  shows "get_ticket R fl fr i s' = Inr (Some (ticket_norm t))"
proof -
  let ?k = "ticket_key i"
  from w obtain s1 where s1: "rd_exec R [HSet ?k (to_redis t)] s = (Inr (), s1)"
    and s': "rd_exec R [SRem PENDING_SET_KEY i] s1 = (Inr (), s')"
    by (auto simp: decide_write_def split: prod.splits sum.splits)
  have "rd_hgetall R ?k s1 = Inr (foldl (\<lambda>d (f, v). dict_set f v d) d (to_redis t))"
    using redis_laws_hgetall [OF laws s1 read] by (simp add: hash_after_def)
  from redis_laws_hgetall [OF laws s' this]
  show ?thesis using hset_ticket_reads_back [OF ok, of d] by (simp add: get_ticket_def hash_after_def)
qed

lemma decide_pending:
  assumes laws: "redis_laws R" and get: "get_ticket R fl fr i s = Inr (Some t)"
    and pending: "tk_status t = ''PENDING''"
    and ok: "ticket_ok fl fr (decided now st who why t)"
    and res: "decide_ticket R fl fr now i st who why s = (Inr x, s')"
  shows "x = Some (decided now st who why t, True)"
    and "get_ticket R fl fr i s' = Inr (Some (ticket_norm (decided now st who why t)))"
proof -
  from get obtain d where d: "rd_hgetall R (ticket_key i) s = Inr d" "d \<noteq> []" "from_redis fl fr d = Inr t"
    by (auto simp: get_ticket_def bind_res_eq_Inr split: if_splits)
  then have read: "decide_read R fl fr now i st who why s = Inr (Decide (decided now st who why t))"
    using pending by (simp add: decide_read_def decided_def)
  then obtain u where w: "decide_write R i (decided now st who why t) s = (Inr u, s')"
    and x: "x = Some (decided now st who why t, True)"
    using res by (auto simp: decide_ticket_def split: prod.splits sum.splits)
  show "x = Some (decided now st who why t, True)" by (rule x)
  show "get_ticket R fl fr i s' = Inr (Some (ticket_norm (decided now st who why t)))"
    using decide_write_reads_back [OF laws ok d(1)] w by simp
qed

text \<open>The first decision stands: a later call changes nothing and returns it.\<close>

lemma decide_once:
  assumes "redis_laws R" and "get_ticket R fl fr i s = Inr (Some t)" and "tk_status t = ''PENDING''"
    and "ticket_ok fl fr (decided now st who why t)" and "st \<noteq> ''PENDING''"
    and "decide_ticket R fl fr now i st who why s = (Inr x, s')"
  shows "decide_ticket R fl fr now' i st' who' why' s' =
    (Inr (Some (ticket_norm (decided now st who why t), False)), s')"
proof -
  have "get_ticket R fl fr i s' = Inr (Some (ticket_norm (decided now st who why t)))"
    by (rule decide_pending(2) [OF assms(1,2,3,4,6)])
  moreover have "tk_status (ticket_norm (decided now st who why t)) \<noteq> ''PENDING''"
    using assms(5) by (simp add: ticket_norm_def decided_def)
  ultimately show ?thesis by (rule decide_settled)
qed

text \<open>
  Two reviewers who both read the ticket before either wrote: the second write wins, although
  both believe their decision was applied.
\<close>

lemma decide_race:
  assumes laws: "redis_laws R" and get: "get_ticket R fl fr i s = Inr (Some t)"
    and pending: "tk_status t = ''PENDING''"
    and ok: "ticket_ok fl fr (decided now1 st1 who1 why1 t)" "ticket_ok fl fr (decided now2 st2 who2 why2 t)"
  shows "\<exists>p1 p2. decide_read R fl fr now1 i st1 who1 why1 s = Inr (Decide p1) \<and>
      decide_read R fl fr now2 i st2 who2 why2 s = Inr (Decide p2) \<and>
      (\<forall>s1 s2. decide_write R i p1 s = (Inr (), s1) \<longrightarrow> decide_write R i p2 s1 = (Inr (), s2) \<longrightarrow>
         get_ticket R fl fr i s1 = Inr (Some (ticket_norm (decided now1 st1 who1 why1 t))) \<and>
         get_ticket R fl fr i s2 = Inr (Some (ticket_norm (decided now2 st2 who2 why2 t))))"
proof -
  from get obtain d where d: "rd_hgetall R (ticket_key i) s = Inr d" "d \<noteq> []" "from_redis fl fr d = Inr t"
    by (auto simp: get_ticket_def bind_res_eq_Inr split: if_splits)
  have r: "decide_read R fl fr now i st who why s = Inr (Decide (decided now st who why t))" for now st who why
    using d pending by (simp add: decide_read_def decided_def)
  show ?thesis
  proof (intro exI conjI allI impI)
    show "decide_read R fl fr now1 i st1 who1 why1 s = Inr (Decide (decided now1 st1 who1 why1 t))"
      "decide_read R fl fr now2 i st2 who2 why2 s = Inr (Decide (decided now2 st2 who2 why2 t))"
      by (rule r)+
    fix s1 s2
    assume w1: "decide_write R i (decided now1 st1 who1 why1 t) s = (Inr (), s1)"
      and w2: "decide_write R i (decided now2 st2 who2 why2 t) s1 = (Inr (), s2)"
    show g1: "get_ticket R fl fr i s1 = Inr (Some (ticket_norm (decided now1 st1 who1 why1 t)))"
      by (rule decide_write_reads_back [OF laws ok(1) d(1) w1])
    then obtain d1 where "rd_hgetall R (ticket_key i) s1 = Inr d1"
      by (auto simp: get_ticket_def bind_res_eq_Inr)
    from decide_write_reads_back [OF laws ok(2) this w2]
    show "get_ticket R fl fr i s2 = Inr (Some (ticket_norm (decided now2 st2 who2 why2 t)))" .
  qed
qed

section \<open>Waiting\<close>

text \<open>
  What the loop relies on about time: after a poll that leaves time, the next reading is at
  least the shorter of the poll interval and the time left later.
\<close>

definition paced :: "(nat \<Rightarrow> rat) \<Rightarrow> rat \<Rightarrow> rat \<Rightarrow> bool" where
  "paced clock poll deadline \<longleftrightarrow>
     (\<forall>n. clock (Suc n) < deadline \<longrightarrow>
        clock (Suc n) + min poll (deadline - clock (Suc n)) \<le> clock (Suc (Suc n)))"

lemma wait_loop_ends:
  assumes "paced clock poll deadline" and "0 < poll"
    and "deadline - clock (Suc n) \<le> of_nat k * poll" and "k < fuel"
  shows "wait_loop get seen clock deadline fuel n \<noteq> None"
  using assms(3,4)
proof (induction k arbitrary: n fuel)
  case 0
  then obtain f where "fuel = Suc f" by (cases fuel) auto
  then show ?case using 0 by (auto simp: Let_def split: sum.splits option.splits)
next
  case (Suc k)
  then obtain f where f: "fuel = Suc f" "k < f" by (cases fuel) auto
  show ?case
  proof (cases "deadline - clock (Suc n) \<le> 0")
    case True
    then show ?thesis using f by (auto simp: Let_def split: sum.splits option.splits)
  next
    case False
    then have step: "clock (Suc n) + min poll (deadline - clock (Suc n)) \<le> clock (Suc (Suc n))"
      using assms(1) by (simp add: paced_def)
    have "deadline - clock (Suc (Suc n)) \<le> of_nat k * poll"
    proof (cases "poll \<le> deadline - clock (Suc n)")
      case True
      then show ?thesis using step Suc.prems(1) by (simp add: algebra_simps)
    next
      case False
      then have "deadline - clock (Suc (Suc n)) \<le> 0" using step by simp
      also have "0 \<le> of_nat k * poll" using assms(2) by simp
      finally show ?thesis .
    qed
    from Suc.IH [OF this f(2)] show ?thesis using f by (auto simp: Let_def split: sum.splits option.splits)
  qed
qed

text \<open>What the loop returns: a ticket still pending only when the deadline has passed.\<close>

lemma wait_loop_result:
  "wait_loop get seen clock deadline fuel n = Some r \<Longrightarrow>
     \<exists>m \<ge> n. get (seen m) = r \<and>
       (\<forall>j. n \<le> j \<and> j < m \<longrightarrow> (\<exists>t. get (seen j) = Inr (Some t) \<and> tk_status t = ''PENDING'')) \<and>
       (\<forall>t. r = Inr (Some t) \<longrightarrow> tk_status t = ''PENDING'' \<longrightarrow> deadline \<le> clock (Suc m))"
proof (induction fuel arbitrary: n)
  case (Suc fuel)
  show ?case
  proof (cases "\<exists>t. get (seen n) = Inr (Some t) \<and> tk_status t = ''PENDING'' \<and> \<not> deadline - clock (Suc n) \<le> 0")
    case False
    then have "get (seen n) = r \<and> (\<forall>t. r = Inr (Some t) \<longrightarrow> tk_status t = ''PENDING'' \<longrightarrow> deadline \<le> clock (Suc n))"
      using Suc.prems by (auto simp: Let_def split: sum.splits option.splits if_splits)
    then show ?thesis by (intro exI [of _ n]) auto
  next
    case True
    then obtain t where t: "get (seen n) = Inr (Some t)" "tk_status t = ''PENDING''" by blast
    then have "wait_loop get seen clock deadline fuel (Suc n) = Some r"
      using Suc.prems True by (auto simp: Let_def)
    from Suc.IH [OF this] obtain m where m: "Suc n \<le> m" "get (seen m) = r"
      "\<forall>j. Suc n \<le> j \<and> j < m \<longrightarrow> (\<exists>t. get (seen j) = Inr (Some t) \<and> tk_status t = ''PENDING'')"
      "\<forall>t. r = Inr (Some t) \<longrightarrow> tk_status t = ''PENDING'' \<longrightarrow> deadline \<le> clock (Suc m)" by auto
    have "\<exists>t. get (seen j) = Inr (Some t) \<and> tk_status t = ''PENDING''" if "n \<le> j \<and> j < m" for j
      using that t m(3) by (cases "j = n") auto
    then show ?thesis using m by (intro exI [of _ m]) auto
  qed
qed simp

end
