(* ===== verification/CallRuns.thy ===== *)
theory CallRuns
  imports ResponseStage Samples HitlProps
begin

text \<open>
  What a call comes to when nothing fails: no database fault, no interference, an upstream that
  answers. The runs show that the handlers do their work, and are the inputs at which the
  properties of calls are applied.
\<close>

definition quiet_env :: "'s env \<Rightarrow> bool" where
  "quiet_env E \<longleftrightarrow> (\<forall>n. ev_db E n = None) \<and> (\<forall>n s. ev_others E n s = s)"

lemma quiet_others_ok: "quiet_env E \<Longrightarrow> others_ok policies E"
  by (simp add: quiet_env_def others_ok_def)

text \<open>The effects other than measurements.\<close>

fun is_metric :: "effect_log \<Rightarrow> bool" where
  "is_metric (Measured m) = True"
| "is_metric _ = False"

definition acts_of :: "effect_log list \<Rightarrow> effect_log list" where
  "acts_of tr = filter (\<lambda>x. \<not> is_metric x) tr"

lemma acts_of_simps [simp]:
  "acts_of [] = []" "acts_of (us @ vs) = acts_of us @ acts_of vs"
  "acts_of (x # tr) = (if is_metric x then acts_of tr else x # acts_of tr)"
  by (simp_all add: acts_of_def)

text \<open>
  \<open>reaches m w a new tb\<close>: the action returns \<open>a\<close>, adds the effects \<open>new\<close> (measurements aside) and
  leaves the audit table \<open>tb\<close>.
\<close>

definition reaches :: "('s, 'a) act \<Rightarrow> 's world \<Rightarrow> 'a \<Rightarrow> effect_log list \<Rightarrow> 's world \<Rightarrow> bool" where
  "reaches m w a new w' \<longleftrightarrow>
     m w = (Inr a, w') \<and> (\<exists>tr. wd_trace w' = wd_trace w @ tr \<and> acts_of tr = new)"

lemma reaches_bind:
  assumes "reaches m w a new1 w1" and "reaches (k a) w1 b new2 w2"
  shows "reaches (bind_act m k) w b (new1 @ new2) w2"
proof -
  obtain tr1 tr2 where "wd_trace w1 = wd_trace w @ tr1" "acts_of tr1 = new1"
    "wd_trace w2 = wd_trace w1 @ tr2" "acts_of tr2 = new2"
    using assms unfolding reaches_def by blast
  then have "wd_trace w2 = wd_trace w @ (tr1 @ tr2)" "acts_of (tr1 @ tr2) = new1 @ new2" by simp_all
  moreover have "bind_act m k w = (Inr b, w2)" using assms by (simp add: reaches_def bind_act_def)
  ultimately show ?thesis unfolding reaches_def by blast
qed

lemma reaches_quiet: "m w = (Inr a, w') \<Longrightarrow> wd_trace w' = wd_trace w \<Longrightarrow> reaches m w a [] w'"
  unfolding reaches_def by (intro conjI exI [of _ "[]"]) simp_all

lemma reaches_one:
  "m w = (Inr a, w') \<Longrightarrow> wd_trace w' = wd_trace w @ [x] \<Longrightarrow>
     reaches m w a (if is_metric x then [] else [x]) w'"
  unfolding reaches_def by (intro conjI exI [of _ "[x]"]) simp_all

lemma reaches_ret: "reaches (ret a) w a [] w"
  by (rule reaches_quiet) (simp_all add: ret_def)

lemma reaches_draw: "reaches (draw f) w (f (wd_n w)) [] (tick w)"
  by (rule reaches_quiet) (simp_all add: draw_def tick_def)

lemma reaches_measure: "reaches (measure_metric m) w () [] (log_effect (Measured m) w)"
  using reaches_one [of "measure_metric m" w "()" "log_effect (Measured m) w" "Measured m"]
  by (simp add: measure_metric_def log_effect_def)

lemma reaches_measure_fires:
  "\<exists>w'. reaches (measure_fires fs d) w () [] w' \<and> wd_shared w' = wd_shared w"
proof (induction fs arbitrary: w)
  case Nil
  show ?case using reaches_ret [of "()" w] by auto
next
  case (Cons f fs)
  let ?m = "PolicyFire (pr_policy f) (pr_effect_type f) (outcome_value (pd_outcome d))"
  obtain w' where w': "reaches (measure_fires fs d) (log_effect (Measured ?m) w) () [] w'"
    "wd_shared w' = wd_shared (log_effect (Measured ?m) w)"
    using Cons.IH by blast
  then show ?case
    using reaches_bind [OF reaches_measure [of ?m w], of "\<lambda>_. measure_fires fs d"]
    by (force simp: log_effect_def)
qed

section \<open>Rows\<close>

definition row_fits :: "audit_table \<Rightarrow> entry_args \<Rightarrow> bool" where
  "row_fits tb a \<longleftrightarrow> ea_status a \<in> set STATUSES \<and>
     (case ea_parent_id a of None \<Rightarrow> True | Some p \<Rightarrow> p \<in> ae_id ` set (tb_rows tb))"

lemma write_entry_fits:
  assumes ok: "table_ok tb" and fits: "row_fits tb a"
  obtains tb' where "write_entry None now a tb = (Inr (sealed_entry tb now a), tb')"
    and "tb_rows tb' = tb_rows tb @ [sealed_entry tb now a]" and "table_ok tb'"
proof -
  obtain r tb' where w: "write_entry None now a tb = (r, tb')" by fastforce
  have i: "(sealed_entry tb now a)\<lparr>ae_id := tb_seq tb + 1\<rparr> = sealed_entry tb now a"
    by (simp add: sealed_entry_def Let_def entry_of_args_def)
  have "\<forall>e \<in> set (tb_rows tb). ae_id e \<le> tb_seq tb" using ok by (simp add: table_ok_def)
  then have "tb_seq tb + 1 \<notin> ae_id ` set (tb_rows tb)" by auto
  then have c: "row_constraints (tb_rows tb) (sealed_entry tb now a)"
    using fits by (simp add: row_constraints_def row_fits_def sealed_entry_id)
      (simp add: sealed_entry_def Let_def entry_of_args_def split: option.splits)
  then have "r = Inr (sealed_entry tb now a)" "tb_rows tb' = tb_rows tb @ [sealed_entry tb now a]"
    using w by (auto simp: write_entry_eq [OF ok] insert_row_def Let_def i)
  then show thesis using that w table_ok_write [OF ok w] by blast
qed

definition stored_row :: "string \<Rightarrow> int option \<Rightarrow> 's world \<Rightarrow> audit_entry \<Rightarrow> 's world \<Rightarrow> bool" where
  "stored_row status parent w e w' \<longleftrightarrow>
     ae_status e = status \<and> ae_parent_id e = parent \<and> table_ok (sh_table (wd_shared w')) \<and>
     tb_rows (sh_table (wd_shared w')) = tb_rows (sh_table (wd_shared w)) @ [e] \<and>
     sh_redis (wd_shared w') = sh_redis (wd_shared w)"

lemma reaches_write_call_row:
  assumes E: "quiet_env E" and ok: "table_ok (sh_table (wd_shared w))"
    and st: "status \<in> set STATUSES"
    and pa: "case parent of None \<Rightarrow> True | Some p \<Rightarrow> p \<in> ae_id ` set (tb_rows (sh_table (wd_shared w)))"
  obtains e w' where "reaches (write_call_row E c t f status d parent l h tags) w e [Wrote e] w'"
    and "stored_row status parent w e w'"
proof -
  let ?a = "call_row c t f status (ev_uuid E (wd_n w)) d parent l h tags"
  let ?w0 = "tick w" let ?w1 = "await E ?w0"
  have sh: "wd_shared ?w1 = wd_shared w" using E by (simp add: await_def tick_def quiet_env_def)
  have fits: "row_fits (sh_table (wd_shared w)) ?a"
    using st pa by (simp add: row_fits_def)
  let ?now = "ev_utcnow E (wd_n ?w1)"
  let ?e = "sealed_entry (sh_table (wd_shared w)) ?now ?a"
  obtain tb' where tb: "write_entry None ?now ?a (sh_table (wd_shared w)) = (Inr ?e, tb')"
    "tb_rows tb' = tb_rows (sh_table (wd_shared w)) @ [?e]" "table_ok tb'"
    by (rule write_entry_fits [OF ok fits])
  let ?w2 = "log_effect (Wrote ?e) (tick (?w1\<lparr>wd_shared := (wd_shared ?w1)\<lparr>sh_table := tb'\<rparr>\<rparr>))"
  have row: "write_row E ?a ?w0 = (Inr ?e, ?w2)"
    using E tb(1) sh by (simp add: write_row_def Let_def quiet_env_def)
  have "wd_trace ?w2 = wd_trace w @ [Wrote ?e]" by (simp add: log_effect_def tick_def)
  then have "reaches (write_row E ?a) ?w0 ?e [Wrote ?e] ?w2"
    using reaches_one [of "write_row E ?a", OF row, of "Wrote ?e"] by (simp add: tick_def)
  then have "reaches (write_call_row E c t f status d parent l h tags) w ?e ([] @ [Wrote ?e]) ?w2"
    unfolding write_call_row_def by (rule reaches_bind [OF reaches_draw])
  then have "reaches (write_call_row E c t f status d parent l h tags) w ?e [Wrote ?e] ?w2" by simp
  moreover have "ae_status ?e = status" "ae_parent_id ?e = parent"
    by (simp_all add: sealed_entry_def Let_def entry_of_args_def call_row_def)
  then have "stored_row status parent w ?e ?w2"
    using tb(2,3) sh by (simp add: stored_row_def log_effect_def tick_def)
  ultimately show thesis by (rule that)
qed

lemma reaches_publish_decision_event:
  obtains ev w' where "reaches (publish_decision_event E c i t f d k) w () [Published ev] w'"
    and "sh_table (wd_shared w') = sh_table (wd_shared w)" and "de_audit_id ev = i"
    and "sh_redis (wd_shared w') = sh_redis (wd_shared w)"
proof -
  let ?ev = "\<lparr>de_audit_id = i, de_trace_id = t, de_agent_id = subject_of c,
         de_session_id = cl_session_id c, de_server = cl_server c, de_tool = cl_tool c,
         de_args_hash = args_hash_of c, de_policies_fired = f,
         de_decision = \<lparr>cd_outcome = outcome_value (pd_outcome d),
                        cd_fired_policy = pd_fired_policy d, cd_reason = pd_reason d\<rparr>,
         de_hitl_ticket_id = k, de_timestamp = ev_utcnow E (wd_n w)\<rparr>"
  obtain w2 where p: "publish ?ev (tick w) = (Inr (), w2)" by (simp add: publish_def)
  then have w2: "wd_trace w2 = wd_trace (tick w) @ [Published ?ev]"
    "sh_table (wd_shared w2) = sh_table (wd_shared w)" "sh_redis (wd_shared w2) = sh_redis (wd_shared w)"
    by (auto simp: publish_def log_effect_def tick_def)
  have "reaches (publish ?ev) (tick w) () [Published ?ev] w2"
    using reaches_one [of "publish ?ev", OF p w2(1)] by simp
  then have "reaches (publish_decision_event E c i t f d k) w () ([] @ [Published ?ev]) w2"
    unfolding publish_decision_event_def by (rule reaches_bind [OF reaches_draw])
  then have "reaches (publish_decision_event E c i t f d k) w () [Published ?ev] w2" by simp
  then show thesis using that w2(2,3) by fastforce
qed

section \<open>A call that passes\<close>

definition streamed :: "up_response \<Rightarrow> response" where
  "streamed up = \<lparr>rs_status = ur_status up, rs_headers = response_headers (ur_headers up),
     rs_content = CStream (ur_body up)\<rparr>"

lemma reaches_forward_and_record:
  assumes E: "quiet_env E" and ok: "table_ok (sh_table (wd_shared w))"
    and plain: "\<not> has_response_side_policies ps" and up: "\<And>n. ev_send E n (call_request c) = Inr up"
    and i: "i \<in> ae_id ` set (tb_rows (sh_table (wd_shared w)))"
  obtains e w' where
    "reaches (forward_and_record E c ps t f d i h) w (streamed up) [Sent (call_request c), Wrote e] w'"
    and "ae_status e = ''COMPLETED''" and "ae_parent_id e = Some i"
    and "tb_rows (sh_table (wd_shared w')) = tb_rows (sh_table (wd_shared w)) @ [e]"
proof -
  let ?w1 = "tick w"
  let ?w2 = "await E (log_effect (Sent (call_request c)) ?w1)"
  have run: "run_forward E c ps ?w1 = (Inr (streamed up, []), ?w2)"
    using plain up by (simp add: run_forward_def forward_def bind_act_def send_def Let_def ret_def streamed_def)
  have tr2: "wd_trace ?w2 = wd_trace ?w1 @ [Sent (call_request c)]" by (simp add: log_effect_def)
  have sh2: "wd_shared ?w2 = wd_shared w"
    using E by (simp add: await_def tick_def quiet_env_def log_effect_def)
  have att: "reaches (attempt (run_forward E c ps)) ?w1 (Inr (streamed up, [])) [Sent (call_request c)] ?w2"
    using reaches_one [of "attempt (run_forward E c ps)" ?w1 "Inr (streamed up, [])" ?w2 "Sent (call_request c)"]
      run tr2 by (simp add: attempt_def)
  let ?w3 = "tick (log_effect (Measured (ToolCall (cl_server c) (cl_tool c) ''completed'')) ?w2)"
  let ?lat = "int_ms (ev_monotonic E (wd_n (log_effect (Measured (ToolCall (cl_server c) (cl_tool c) ''completed'')) ?w2))
      - ev_monotonic E (wd_n w))"
  have sh3: "wd_shared ?w3 = wd_shared w" using sh2 by (simp add: tick_def log_effect_def)
  have pa: "case Some i of None \<Rightarrow> True | Some p \<Rightarrow> p \<in> ae_id ` set (tb_rows (sh_table (wd_shared ?w3)))"
    using i sh3 by simp
  have ok3: "table_ok (sh_table (wd_shared ?w3))" using ok sh3 by simp
  have st: "''COMPLETED'' \<in> set STATUSES" by (simp add: STATUSES_def)
  obtain e w4 where e: "reaches (write_call_row E c t f ''COMPLETED'' (decision_payload d) (Some i)
      (Some ?lat) h (merge_tags (static_tags ps) [])) ?w3 e [Wrote e] w4"
    "stored_row ''COMPLETED'' (Some i) ?w3 e w4"
    by (rule reaches_write_call_row [OF E ok3 st pa])
  have "reaches (forward_and_record E c ps t f d i h) w (streamed up)
      ([] @ [Sent (call_request c)] @ [] @ [] @ [Wrote e] @ []) w4"
    unfolding forward_and_record_def
    by (rule reaches_bind [OF reaches_draw], rule reaches_bind [OF att],
        simp only: sum.case prod.case,
        rule reaches_bind [OF reaches_measure], rule reaches_bind [OF reaches_draw],
        rule reaches_bind [OF e(1)], rule reaches_ret)
  then show thesis using that e(2) sh3 by (simp add: stored_row_def)
qed

text \<open>
  A call that policy lets through is recorded, announced, sent once as the client wrote it,
  recorded as completed, and answered with the upstream's response.
\<close>

lemma handle_tool_call_passes:
  assumes E: "quiet_env E" and ok: "table_ok (sh_table (wd_shared w))"
    and v: "verdict E c w = Inr d" "pd_outcome d = OPass"
    and plain: "\<not> has_response_side_policies (call_set c w)"
    and up: "\<And>n. ev_send E n (call_request c) = Inr up"
  shows "\<exists>intent ev compl w'.
    reaches (handle_tool_call E c) w (Replied (streamed up))
      [Wrote intent, Published ev, Sent (call_request c), Wrote compl] w' \<and>
    ae_status intent = ''INTENT'' \<and> ae_status compl = ''COMPLETED'' \<and>
    ae_parent_id compl = Some (ae_id intent) \<and> de_audit_id ev = ae_id intent \<and>
    tb_rows (sh_table (wd_shared w')) = tb_rows (sh_table (wd_shared w)) @ [intent, compl]"
proof -
  let ?ps = "call_set c w"
  let ?w1 = "snd (run_compile c w)"
  have c: "reaches (run_compile c) w ?ps [] ?w1"
    by (rule reaches_quiet) (simp_all add: run_compile_def call_set_def case_prod_beta' Let_def)
  have sh1: "sh_table (wd_shared ?w1) = sh_table (wd_shared w)"
    by (simp add: run_compile_def case_prod_beta' Let_def)
  obtain w2 where ev: "run_evaluate E ?ps c ?w1 = (Inr d, w2)"
    using v(1) unfolding verdict_def by (metis prod.collapse)
  have w2: "wd_trace w2 = wd_trace ?w1" "sh_table (wd_shared w2) = sh_table (wd_shared ?w1)"
    using ev E by (auto simp: run_evaluate_def Let_def case_prod_beta' await_def tick_def quiet_env_def)
  obtain f where f: "evaluate_policy_set E ?ps c ?w1 = (Inr (d, f), w2)"
    using ev by (simp add: evaluate_policy_set_def catch_act_def bind_act_def ret_def)
  have e: "reaches (evaluate_policy_set E ?ps c) ?w1 (d, f) [] w2"
    by (rule reaches_quiet [of "evaluate_policy_set E ?ps c", OF f w2(1)])
  obtain w3 where w3: "reaches (measure_fires f d) w2 () [] w3" "wd_shared w3 = wd_shared w2"
    using reaches_measure_fires by blast
  let ?w4 = "tick w3" and ?t = "ev_uuid E (wd_n w3)"
  have sh4: "sh_table (wd_shared ?w4) = sh_table (wd_shared w)"
    using w3(2) w2(2) sh1 by (simp add: tick_def)
  have ok4: "table_ok (sh_table (wd_shared ?w4))" using ok sh4 by simp
  have st: "''INTENT'' \<in> set STATUSES" and pa: "case None of None \<Rightarrow> True | Some p \<Rightarrow> P p" for P
    by (simp_all add: STATUSES_def)
  obtain intent w5 where i: "reaches (write_call_row E c ?t f ''INTENT'' (decision_payload d) None None no_hitl
      (static_tags ?ps)) ?w4 intent [Wrote intent] w5" "stored_row ''INTENT'' None ?w4 intent w5"
    by (rule reaches_write_call_row [OF E ok4 st pa])
  from i(2) sh4 have i2: "table_ok (sh_table (wd_shared w5))"
    "tb_rows (sh_table (wd_shared w5)) = tb_rows (sh_table (wd_shared w)) @ [intent]"
    "ae_status intent = ''INTENT''"
    by (simp_all add: stored_row_def)
  obtain ev w6 where p: "reaches (publish_decision_event E c (ae_id intent) ?t f d None) w5 () [Published ev] w6"
    "sh_table (wd_shared w6) = sh_table (wd_shared w5)" "de_audit_id ev = ae_id intent"
    using reaches_publish_decision_event by metis
  have ok6: "table_ok (sh_table (wd_shared w6))" using i2(1) p(2) by simp
  have in6: "ae_id intent \<in> ae_id ` set (tb_rows (sh_table (wd_shared w6)))" using i2(2) p(2) by simp
  obtain compl w7 where r: "reaches (forward_and_record E c ?ps ?t f d (ae_id intent) no_hitl) w6 (streamed up)
      [Sent (call_request c), Wrote compl] w7" "ae_status compl = ''COMPLETED''"
    "ae_parent_id compl = Some (ae_id intent)"
    "tb_rows (sh_table (wd_shared w7)) = tb_rows (sh_table (wd_shared w6)) @ [compl]"
    by (rule reaches_forward_and_record [OF E ok6 plain up in6])
  have "reaches (pass_call E c ?ps ?t f d) ?w4 (Replied (streamed up))
      ([Wrote intent] @ [Published ev] @ [Sent (call_request c), Wrote compl] @ []) w7"
    unfolding pass_call_def
    by (rule reaches_bind [OF i(1)], rule reaches_bind [OF p(1)], rule reaches_bind [OF r(1)], rule reaches_ret)
  then have tail: "reaches (case pd_outcome d of ODeny \<Rightarrow> deny_call E c ?ps ?t f d
      | OHold \<Rightarrow> handle_hold E c ?ps ?t f d | OPass \<Rightarrow> pass_call E c ?ps ?t f d) ?w4 (Replied (streamed up))
      [Wrote intent, Published ev, Sent (call_request c), Wrote compl] w7"
    using v(2) by simp
  have "reaches (handle_tool_call E c) w (Replied (streamed up))
      ([] @ [] @ [] @ [] @ [Wrote intent, Published ev, Sent (call_request c), Wrote compl]) w7"
    unfolding handle_tool_call_def
    by (rule reaches_bind [OF c], rule reaches_bind [OF e],
        simp only: prod.case, rule reaches_bind [OF w3(1)], rule reaches_bind [OF reaches_draw], rule tail)
  then show ?thesis using i2 r p by auto
qed

end
