(* ===== verification/SampleCalls.thy ===== *)
theory SampleCalls
  imports CallRuns
begin

text \<open>A gateway over an in-memory Redis, a call to it, and its runs.\<close>

definition sample_message :: json where
  "sample_message = JObj [(''id'', JInt 1), (''result'', JObj [(''note'', JStr ''ssn 123-45-6789'')])]"

definition sample_up :: up_response where
  "sample_up = \<lparr>ur_status = 200, ur_headers = [(''content-type'', ''application/json'')],
     ur_body = Inr (encode_mcp_body sample_message ''application/json'')\<rparr>"

definition sample_env :: "mem_redis env" where
  "sample_env =
     \<lparr>ev_routing = [(''hello-echo'', ''http://127.0.0.1:9001/mcp'')],
      ev_request_policies = [(''aml_sanctions_required'', aml_sanctions_required)],
      ev_response_policies = [(''hello_echo_prompt_injection_scan'', hello_echo_prompt_injection_scan)],
      ev_redis = mem_redis, ev_float = (\<lambda>s. Inr s), ev_json_float = (\<lambda>s. s),
      ev_parse = (\<lambda>b. Inr \<lparr>rm_method = Some ''tools/list'', rm_params = None, rm_id = Some (JInt 1)\<rparr>),
      ev_limiter_clock = (\<lambda>n. of_nat n), ev_uuid = (\<lambda>n. show_nat n), ev_utcnow = (\<lambda>n. sample_time),
      ev_time = (\<lambda>n. ''0.0''), ev_monotonic = (\<lambda>n. of_nat n), ev_db = (\<lambda>n. None),
      ev_send = (\<lambda>n req. Inr sample_up), ev_others = (\<lambda>n s. s), ev_seen = (\<lambda>n s k. sh_redis s),
      ev_poll_clock = (\<lambda>n k. of_nat k), ev_fuel = 10\<rparr>"

definition sample_call :: call where
  "sample_call =
     \<lparr>cl_server = ''hello-echo'', cl_url = ''http://127.0.0.1:9001/mcp'', cl_tool = ''echo'',
      cl_arguments = JObj [(''message'', JStr ''hi'')], cl_rpc_id = JInt 1, cl_agent_id = Some ''agent-a'',
      cl_session_id = ''session-1'', cl_method = ''POST'', cl_headers = [], cl_body = ''{}''\<rparr>"

definition sample_world :: "policy list \<Rightarrow> mem_redis world" where
  "sample_world policies =
     \<lparr>wd_shared = \<lparr>sh_engine = new_engine policies, sh_limiter = new_limiter, sh_table = empty_table,
        sh_redis = ([], []), sh_bus = []\<rparr>,
      wd_trace = [], wd_n = 0\<rparr>"

text \<open>An allowlist of another tool, a redaction of the tool's responses.\<close>

definition sample_policy :: "string \<Rightarrow> string \<Rightarrow> effect \<Rightarrow> policy" where
  "sample_policy name tool eff =
     \<lparr>pol_name = name, pol_description = [],
      pol_applies = \<lparr>at_server = ''hello-echo'', at_tools = [tool]\<rparr>, pol_effect = eff,
      pol_audit = \<lparr>am_severity = SevLow, am_tag = []\<rparr>\<rparr>"

lemma sample_policy_simps [simp]:
  "pol_name (sample_policy n t f) = n" "pol_effect (sample_policy n t f) = f"
  "at_server (pol_applies (sample_policy n t f)) = ''hello-echo''"
  "at_tools (pol_applies (sample_policy n t f)) = [t]"
  "pol_audit (sample_policy n t f) = \<lparr>am_severity = SevLow, am_tag = []\<rparr>"
  by (simp_all add: sample_policy_def)

lemma sample_world_simps [simp]:
  "sh_engine (wd_shared (sample_world ps)) = new_engine ps"
  "sh_table (wd_shared (sample_world ps)) = empty_table"
  "sh_redis (wd_shared (sample_world ps)) = ([], [])"
  "wd_trace (sample_world ps) = []"
  by (simp_all add: sample_world_def)

lemma sample_call_simps [simp]:
  "cl_server sample_call = ''hello-echo''" "cl_tool sample_call = ''echo''"
  by (simp_all add: sample_call_def)

lemma sample_quiet: "quiet_env sample_env"
  by (simp add: quiet_env_def sample_env_def)

lemma sample_others_ok: "others_ok policies sample_env"
  by (rule quiet_others_ok [OF sample_quiet])

lemma sample_send: "ev_send sample_env n req = Inr sample_up"
  by (simp add: sample_env_def)

lemma sample_call_set: "call_set sample_call (sample_world []) = \<lparr>ps_policies = [], ps_server_has_allowlist = False\<rparr>"
  by (simp add: call_set_def compile_def new_engine_def compile_fresh_def compute_server_allowlist_flags_def Let_def)

lemma sample_verdict: "verdict sample_env sample_call (sample_world []) = Inr pass_decision"
  by (simp add: verdict_def sample_call_set run_evaluate_def Let_def case_prod_beta' evaluate_def)

lemma sample_unbuffered: "\<not> has_response_side_policies (call_set sample_call (sample_world []))"
  by (simp add: sample_call_set has_response_side_policies_def)

text \<open>The run of a call no policy looks at.\<close>

lemma sample_pass_run:
  obtains intent ev compl w' where
    "handle_tool_call sample_env sample_call (sample_world []) = (Inr (Replied (streamed sample_up)), w')"
    and "acts_of (wd_trace w') = [Wrote intent, Published ev, Sent (call_request sample_call), Wrote compl]"
proof -
  have ok: "table_ok (sh_table (wd_shared (sample_world [])))" by simp
  have p: "pd_outcome pass_decision = OPass" by simp
  from handle_tool_call_passes [OF sample_quiet ok sample_verdict p sample_unbuffered sample_send]
  show thesis using that by (auto simp: reaches_def)
qed

lemma acts_of_split:
  assumes "acts_of tr = us @ x # vs"
  obtains us' vs' where "tr = us' @ x # vs'"
proof -
  have "x \<in> set (acts_of tr)" using assms by simp
  then have "x \<in> set tr" by (simp add: acts_of_def)
  then show thesis using that by (meson split_list)
qed

lemma sample_pass_sent:
  obtains us vs w' where
    "handle_tool_call sample_env sample_call (sample_world []) = (Inr (Replied (streamed sample_up)), w')"
    and "wd_trace w' = us @ Sent (call_request sample_call) # vs"
proof -
  obtain intent ev compl w' where run: "handle_tool_call sample_env sample_call (sample_world []) =
      (Inr (Replied (streamed sample_up)), w')"
    and acts: "acts_of (wd_trace w') = [Wrote intent, Published ev, Sent (call_request sample_call), Wrote compl]"
    by (rule sample_pass_run)
  have "acts_of (wd_trace w') = [Wrote intent, Published ev] @ Sent (call_request sample_call) # [Wrote compl]"
    using acts by simp
  then obtain us vs where "wd_trace w' = us @ Sent (call_request sample_call) # vs" by (rule acts_of_split)
  then show thesis using that run by blast
qed

section \<open>A buffered call\<close>

definition pii_set :: policy_set where
  "pii_set = \<lparr>ps_policies = [sample_policy ''pii'' ''echo'' (PiiRedactionEffect [''ssn''])],
     ps_server_has_allowlist = False\<rparr>"

lemma sample_content_type: "content_type_of sample_up = ''application/json''"
  by (simp add: content_type_of_def header_get_def sample_up_def lower_def lower_char_def)

lemma sample_decoded:
  "decode_mcp_body (ev_json_float sample_env) (encode_mcp_body sample_message ''application/json'')
     ''application/json'' = Inr sample_message"
  by (rule decode_encode_mcp_body) (simp add: sample_message_def)

lemma sample_wf: "wf_json fr sample_message"
  by (simp add: sample_message_def)

lemma sample_stage8:
  obtains body tags where
    "\<And>w. wd_n w = n \<Longrightarrow> \<exists>w'. stage8 sample_env sample_call pii_set
      (encode_mcp_body sample_message ''application/json'') ''application/json'' w = (Inr (body, tags), w')"
proof -
  let ?p = "redact_json_value (JObj [(''note'', JStr ''ssn 123-45-6789'')]) [''ssn'']"
  have "\<exists>w'. stage8 sample_env sample_call pii_set (encode_mcp_body sample_message ''application/json'')
      ''application/json'' w =
    (Inr (encode_mcp_body (JObj [(''id'', JInt 1), (''result'', ?p)]) ''application/json'', []), w')" for w
    unfolding stage8_def sample_decoded
    by (simp add: bind_act_def lift_res_def ret_def sample_message_def dict_get_def run_evaluate_response_def
        evaluate_response_def pii_set_def Let_def)
  then show thesis using that by blast
qed

lemma sample_buffered:
  obtains resp tags w' where
    "forward_buffered sample_env sample_call pii_set (sample_world []) = (Inr (resp, tags), w')"
proof -
  let ?w = "await sample_env (log_effect (Sent (call_request sample_call)) (sample_world []))"
  obtain body tags w' where s: "stage8 sample_env sample_call pii_set
      (encode_mcp_body sample_message ''application/json'') ''application/json'' ?w = (Inr (body, tags), w')"
    by (rule sample_stage8) blast
  have b: "ur_body sample_up = Inr (encode_mcp_body sample_message ''application/json'')"
    by (simp add: sample_up_def)
  have "\<exists>resp. forward_buffered sample_env sample_call pii_set (sample_world []) = (Inr (resp, tags), w')"
    using s by (simp add: forward_buffered_def content_type_of_def [symmetric] sample_content_type bind_act_def
        send_def Let_def sample_send lift_res_def catch_act_def ret_def b)
  then show thesis using that by blast
qed

section \<open>A held call\<close>

definition sample_ticket :: hitl_ticket where
  "sample_ticket = new_ticket ''ticket-1'' ''12.5'' ''hello-echo'' ''echo'' (JObj [(''message'', JStr ''hi'')])
     ''agent-a'' ''session-1'' ''trace-1'' 1 ''compliance'' 30"

definition sample_redis :: mem_redis where
  "sample_redis = snd (create_ticket mem_redis sample_ticket ([], []))"

lemma sample_ticket_simps [simp]:
  "tk_ticket_id sample_ticket = ''ticket-1''" "tk_status sample_ticket = ''PENDING''"
  "tk_timeout_seconds sample_ticket = 30"
  by (simp_all add: sample_ticket_def new_ticket_def)

lemma sample_ticket_ok: "ticket_ok Inr id sample_ticket"
  by (simp add: ticket_ok_def sample_ticket_def new_ticket_def)

lemma sample_ticket_norm [simp]: "ticket_norm sample_ticket = sample_ticket"
  by (simp add: ticket_norm_def sample_ticket_def new_ticket_def or_none_def or_empty_def)

lemma sample_ticket_created: "create_ticket mem_redis sample_ticket ([], []) = (Inr sample_ticket, sample_redis)"
proof -
  obtain r s where c: "create_ticket mem_redis sample_ticket ([], []) = (r, s)"
    by (rule prod.exhaust)
  then have "r = Inr sample_ticket"
    by (simp add: create_ticket_def mem_redis_def Let_def)
  with c show ?thesis by (simp add: sample_redis_def)
qed

lemma sample_ticket_stored: "get_ticket mem_redis Inr id ''ticket-1'' sample_redis = Inr (Some sample_ticket)"
proof -
  have h: "rd_hgetall mem_redis (ticket_key (tk_ticket_id sample_ticket)) ([], []) = Inr []"
    and m: "rd_smembers mem_redis PENDING_SET_KEY ([], []) = Inr []"
    by (simp_all add: mem_redis_def get_or_def)
  from create_then_get(1) [OF mem_redis_laws sample_ticket_ok _ _ h m sample_ticket_created]
  show ?thesis by simp
qed

lemma sample_decided_ok: "ticket_ok Inr id (decided ''13.0'' st who why sample_ticket)"
  using sample_ticket_ok by (simp add: ticket_ok_def decided_def)

lemma sample_decide:
  "decide_ticket mem_redis Inr id now ''ticket-1'' st who why sample_redis =
     (Inr (Some (decided now st who why sample_ticket, True)),
      snd (decide_write mem_redis ''ticket-1'' (decided now st who why sample_ticket) sample_redis))"
proof -
  have w: "fst (decide_write mem_redis i t s) = Inr ()" for i t s
    by (simp add: decide_write_def mem_redis_def)
  obtain d where "rd_hgetall mem_redis (ticket_key ''ticket-1'') sample_redis = Inr d" "d \<noteq> []"
    "from_redis Inr id d = Inr sample_ticket"
    using sample_ticket_stored by (auto simp only: get_ticket_def bind_res_eq_Inr split: if_splits)
  then have r: "decide_read mem_redis Inr id now ''ticket-1'' st who why sample_redis =
      Inr (Decide (decided now st who why sample_ticket))"
    by (simp only: decide_read_def bind_res_simps if_False sample_ticket_simps decided_def not_not refl if_True HOL.simp_thms)
  from w [of "''ticket-1''" "decided now st who why sample_ticket" sample_redis] r show ?thesis
    unfolding decide_ticket_def by (cases "decide_write mem_redis ''ticket-1'' (decided now st who why sample_ticket) sample_redis") simp
qed

end
