(* ===== verification/SampleControl.thy ===== *)
theory SampleControl
  imports ControlPlaneProps ControlPlaneScores SampleCalls
begin

text \<open>A control plane over an in-memory Redis, a fixed audit table and a fixed language model.\<close>

definition sample_denied :: audit_entry where
  "sample_denied = sample_row\<lparr>ae_status := ''DENIED''\<rparr>"

definition sample_cp_env :: "exn option \<Rightarrow> mem_redis cp_env" where
  "sample_cp_env fault =
     \<lparr>ce_redis = mem_redis, ce_rows = (\<lambda>n. [sample_denied, sample_denied, sample_denied]),
      ce_db = (\<lambda>n. fault), ce_utcnow = (\<lambda>n. sample_time), ce_time = (\<lambda>n. ''0.0''),
      ce_uuid = (\<lambda>n. show_nat n), ce_str = (\<lambda>x. ''0.6''),
      ce_describe = (\<lambda>n flag. Inr ''spike''),
      ce_compose = (\<lambda>n st se. Inr \<lparr>hn_narrative = ''held'', hn_recommended_action = ''escalate'', hn_confidence = 0\<rparr>),
      ce_narrate = (\<lambda>n st rule. Inl (Exn LLMErr ''unavailable''))\<rparr>"

definition sample_event :: "string \<Rightarrow> string option \<Rightarrow> decision_event" where
  "sample_event outcome ticket =
     \<lparr>de_audit_id = 7, de_trace_id = ''trace-1'', de_agent_id = ae_agent_id sample_row,
      de_session_id = ''session-1'', de_server = ''hello-echo'', de_tool = ''echo'', de_args_hash = ''00'',
      de_policies_fired = [],
      de_decision = \<lparr>cd_outcome = outcome, cd_fired_policy = None, cd_reason = None\<rparr>,
      de_hitl_ticket_id = ticket, de_timestamp = sample_time\<rparr>"

definition sample_cp_world :: "mem_redis cp_world" where
  "sample_cp_world = \<lparr>cw_redis = ([], []), cw_snapshots = [], cw_anomalies = [], cw_incidents = [],
     cw_errors = [], cw_visits = [], cw_n = 0\<rparr>"

lemma sample_event_simps [simp]:
  "de_decision (sample_event oc k) = \<lparr>cd_outcome = oc, cd_fired_policy = None, cd_reason = None\<rparr>"
  "de_hitl_ticket_id (sample_event oc k) = k" "de_audit_id (sample_event oc k) = 7"
  "de_trace_id (sample_event oc k) = ''trace-1''"
  by (simp_all add: sample_event_def)

lemma sample_three_denials:
  "count_where (recent_denial (de_agent_id (sample_event oc k)) (de_timestamp (sample_event oc k)))
     (ce_rows (sample_cp_env fault) n) \<ge> 3"
proof -
  have "ae_timestamp sample_row = sample_time"
    by (simp add: sample_row_def sealed_entry_def Let_def entry_of_args_def)
  then have "recent_denial (ae_agent_id sample_row) sample_time sample_denied"
    by (simp add: recent_denial_def sample_denied_def minutes_delta_def)
  then show ?thesis by (simp add: sample_cp_env_def sample_event_def count_where_def)
qed

text \<open>With the database down every run of the graph fails at its first query.\<close>

lemma sample_cp_down:
  "\<exists>e w'. run_graph (sample_cp_env (Some (Exn DbErr ''down''))) ev sample_cp_world = (Inl e, w')"
proof (cases "cd_outcome (de_decision ev) = ''DENY''")
  case True
  then show ?thesis
    by (simp add: run_graph_deny visit_def incident_escalator_node_def compute_incident_signals_def
        cbind_def query_def ctick_def sample_cp_env_def)
next
  case False
  then show ?thesis
    by (simp add: run_graph_other visit_def policy_evaluator_node_def compute_context_features_def
        cbind_def query_def ctick_def sample_cp_env_def Let_def)
qed

text \<open>The event the gateway publishes for the sample call.\<close>

lemma sample_pass_event:
  obtains ev v' where "handle_tool_call sample_env sample_call (sample_world []) =
      (Inr (Replied (streamed sample_up)), v')"
    "wd_trace v' = wd_trace (sample_world []) @ wd_trace v'" "Published ev \<in> set (wd_trace v')"
proof -
  obtain intent ev compl v' where run: "handle_tool_call sample_env sample_call (sample_world []) =
      (Inr (Replied (streamed sample_up)), v')"
    and acts: "acts_of (wd_trace v') = [Wrote intent, Published ev, Sent (call_request sample_call), Wrote compl]"
    by (rule sample_pass_run)
  from acts have "acts_of (wd_trace v') = [Wrote intent] @ Published ev # [Sent (call_request sample_call), Wrote compl]"
    by simp
  then have "Published ev \<in> set (wd_trace v')" by (rule acts_of_split) simp
  with run show thesis using that by simp
qed

end
