(* ===== verification/TransactionGraph.thy ===== *)
theory TransactionGraph
  imports Complex_Main PyText TimeArith
begin

text \<open>
  The transaction-graph MCP server (\<open>src/mcp-servers/transaction-graph/src\<close>): the queries of
  \<open>store.py\<close> and the tools of \<open>server.py\<close>. The two views are lists of rows without NULLs, amounts are
  rational numbers, timestamps are instants. What DuckDB does not promise is a parameter of the
  store: the order in which a \<open>GROUP BY\<close> returns its groups. So is how Python prints an amount. Dates and windows so large
  that the database's interval arithmetic overflows are left out.
\<close>

section \<open>Records\<close>

record txn_row =
  tr_timestamp :: int
  tr_from_id :: string
  tr_to_id :: string
  tr_amount_received :: rat
  tr_receiving_currency :: string
  tr_amount_paid :: rat
  tr_payment_currency :: string
  tr_payment_format :: string
  tr_is_laundering :: int

record account_row =
  ac_account_id :: string
  ac_bank_id :: string
  ac_account_number :: string
  ac_entity_id :: string
  ac_entity_name :: string
  ac_bank_name :: string

record transaction =
  tx_timestamp :: int
  tx_from_account :: string
  tx_to_account :: string
  tx_amount_received :: rat
  tx_receiving_currency :: string
  tx_amount_paid :: rat
  tx_payment_currency :: string
  tx_payment_format :: string
  tx_is_laundering :: bool

record account_record =
  acr_account_id :: string
  acr_bank_id :: string
  acr_account_number :: string
  acr_entity_id :: string
  acr_entity_name :: string
  acr_bank_name :: string
  acr_total_transactions :: nat
  acr_total_sent :: rat
  acr_total_received :: rat
  acr_distinct_counterparties :: nat
  acr_first_activity :: "int option"
  acr_last_activity :: "int option"

record account_link =
  al_account_id :: string
  al_hop :: nat
  al_total_amount :: rat
  al_transaction_count :: nat

record graph_edge =
  ge_from_account :: string
  ge_to_account :: string
  ge_total_amount :: rat
  ge_transaction_count :: nat

record graph_response =
  gr_nodes :: "string list"
  gr_edges :: "graph_edge list"
  gr_truncated :: bool

record structuring_signal =
  ss_account_id :: string
  ss_window_days :: int
  ss_threshold_amount :: rat
  ss_deposit_count :: nat
  ss_total_deposits :: rat
  ss_flagged :: bool
  ss_rationale :: string

record write_result =
  wr_account_id :: string
  wr_disposition :: string
  wr_rationale :: string
  wr_recorded_at :: int

text \<open>The store, with the rows of its one table and its external behaviour.\<close>

record graph_store =
  gs_transactions :: "txn_row list"
  gs_accounts :: "account_row list"
  gs_investigated :: "(string, string \<times> string \<times> int) dict"
  gs_small_deposit_threshold :: rat
  gs_min_structuring_deposits :: int
  gs_max_hops :: int
  gs_group_order :: "string list \<Rightarrow> string list"
  gs_edge_order :: "(string \<times> string) list \<Rightarrow> (string \<times> string) list"
  gs_format :: "nat \<Rightarrow> rat \<Rightarrow> string"

definition build_store :: "txn_row list \<Rightarrow> account_row list \<Rightarrow> rat \<Rightarrow> int \<Rightarrow> int \<Rightarrow>
    (string list \<Rightarrow> string list) \<Rightarrow> ((string \<times> string) list \<Rightarrow> (string \<times> string) list) \<Rightarrow>
    (nat \<Rightarrow> rat \<Rightarrow> string) \<Rightarrow> graph_store" where
  "build_store transactions accounts threshold min_deposits max_hops group_order edge_order fmt =
     \<lparr>gs_transactions = transactions, gs_accounts = accounts, gs_investigated = [],
      gs_small_deposit_threshold = threshold, gs_min_structuring_deposits = min_deposits,
      gs_max_hops = max_hops, gs_group_order = group_order, gs_edge_order = edge_order,
      gs_format = fmt\<rparr>"

definition row_counts :: "graph_store \<Rightarrow> nat \<times> nat" where
  "row_counts s = (length (gs_transactions s), length (gs_accounts s))"

section \<open>Queries\<close>

text \<open>A date is its ordinal; compared with a timestamp it stands for its midnight. The last date is
  the thirty-first of December 9999.\<close>

definition MAX_ORDINAL :: int where "MAX_ORDINAL = 3652059"

definition touches :: "string \<Rightarrow> txn_row \<Rightarrow> bool" where
  "touches a t \<longleftrightarrow> tr_from_id t = a \<or> tr_to_id t = a"

definition transaction_of :: "txn_row \<Rightarrow> transaction" where
  "transaction_of r =
     \<lparr>tx_timestamp = tr_timestamp r, tx_from_account = tr_from_id r, tx_to_account = tr_to_id r,
      tx_amount_received = tr_amount_received r, tx_receiving_currency = tr_receiving_currency r,
      tx_amount_paid = tr_amount_paid r, tx_payment_currency = tr_payment_currency r,
      tx_payment_format = tr_payment_format r, tx_is_laundering = (tr_is_laundering r \<noteq> 0)\<rparr>"

definition query_transactions :: "graph_store \<Rightarrow> string \<Rightarrow> int \<Rightarrow> int \<Rightarrow> transaction list res" where
  "query_transactions s account_id from_date to_date =
     (if to_date + 1 > MAX_ORDINAL then Inl (Exn OverflowErr ''date value out of range'')
      else Inr (map transaction_of (sort_key tr_timestamp
             (filter (\<lambda>t. touches account_id t \<and> tr_timestamp t \<ge> days_delta from_date \<and>
                tr_timestamp t < days_delta (to_date + 1)) (gs_transactions s)))))"

definition get_account :: "graph_store \<Rightarrow> string \<Rightarrow> account_record option" where
  "get_account s account_id =
     (case filter (\<lambda>a. ac_account_id a = account_id) (gs_accounts s) of
        [] \<Rightarrow> None
      | m # _ \<Rightarrow>
          (let ts = filter (touches account_id) (gs_transactions s) in
           Some \<lparr>acr_account_id = account_id, acr_bank_id = ac_bank_id m,
             acr_account_number = ac_account_number m, acr_entity_id = ac_entity_id m,
             acr_entity_name = ac_entity_name m, acr_bank_name = ac_bank_name m,
             acr_total_transactions = length ts,
             acr_total_sent = sum_list (map (\<lambda>t. if tr_from_id t = account_id then tr_amount_paid t else 0) ts),
             acr_total_received =
               sum_list (map (\<lambda>t. if tr_to_id t = account_id then tr_amount_received t else 0) ts),
             acr_distinct_counterparties =
               length (remdups (map (\<lambda>t. if tr_from_id t = account_id then tr_to_id t else tr_from_id t) ts)),
             acr_first_activity = (if ts = [] then None else Some (Min (set (map tr_timestamp ts)))),
             acr_last_activity = (if ts = [] then None else Some (Max (set (map tr_timestamp ts))))\<rparr>))"

section \<open>Neighbours\<close>

text \<open>The columns of the grouped query, over a frontier.\<close>

definition neighbor_of :: "string list \<Rightarrow> txn_row \<Rightarrow> string" where
  "neighbor_of frontier t = (if tr_from_id t \<in> set frontier then tr_to_id t else tr_from_id t)"

definition amount_of :: "string list \<Rightarrow> txn_row \<Rightarrow> rat" where
  "amount_of frontier t =
     (if tr_from_id t \<in> set frontier then tr_amount_paid t else tr_amount_received t)"

definition large :: "rat \<Rightarrow> txn_row \<Rightarrow> bool" where
  "large min_amount t \<longleftrightarrow> max (tr_amount_paid t) (tr_amount_received t) \<ge> min_amount"

definition neighbor_rows ::
    "graph_store \<Rightarrow> string list \<Rightarrow> rat \<Rightarrow> (string \<times> rat \<times> nat) list" where
  "neighbor_rows s frontier min_amount =
     (let ts = filter (\<lambda>t. (tr_from_id t \<in> set frontier \<or> tr_to_id t \<in> set frontier) \<and>
                 large min_amount t) (gs_transactions s)
      in map (\<lambda>n. let us = filter (\<lambda>t. neighbor_of frontier t = n) ts
                   in (n, sum_list (map (amount_of frontier) us), length us))
           (gs_group_order s (remdups (map (neighbor_of frontier) ts))))"

text \<open>The rows of one hop: new accounts are linked and make the next frontier.\<close>

fun take_rows :: "string list \<Rightarrow> nat \<Rightarrow> (string \<times> rat \<times> nat) list \<Rightarrow>
    string list \<times> (string, account_link) dict \<Rightarrow> string list \<times> (string, account_link) dict" where
  "take_rows visited hop [] acc = acc"
| "take_rows visited hop ((n, total_amount, txn_count) # rows) (next_frontier, found) =
     take_rows visited hop rows
       (if n \<in> set visited then (next_frontier, found)
        else (next_frontier @ (if n \<in> set next_frontier then [] else [n]),
              dict_set n \<lparr>al_account_id = n, al_hop = hop, al_total_amount = total_amount,
                          al_transaction_count = txn_count\<rparr> found))"

fun neighbors_loop :: "graph_store \<Rightarrow> rat \<Rightarrow> nat list \<Rightarrow> string list \<Rightarrow> string list \<Rightarrow>
    (string, account_link) dict \<Rightarrow> (string, account_link) dict" where
  "neighbors_loop s min_amount [] visited frontier found = found"
| "neighbors_loop s min_amount (hop # hops) visited frontier found =
     (case take_rows visited hop (neighbor_rows s frontier min_amount) ([], found) of
        (next_frontier, found') \<Rightarrow>
          if next_frontier = [] then found'
          else neighbors_loop s min_amount hops (visited @ next_frontier) next_frontier found')"

definition clamp_hops :: "graph_store \<Rightarrow> int \<Rightarrow> nat" where
  "clamp_hops s hops = nat (max 1 (min hops (gs_max_hops s)))"

definition neighbors :: "graph_store \<Rightarrow> string \<Rightarrow> int \<Rightarrow> rat \<Rightarrow> account_link list" where
  "neighbors s account_id hops min_amount =
     map snd (neighbors_loop s min_amount [1..<Suc (clamp_hops s hops)] [account_id] [account_id] [])"

section \<open>Subgraphs\<close>

text \<open>A negative limit is refused by the database.\<close>

definition subgraph :: "graph_store \<Rightarrow> string list \<Rightarrow> int \<Rightarrow> graph_response res" where
  "subgraph s account_ids max_edges =
     (if account_ids = [] then Inr \<lparr>gr_nodes = [], gr_edges = [], gr_truncated = False\<rparr>
      else if max_edges + 1 < 0 then Inl (Exn DbErr ''LIMIT'')
      else
        (let ts = filter (\<lambda>t. tr_from_id t \<in> set account_ids \<and> tr_to_id t \<in> set account_ids)
                    (gs_transactions s);
             groups = map (\<lambda>(a, b). let us = filter (\<lambda>t. tr_from_id t = a \<and> tr_to_id t = b) ts
                        in \<lparr>ge_from_account = a, ge_to_account = b,
                            ge_total_amount = sum_list (map tr_amount_paid us),
                            ge_transaction_count = length us\<rparr>)
                      (gs_edge_order s (remdups (map (\<lambda>t. (tr_from_id t, tr_to_id t)) ts)));
             rows = take (nat (max_edges + 1)) (sort_key (\<lambda>e. - ge_total_amount e) groups)
         in Inr \<lparr>gr_nodes = account_ids,
                 gr_edges = (if max_edges < 0 then take (length rows - nat (- max_edges)) rows
                             else take (nat max_edges) rows),
                 gr_truncated = (int (length rows) > max_edges)\<rparr>))"

section \<open>Structuring\<close>

definition in_window :: "graph_store \<Rightarrow> string \<Rightarrow> int \<Rightarrow> int \<Rightarrow> txn_row \<Rightarrow> bool" where
  "in_window s account_id window_days max_ts t \<longleftrightarrow>
     tr_to_id t = account_id \<and> tr_amount_received t < gs_small_deposit_threshold s \<and>
     tr_timestamp t > max_ts - days_delta window_days \<and> tr_timestamp t \<le> max_ts"

definition structuring_rationale :: "graph_store \<Rightarrow> bool \<Rightarrow> nat \<Rightarrow> rat \<Rightarrow> int \<Rightarrow> string" where
  "structuring_rationale s flagged n amount window_days =
     (if flagged then show_nat n @ '' deposits under '' @
        gs_format s 0 (gs_small_deposit_threshold s) @ '' totaling '' @ gs_format s 2 amount @
        '' within the trailing '' @ show_int window_days @ '' days -- classic structuring signature''
      else show_nat n @ '' sub-threshold deposits totaling '' @ gs_format s 2 amount @
        '' within the trailing '' @ show_int window_days @ '' days -- below the '' @
        show_int (gs_min_structuring_deposits s) @ ''-deposit / '' @
        gs_format s 0 (gs_small_deposit_threshold s) @ '' alert bar'')"

definition structuring_check :: "graph_store \<Rightarrow> string \<Rightarrow> int \<Rightarrow> structuring_signal" where
  "structuring_check s account_id window_days =
     (let threshold = gs_small_deposit_threshold s;
          deposits = filter (\<lambda>t. tr_to_id t = account_id) (gs_transactions s)
      in if deposits = [] then
           \<lparr>ss_account_id = account_id, ss_window_days = window_days, ss_threshold_amount = threshold,
            ss_deposit_count = 0, ss_total_deposits = 0, ss_flagged = False,
            ss_rationale = ''no deposits found for this account''\<rparr>
         else
           (let max_ts = Max (set (map tr_timestamp deposits));
                small = filter (in_window s account_id window_days max_ts) (gs_transactions s);
                n = length small;
                amount = sum_list (map tr_amount_received small);
                flagged = (int n \<ge> gs_min_structuring_deposits s \<and> amount \<ge> threshold)
            in \<lparr>ss_account_id = account_id, ss_window_days = window_days,
                ss_threshold_amount = threshold, ss_deposit_count = n, ss_total_deposits = amount,
                ss_flagged = flagged,
                ss_rationale = structuring_rationale s flagged n amount window_days\<rparr>))"

section \<open>The write\<close>

definition VALID_DISPOSITIONS :: "string list" where
  "VALID_DISPOSITIONS = [''cleared'', ''escalate'', ''monitor'']"

definition mark_investigated ::
    "int \<Rightarrow> graph_store \<Rightarrow> string \<Rightarrow> string \<Rightarrow> string \<Rightarrow> write_result \<times> graph_store" where
  "mark_investigated now s account_id disposition rationale =
     (\<lparr>wr_account_id = account_id, wr_disposition = disposition, wr_rationale = rationale,
       wr_recorded_at = now\<rparr>,
      s\<lparr>gs_investigated := dict_set account_id (disposition, rationale, now) (gs_investigated s)\<rparr>)"

section \<open>The tools\<close>

definition get_account_tool :: "graph_store \<Rightarrow> string \<Rightarrow> account_record res" where
  "get_account_tool s account_id =
     (case get_account s account_id of
        None \<Rightarrow> Inl (Exn ValueErr (''no account with account_id='' @ py_repr account_id))
      | Some r \<Rightarrow> Inr r)"

definition mark_investigated_tool ::
    "int \<Rightarrow> graph_store \<Rightarrow> string \<Rightarrow> string \<Rightarrow> string \<Rightarrow> write_result res \<times> graph_store" where
  "mark_investigated_tool now s account_id disposition rationale =
     (if disposition \<notin> set VALID_DISPOSITIONS
      then (Inl (Exn ValueErr (''disposition must be one of '' @ py_repr_list VALID_DISPOSITIONS @
              '', got '' @ py_repr disposition)), s)
      else (case mark_investigated now s account_id disposition rationale of
              (r, s') \<Rightarrow> (Inr r, s')))"

end
