(* ===== verification/TransactionGraphProps.thy ===== *)
theory TransactionGraphProps
  imports TransactionGraph "HOL-Library.Multiset"
begin

text \<open>
  The breadth-first search of \<open>neighbors\<close> finds exactly the accounts within the hop limit, each at its
  distance; what the other queries and the one write give back.
\<close>

section \<open>Distances\<close>

text \<open>The accounts at distance \<open>k\<close> from \<open>a\<close> in a relation.\<close>

definition level :: "('a \<times> 'a) set \<Rightarrow> 'a \<Rightarrow> nat \<Rightarrow> 'a set" where
  "level R a k = {b. (a, b) \<in> R ^^ k \<and> (\<forall>j < k. (a, b) \<notin> R ^^ j)}"

definition ball :: "('a \<times> 'a) set \<Rightarrow> 'a \<Rightarrow> nat \<Rightarrow> 'a set" where
  "ball R a k = {b. \<exists>j < k. (a, b) \<in> R ^^ j}"

lemma level_0 [simp]: "level R a 0 = {a}"
  by (auto simp: level_def)

lemma ball_0 [simp]: "ball R a 0 = {}"
  by (simp add: ball_def)

lemma ball_Suc: "ball R a (Suc k) = ball R a k \<union> level R a k"
  by (auto simp: ball_def level_def less_Suc_eq)

lemma ball_levels: "ball R a k = (\<Union>j < k. level R a j)"
  by (induction k) (auto simp: ball_Suc lessThan_Suc)

lemma level_disjoint: "b \<in> level R a j \<Longrightarrow> b \<in> level R a k \<Longrightarrow> j = k"
  unfolding level_def by (metis (mono_tags, lifting) linorder_neqE_nat mem_Collect_eq)

lemma level_Suc: "level R a (Suc k) = R `` level R a k - ball R a (Suc k)"
proof (intro set_eqI iffI)
  fix b assume b: "b \<in> level R a (Suc k)"
  then obtain c where c: "(a, c) \<in> R ^^ k" "(c, b) \<in> R" unfolding level_def by auto
  have "(a, c) \<notin> R ^^ j" if "j < k" for j
  proof
    assume "(a, c) \<in> R ^^ j"
    with c have "(a, b) \<in> R ^^ Suc j" by auto
    moreover have "Suc j < Suc k" using that by simp
    ultimately show False using b unfolding level_def by blast
  qed
  with c b show "b \<in> R `` level R a k - ball R a (Suc k)" unfolding level_def ball_def by blast
next
  fix b assume "b \<in> R `` level R a k - ball R a (Suc k)"
  then show "b \<in> level R a (Suc k)" by (auto simp: level_def ball_def)
qed

lemma level_empty_later:
  assumes "level R a k = {}" and "k \<le> j" shows "level R a j = {}"
  using assms(2)
proof (induction j rule: dec_induct)
  case base then show ?case by (rule assms(1))
next
  case (step j) then show ?case by (simp add: level_Suc)
qed

section \<open>One hop\<close>

definition orders_ok :: "graph_store \<Rightarrow> bool" where
  "orders_ok s \<longleftrightarrow> (\<forall>xs. mset (gs_group_order s xs) = mset xs) \<and> (\<forall>xs. mset (gs_edge_order s xs) = mset xs)"

definition link_rel :: "graph_store \<Rightarrow> rat \<Rightarrow> (string \<times> string) set" where
  "link_rel s m = {(a, b). \<exists>t \<in> set (gs_transactions s). large m t \<and>
     (tr_from_id t = a \<and> tr_to_id t = b \<or> tr_from_id t = b \<and> tr_to_id t = a)}"

text \<open>A row between the frontier and an account outside it.\<close>

definition joins :: "string set \<Rightarrow> string \<Rightarrow> txn_row \<Rightarrow> bool" where
  "joins F b t \<longleftrightarrow> tr_from_id t \<in> F \<and> tr_to_id t = b \<or> tr_to_id t \<in> F \<and> tr_from_id t = b"

definition link_totals :: "graph_store \<Rightarrow> rat \<Rightarrow> string set \<Rightarrow> string \<Rightarrow> rat \<times> nat" where
  "link_totals s m F b = (let ts = filter (\<lambda>t. large m t \<and> joins F b t) (gs_transactions s)
     in (sum_list (map (\<lambda>t. if tr_to_id t = b then tr_amount_paid t else tr_amount_received t) ts),
         length ts))"

lemma neighbor_rows_keys:
  assumes "orders_ok s"
  shows "distinct (map fst (neighbor_rows s F m))"
    and "set F \<subseteq> V \<Longrightarrow> set (map fst (neighbor_rows s F m)) - V = link_rel s m `` set F - V"
proof -
  let ?ts = "filter (\<lambda>t. (tr_from_id t \<in> set F \<or> tr_to_id t \<in> set F) \<and> large m t) (gs_transactions s)"
  let ?ks = "remdups (map (neighbor_of F) ?ts)"
  have keys: "map fst (neighbor_rows s F m) = gs_group_order s ?ks"
    by (simp add: neighbor_rows_def Let_def comp_def)
  have m: "mset (gs_group_order s ?ks) = mset ?ks" using assms by (simp add: orders_ok_def)
  then show "distinct (map fst (neighbor_rows s F m))"
    unfolding keys by (simp only: mset_eq_imp_distinct_iff [OF m] distinct_remdups)
  have "set (gs_group_order s ?ks) = neighbor_of F ` set ?ts"
    using mset_eq_setD [OF m] by simp
  then have k: "set (map fst (neighbor_rows s F m)) = neighbor_of F ` set ?ts" unfolding keys .
  show "set (map fst (neighbor_rows s F m)) - V = link_rel s m `` set F - V" if "set F \<subseteq> V"
    unfolding k
  proof (intro set_eqI iffI)
    fix b assume "b \<in> neighbor_of F ` set ?ts - V"
    then obtain t where t: "t \<in> set ?ts" "b = neighbor_of F t" "b \<notin> V" by blast
    then show "b \<in> link_rel s m `` set F - V"
      by (cases "tr_from_id t \<in> set F") (auto simp: neighbor_of_def link_rel_def)
  next
    fix b assume "b \<in> link_rel s m `` set F - V"
    then obtain c t where t: "c \<in> set F" "t \<in> set (gs_transactions s)" "large m t" "b \<notin> V"
      "tr_from_id t = c \<and> tr_to_id t = b \<or> tr_from_id t = b \<and> tr_to_id t = c"
      by (auto simp: link_rel_def)
    with that have "t \<in> set ?ts" "neighbor_of F t = b" by (auto simp: neighbor_of_def)
    with t(4) show "b \<in> neighbor_of F ` set ?ts - V" by blast
  qed
qed

lemma neighbor_rows_totals:
  assumes "(b, amt, n) \<in> set (neighbor_rows s F m)" and "b \<notin> set F"
  shows "(amt, n) = link_totals s m (set F) b"
proof -
  let ?P = "\<lambda>t. (tr_from_id t \<in> set F \<or> tr_to_id t \<in> set F) \<and> large m t"
  let ?us = "filter (\<lambda>t. neighbor_of F t = b) (filter ?P (gs_transactions s))"
  have "?P t \<and> neighbor_of F t = b \<longleftrightarrow> large m t \<and> joins (set F) b t" for t
    using assms(2) by (auto simp: neighbor_of_def joins_def)
  then have f: "?us = filter (\<lambda>t. large m t \<and> joins (set F) b t) (gs_transactions s)"
    unfolding filter_filter by (intro filter_cong refl)
  have a: "amount_of F t = (if tr_to_id t = b then tr_amount_paid t else tr_amount_received t)"
    if "joins (set F) b t" for t
    using that assms(2) by (auto simp: amount_of_def joins_def)
  have "(amt, n) = (sum_list (map (amount_of F) ?us), length ?us)"
    using assms(1) by (auto simp: neighbor_rows_def Let_def)
  also have "map (amount_of F) ?us = map (\<lambda>t. if tr_to_id t = b then tr_amount_paid t else tr_amount_received t) ?us"
    unfolding f by (intro map_cong refl a) simp
  finally show ?thesis unfolding f link_totals_def Let_def .
qed

definition new_link :: "nat \<Rightarrow> string \<times> rat \<times> nat \<Rightarrow> string \<times> account_link" where
  "new_link hop r = (case r of (n, amt, k) \<Rightarrow>
     (n, \<lparr>al_account_id = n, al_hop = hop, al_total_amount = amt, al_transaction_count = k\<rparr>))"

lemma take_rows_eq:
  assumes "distinct (map fst rows)" and "fst ` set rows \<inter> set nf = {}"
    and "fst ` set rows \<inter> fst ` set found \<subseteq> set V"
  shows "take_rows V hop rows (nf, found) =
    (nf @ filter (\<lambda>n. n \<notin> set V) (map fst rows),
     found @ map (new_link hop) (filter (\<lambda>r. fst r \<notin> set V) rows))"
  using assms
proof (induction rows arbitrary: nf found)
  case (Cons r rows)
  obtain n amt k where r: "r = (n, amt, k)" by (cases r)
  show ?case
  proof (cases "n \<in> set V")
    case True
    with Cons r show ?thesis by (auto simp: Int_Un_distrib)
  next
    case False
    with Cons.prems r have n: "n \<notin> set nf" "n \<notin> fst ` set found" by auto
    have "take_rows V hop rows (nf @ [n], found @ [new_link hop r]) =
        ((nf @ [n]) @ filter (\<lambda>n. n \<notin> set V) (map fst rows),
         (found @ [new_link hop r]) @ map (new_link hop) (filter (\<lambda>r. fst r \<notin> set V) rows))"
      using Cons.prems by (intro Cons.IH) (auto simp: r new_link_def)
    with False n r show ?thesis by (simp add: dict_set_fresh new_link_def)
  qed
qed simp

section \<open>The search\<close>

definition link_of :: "graph_store \<Rightarrow> rat \<Rightarrow> string \<Rightarrow> string \<times> account_link \<Rightarrow> bool" where
  "link_of s m a x \<longleftrightarrow> fst x = al_account_id (snd x) \<and> 0 < al_hop (snd x) \<and>
     al_account_id (snd x) \<in> level (link_rel s m) a (al_hop (snd x)) \<and>
     (al_total_amount (snd x), al_transaction_count (snd x)) =
       link_totals s m (level (link_rel s m) a (al_hop (snd x) - 1)) (al_account_id (snd x))"

lemma take_rows_hop:
  assumes s: "orders_ok s"
    and V: "set V = ball (link_rel s m) a (Suc k)" and F: "set F = level (link_rel s m) a k"
    and found: "fst ` set found \<subseteq> set V"
  obtains nf new where "take_rows V (Suc k) (neighbor_rows s F m) ([], found) = (nf, found @ new)"
    "set nf = level (link_rel s m) a (Suc k)" "nf = map fst new" "distinct nf"
    "\<forall>x \<in> set new. link_of s m a x \<and> al_hop (snd x) = Suc k"
proof -
  let ?R = "link_rel s m" and ?rows = "neighbor_rows s F m"
  let ?new = "filter (\<lambda>r. fst r \<notin> set V) ?rows"
  have FV: "set F \<subseteq> set V" unfolding F V by (auto simp: ball_Suc)
  have keys: "set (map fst ?rows) - set V = ?R `` set F - set V" by (rule neighbor_rows_keys(2) [OF s FV])
  have eq: "take_rows V (Suc k) ?rows ([], found) =
      (filter (\<lambda>n. n \<notin> set V) (map fst ?rows), found @ map (new_link (Suc k)) ?new)"
    using take_rows_eq [OF neighbor_rows_keys(1) [OF s, of F m], of "[]" found V "Suc k"] found by auto
  have nf: "filter (\<lambda>n. n \<notin> set V) (map fst ?rows) = map fst (map (new_link (Suc k)) ?new)"
    by (simp add: filter_map comp_def new_link_def case_prod_beta)
  have lvl: "set (filter (\<lambda>n. n \<notin> set V) (map fst ?rows)) = level ?R a (Suc k)"
    unfolding level_Suc F [symmetric] V [symmetric] keys [symmetric] by auto
  have ok: "link_of s m a x \<and> al_hop (snd x) = Suc k" if "x \<in> set (map (new_link (Suc k)) ?new)" for x
  proof -
    from that obtain b amt c where r: "(b, amt, c) \<in> set ?rows" "b \<notin> set V" "x = new_link (Suc k) (b, amt, c)"
      by auto
    have "b \<in> level ?R a (Suc k)" using r(1,2) lvl by force
    moreover have "link_totals s m (level ?R a k) b = (amt, c)"
      using neighbor_rows_totals [OF r(1)] r(2) FV F by auto
    ultimately show ?thesis unfolding r(3) new_link_def link_of_def by simp
  qed
  show thesis
  proof (rule that [OF eq lvl nf])
    show "distinct (filter (\<lambda>n. n \<notin> set V) (map fst ?rows))"
      using neighbor_rows_keys(1) [OF s] by (rule distinct_filter)
  qed (use ok in blast)
qed

definition search_result :: "graph_store \<Rightarrow> rat \<Rightarrow> string \<Rightarrow> nat \<Rightarrow> nat \<Rightarrow>
    (string, account_link) dict \<Rightarrow> (string, account_link) dict \<Rightarrow> bool" where
  "search_result s m a lo h found res \<longleftrightarrow>
     distinct (map fst res) \<and> (\<forall>x \<in> set res. link_of s m a x) \<and>
     (\<lambda>x. (fst x, al_hop (snd x))) ` set res = (\<lambda>x. (fst x, al_hop (snd x))) ` set found \<union>
       {(b, j). lo \<le> j \<and> j \<le> h \<and> b \<in> level (link_rel s m) a j}"

lemma neighbors_loop_links:
  assumes "orders_ok s"
    and "set V = ball (link_rel s m) a (Suc k)" and "set F = level (link_rel s m) a k"
    and "distinct (map fst found)" and "fst ` set found \<subseteq> set V"
    and "\<forall>x \<in> set found. link_of s m a x"
  shows "search_result s m a (Suc k) h found (neighbors_loop s m [Suc k..<Suc h] V F found)"
  using assms(2-6)
proof (induction "h - k" arbitrary: k V F found)
  case 0
  then have "[Suc k..<Suc h] = []" by simp
  with 0 show ?case by (auto simp: search_result_def)
next
  case (Suc d)
  let ?R = "link_rel s m"
  obtain nf new where t: "take_rows V (Suc k) (neighbor_rows s F m) ([], found) = (nf, found @ new)"
    and nf: "set nf = level ?R a (Suc k)" "nf = map fst new" "distinct nf"
    and new: "\<forall>x \<in> set new. link_of s m a x \<and> al_hop (snd x) = Suc k"
    using take_rows_hop [OF assms(1) Suc.prems(1,2,4)] by blast
  have upt: "[Suc k..<Suc h] = Suc k # [Suc (Suc k)..<Suc h]" using Suc.hyps(2) by (simp add: upt_conv_Cons del: upt_Suc)
  have pairs: "(\<lambda>x. (fst x, al_hop (snd x))) ` set new = {(b, j). j = Suc k \<and> b \<in> level ?R a j}"
  proof -
    have "(\<lambda>x. (fst x, al_hop (snd x))) ` set new = (\<lambda>b. (b, Suc k)) ` fst ` set new"
      using new by (auto simp: image_iff)
    also have "fst ` set new = level ?R a (Suc k)" using nf by force
    finally show ?thesis by auto
  qed
  have dist: "distinct (map fst (found @ new))"
  proof -
    have "set nf \<inter> set V = {}" unfolding nf(1) Suc.prems(1) level_Suc by blast
    with Suc.prems(3,4) nf(2,3) show ?thesis by auto
  qed
  show ?case
  proof (cases "nf = []")
    case True
    have "level ?R a j = {}" if "Suc k \<le> j" for j
      using level_empty_later [OF _ that] nf(1) True by force
    with True t upt nf(2) Suc.prems(3,5) show ?thesis by (auto simp: search_result_def)
  next
    case False
    have "set (V @ nf) = ball ?R a (Suc (Suc k))" using Suc.prems(1) nf(1) by (simp add: ball_Suc)
    moreover have "fst ` set (found @ new) \<subseteq> set (V @ nf)" using Suc.prems(4) nf(2) by auto
    moreover have "\<forall>x \<in> set (found @ new). link_of s m a x" using Suc.prems(5) new by auto
    ultimately have ih: "search_result s m a (Suc (Suc k)) h (found @ new)
        (neighbors_loop s m [Suc (Suc k)..<Suc h] (V @ nf) nf (found @ new))"
      using Suc.hyps(2) by (intro Suc.hyps(1) nf(1) dist) auto
    have split: "{(b, j). Suc k \<le> j \<and> j \<le> h \<and> b \<in> level ?R a j} = {(b, j). j = Suc k \<and> b \<in> level ?R a j} \<union>
        {(b, j). Suc (Suc k) \<le> j \<and> j \<le> h \<and> b \<in> level ?R a j}"
      using Suc.hyps(2) by (auto simp: le_Suc_eq)
    have step: "neighbors_loop s m [Suc k..<Suc h] V F found =
        neighbors_loop s m [Suc (Suc k)..<Suc h] (V @ nf) nf (found @ new)"
      unfolding upt using t False by simp
    show ?thesis using ih unfolding step search_result_def split by (simp add: image_Un Un_assoc pairs)
  qed
qed

lemma neighbors_links:
  assumes "orders_ok s"
  shows "distinct (map al_account_id (neighbors s a h m))"
    and "(\<lambda>l. (al_account_id l, al_hop l)) ` set (neighbors s a h m) =
      {(b, j). 1 \<le> j \<and> j \<le> clamp_hops s h \<and> b \<in> level (link_rel s m) a j}"
    and "l \<in> set (neighbors s a h m) \<Longrightarrow> (al_total_amount l, al_transaction_count l) =
      link_totals s m (level (link_rel s m) a (al_hop l - 1)) (al_account_id l)"
proof -
  define res where "res = neighbors_loop s m [Suc 0..<Suc (clamp_hops s h)] [a] [a] []"
  have l: "distinct (map fst res)" "\<And>x. x \<in> set res \<Longrightarrow> link_of s m a x"
    "(\<lambda>x. (fst x, al_hop (snd x))) ` set res =
      {(b, j). Suc 0 \<le> j \<and> j \<le> clamp_hops s h \<and> b \<in> level (link_rel s m) a j}"
    using neighbors_loop_links [OF assms, of "[a]" m a 0 "[a]" "[]" "clamp_hops s h"]
    by (auto simp: res_def ball_Suc search_result_def)
  have n: "neighbors s a h m = map snd res" by (simp add: neighbors_def res_def)
  have "map al_account_id (neighbors s a h m) = map fst res"
    unfolding n using l(2) by (auto simp: link_of_def)
  then show "distinct (map al_account_id (neighbors s a h m))" using l(1) by simp
  have "(\<lambda>l. (al_account_id l, al_hop l)) ` set (neighbors s a h m) = (\<lambda>x. (fst x, al_hop (snd x))) ` set res"
    unfolding n set_map image_image using l(2) by (intro image_cong refl) (simp add: link_of_def)
  then show "(\<lambda>l. (al_account_id l, al_hop l)) ` set (neighbors s a h m) =
      {(b, j). 1 \<le> j \<and> j \<le> clamp_hops s h \<and> b \<in> level (link_rel s m) a j}"
    using l(3) by simp
  show "(al_total_amount l, al_transaction_count l) =
      link_totals s m (level (link_rel s m) a (al_hop l - 1)) (al_account_id l)"
    if "l \<in> set (neighbors s a h m)"
    using that l(2) unfolding n by (auto simp: link_of_def)
qed

section \<open>Subgraphs\<close>

definition edge_rows :: "graph_store \<Rightarrow> string list \<Rightarrow> txn_row list" where
  "edge_rows s ids = filter (\<lambda>t. tr_from_id t \<in> set ids \<and> tr_to_id t \<in> set ids) (gs_transactions s)"

definition edge_of :: "graph_store \<Rightarrow> string \<times> string \<Rightarrow> graph_edge" where
  "edge_of s p = (let us = filter (\<lambda>t. (tr_from_id t, tr_to_id t) = p) (gs_transactions s)
     in \<lparr>ge_from_account = fst p, ge_to_account = snd p,
         ge_total_amount = sum_list (map tr_amount_paid us), ge_transaction_count = length us\<rparr>)"

definition pairs_of :: "graph_store \<Rightarrow> string list \<Rightarrow> (string \<times> string) set" where
  "pairs_of s ids = (\<lambda>t. (tr_from_id t, tr_to_id t)) ` set (edge_rows s ids)"

definition sorted_edges :: "graph_store \<Rightarrow> string list \<Rightarrow> graph_edge list" where
  "sorted_edges s ids = sort_key (\<lambda>e. - ge_total_amount e)
     (map (edge_of s) (gs_edge_order s (remdups (map (\<lambda>t. (tr_from_id t, tr_to_id t)) (edge_rows s ids)))))"

lemma edge_order_set:
  assumes "orders_ok s"
  shows "set (gs_edge_order s xs) = set xs" "length (gs_edge_order s xs) = length xs"
  using assms unfolding orders_ok_def by (metis mset_eq_setD, metis mset_eq_length)

lemma subgraph_eq:
  assumes s: "orders_ok s" and ids: "ids \<noteq> []" and m: "0 \<le> m"
  shows "subgraph s ids m = Inr \<lparr>gr_nodes = ids, gr_edges = take (nat m) (sorted_edges s ids),
     gr_truncated = (length (sorted_edges s ids) > nat m)\<rparr>"
proof -
  let ?ts = "filter (\<lambda>t. tr_from_id t \<in> set ids \<and> tr_to_id t \<in> set ids) (gs_transactions s)"
  let ?ps = "gs_edge_order s (remdups (map (\<lambda>t. (tr_from_id t, tr_to_id t)) ?ts))"
  have g: "(case p of (a, b) \<Rightarrow> let us = filter (\<lambda>t. tr_from_id t = a \<and> tr_to_id t = b) ?ts
        in \<lparr>ge_from_account = a, ge_to_account = b, ge_total_amount = sum_list (map tr_amount_paid us),
            ge_transaction_count = length us\<rparr>) = edge_of s p" if p: "p \<in> set ?ps" for p
  proof (cases p)
    case (Pair a b)
    have "(a, b) \<in> (\<lambda>t. (tr_from_id t, tr_to_id t)) ` set ?ts"
      using p unfolding Pair edge_order_set(1) [OF s] set_remdups set_map .
    then have ab: "a \<in> set ids" "b \<in> set ids" by auto
    have "filter (\<lambda>t. tr_from_id t = a \<and> tr_to_id t = b) ?ts =
        filter (\<lambda>t. (tr_from_id t, tr_to_id t) = (a, b)) (gs_transactions s)"
      unfolding filter_filter using ab by (intro filter_cong) auto
    then show ?thesis by (simp add: Pair edge_of_def Let_def)
  qed
  have "sort_key (\<lambda>e. - ge_total_amount e) (map (\<lambda>(a, b). let us = filter (\<lambda>t. tr_from_id t = a \<and> tr_to_id t = b) ?ts
        in \<lparr>ge_from_account = a, ge_to_account = b, ge_total_amount = sum_list (map tr_amount_paid us),
            ge_transaction_count = length us\<rparr>) ?ps) = sorted_edges s ids"
    unfolding sorted_edges_def edge_rows_def using g by (intro arg_cong [where f = "sort_key _"] map_cong refl) auto
  with ids m show ?thesis
    unfolding subgraph_def Let_def by (auto simp: min_def nat_add_distrib not_less)
qed

lemma sorted_edges_set:
  assumes "orders_ok s"
  shows "set (sorted_edges s ids) = edge_of s ` pairs_of s ids"
    and "length (sorted_edges s ids) = card (pairs_of s ids)"
  by (simp_all add: sorted_edges_def edge_order_set [OF assms] pairs_of_def length_remdups_card_conv)

lemma sorted_edges_desc: "sorted (map (\<lambda>e. - ge_total_amount e) (sorted_edges s ids))"
  by (simp add: sorted_edges_def)

lemma take_drop_sorted:
  assumes "sorted (map f xs)" and "x \<in> set (take n xs)" and "y \<in> set (drop n xs)"
  shows "f x \<le> f y"
proof -
  have "sorted (map f (take n xs) @ map f (drop n xs))" using assms(1) by (simp flip: map_append)
  with assms(2,3) show ?thesis by (auto simp: sorted_append)
qed

text \<open>The edges kept, the largest ones, and when something was cut.\<close>

lemma subgraph_largest:
  assumes s: "orders_ok s" and ids: "ids \<noteq> []" and m: "0 \<le> m"
  shows "\<exists>g. subgraph s ids m = Inr g \<and> set (gr_edges g) \<subseteq> edge_of s ` pairs_of s ids \<and>
    length (gr_edges g) = min (nat m) (card (pairs_of s ids)) \<and>
    (gr_truncated g \<longleftrightarrow> nat m < card (pairs_of s ids)) \<and>
    (\<forall>e \<in> set (gr_edges g). \<forall>d \<in> edge_of s ` pairs_of s ids - set (gr_edges g).
       ge_total_amount d \<le> ge_total_amount e)"
proof -
  let ?es = "sorted_edges s ids"
  have cut: "ge_total_amount d \<le> ge_total_amount e"
    if "e \<in> set (take (nat m) ?es)" "d \<in> set ?es - set (take (nat m) ?es)" for d e
  proof -
    have "d \<in> set (drop (nat m) ?es)"
      using that(2) by (metis Diff_iff UnE append_take_drop_id set_append)
    from take_drop_sorted [OF sorted_edges_desc that(1) this] show ?thesis by simp
  qed
  show ?thesis
    unfolding subgraph_eq [OF s ids m] sorted_edges_set(1) [OF s, symmetric]
    using cut set_take_subset [of "nat m" ?es] sorted_edges_set(2) [OF s, of ids]
    by (auto simp: min_def)
qed

section \<open>Structuring\<close>

definition small_deposits :: "graph_store \<Rightarrow> string \<Rightarrow> int \<Rightarrow> txn_row list" where
  "small_deposits s a w = filter (in_window s a w (Max (tr_timestamp ` {t \<in> set (gs_transactions s). tr_to_id t = a})))
     (gs_transactions s)"

lemma structuring_flagged:
  "ss_flagged (structuring_check s a w) \<longleftrightarrow> (\<exists>t \<in> set (gs_transactions s). tr_to_id t = a) \<and>
     int (length (small_deposits s a w)) \<ge> gs_min_structuring_deposits s \<and>
     sum_list (map tr_amount_received (small_deposits s a w)) \<ge> gs_small_deposit_threshold s"
  by (auto simp: structuring_check_def small_deposits_def Let_def filter_empty_conv)

lemma structuring_totals:
  "ss_flagged (structuring_check s a w) \<Longrightarrow>
     ss_deposit_count (structuring_check s a w) = length (small_deposits s a w) \<and>
     ss_total_deposits (structuring_check s a w) = sum_list (map tr_amount_received (small_deposits s a w))"
  by (auto simp: structuring_check_def small_deposits_def Let_def)

lemma small_deposits_sum:
  fixes c :: rat
  assumes "\<forall>t \<in> set ts. tr_amount_received t < c" and "ts \<noteq> []"
  shows "sum_list (map tr_amount_received ts) < of_nat (length ts) * c"
  using assms
proof (induction ts)
  case (Cons t ts)
  then show ?case by (cases ts) (auto simp: algebra_simps)
qed simp

lemma flag_needs_two:
  assumes "ss_flagged (structuring_check s a w)" and "0 < gs_small_deposit_threshold s"
  shows "length (small_deposits s a w) \<ge> 2"
proof (rule ccontr)
  let ?ts = "small_deposits s a w" and ?c = "gs_small_deposit_threshold s"
  assume "\<not> ?thesis"
  then have n: "length ?ts \<le> 1" by simp
  have c: "?c \<le> sum_list (map tr_amount_received ?ts)" using assms(1) by (simp add: structuring_flagged)
  with assms(2) have "?ts \<noteq> []" by auto
  moreover have "\<forall>t \<in> set ?ts. tr_amount_received t < ?c" by (auto simp: small_deposits_def in_window_def)
  ultimately have "sum_list (map tr_amount_received ?ts) < of_nat (length ?ts) * ?c"
    by (intro small_deposits_sum) auto
  also have "\<dots> \<le> 1 * ?c" using n assms(2) by (intro mult_right_mono) auto
  finally show False using c by simp
qed

lemma filter_weaken:
  fixes f :: "'a \<Rightarrow> rat"
  assumes "\<And>x. P x \<Longrightarrow> Q x" and "\<And>x. x \<in> set xs \<Longrightarrow> 0 \<le> f x"
  shows "length (filter P xs) \<le> length (filter Q xs)"
    and "sum_list (map f (filter P xs)) \<le> sum_list (map f (filter Q xs))"
  using assms(2)
proof (induction xs)
  case (Cons x xs)
  { case 1 with Cons.IH(1) assms(1) show ?case by (auto simp: le_SucI) }
  { case 2 with Cons.IH(2) assms(1) show ?case by (auto simp: add_increasing) }
qed simp_all

lemma flag_grows_with_window:
  assumes "ss_flagged (structuring_check s a w)" and "w \<le> w'"
    and "\<forall>t \<in> set (gs_transactions s). 0 \<le> tr_amount_received t"
  shows "ss_flagged (structuring_check s a w')"
proof -
  have i: "in_window s a w m t \<Longrightarrow> in_window s a w' m t" for m t
    using assms(2) by (simp add: in_window_def days_delta_def)
  note f = filter_weaken [where f = tr_amount_received and xs = "gs_transactions s"
      and P = "in_window s a w m" and Q = "in_window s a w' m" for m]
  have "length (small_deposits s a w) \<le> length (small_deposits s a w')"
    "sum_list (map tr_amount_received (small_deposits s a w)) \<le>
       sum_list (map tr_amount_received (small_deposits s a w'))"
    unfolding small_deposits_def using assms(3) by (auto intro!: f i)
  with assms(1) show ?thesis by (auto simp: structuring_flagged)
qed

section \<open>Dispositions\<close>

lemma marked_disposition:
  assumes "mark_investigated_tool now s a d r = (Inr x, s')"
  shows "d \<in> set VALID_DISPOSITIONS \<and> map_of (gs_investigated s') = (map_of (gs_investigated s))(a \<mapsto> (d, r, now)) \<and>
    gs_transactions s' = gs_transactions s"
  using assms by (auto simp: mark_investigated_tool_def mark_investigated_def map_of_dict_set split: if_splits)

text \<open>A transfer of an account to itself makes it one of its own counterparties.\<close>

lemma self_transfer_is_counterparty:
  assumes "gs_transactions s = [t]" and "tr_from_id t = a" and "tr_to_id t = a"
    and "get_account s a = Some r"
  shows "acr_distinct_counterparties r = 1"
  using assms by (auto simp: get_account_def touches_def Let_def split: list.splits)

end
