(* ===== verification/PyCsv.thy ===== *)
theory PyCsv
  imports PyText
begin

text \<open>
  \<open>csv.reader\<close> over \<open>io.StringIO(text)\<close> with the default dialect: the automaton of the standard
  library's reader, fed line by line (a line ends after a line feed), each line closed by an end
  mark. The field size limit is left out.
\<close>

datatype csv_state = StartRecord | StartField | InField | InQuotedField | QuoteInQuotedField | EatCrNl

text \<open>The state, the field being read and the fields saved.\<close>

type_synonym csv = "csv_state \<times> string \<times> string list"

definition csv_start :: csv where
  "csv_start = (StartRecord, [], [])"

definition is_eol :: "char option \<Rightarrow> bool" where
  "is_eol c \<longleftrightarrow> c = None \<or> c = Some (char_of (10 :: nat)) \<or> c = Some (char_of (13 :: nat))"

text \<open>Save the field at the end of a record.\<close>

definition end_field :: "char option \<Rightarrow> string \<Rightarrow> string list \<Rightarrow> csv" where
  "end_field c f fs = (if c = None then StartRecord else EatCrNl, [], fs @ [f])"

definition quote_char :: char where "quote_char = char_of (34 :: nat)"

definition start_field :: "char option \<Rightarrow> string \<Rightarrow> string list \<Rightarrow> csv" where
  "start_field c f fs =
     (if is_eol c then end_field c f fs
      else if c = Some quote_char then (InQuotedField, f, fs)
      else if c = Some CHR '','' then (StartField, [], fs @ [f])
      else (InField, f @ [the c], fs))"

text \<open>One character, or the end mark (\<open>None\<close>).\<close>

fun csv_char :: "char option \<Rightarrow> csv \<Rightarrow> csv res" where
  "csv_char c (StartRecord, f, fs) =
     Inr (if c = None then (StartRecord, f, fs) else if is_eol c then (EatCrNl, f, fs)
          else start_field c f fs)"
| "csv_char c (StartField, f, fs) = Inr (start_field c f fs)"
| "csv_char c (InField, f, fs) =
     Inr (if is_eol c then end_field c f fs
          else if c = Some CHR '','' then (StartField, [], fs @ [f])
          else (InField, f @ [the c], fs))"
| "csv_char c (InQuotedField, f, fs) =
     Inr (if c = None then (InQuotedField, f, fs)
          else if c = Some quote_char then (QuoteInQuotedField, f, fs)
          else (InQuotedField, f @ [the c], fs))"
| "csv_char c (QuoteInQuotedField, f, fs) =
     Inr (if is_eol c then end_field c f fs
          else if c = Some quote_char then (InQuotedField, f @ [quote_char], fs)
          else if c = Some CHR '','' then (StartField, [], fs @ [f])
          else (InField, f @ [the c], fs))"
| "csv_char c (EatCrNl, f, fs) =
     (if c = None then Inr (StartRecord, f, fs)
      else if is_eol c then Inr (EatCrNl, f, fs)
      else Inl (Exn CsvErr ''new-line character seen in unquoted field''))"

fun csv_line :: "string \<Rightarrow> csv \<Rightarrow> csv res" where
  "csv_line [] p = csv_char None p"
| "csv_line (c # l) p = bind_res (csv_char (Some c) p) (csv_line l)"

fun csv_rows :: "string list \<Rightarrow> csv \<Rightarrow> string list list res" where
  "csv_rows [] (st, f, fs) = Inr (if f \<noteq> [] \<or> st = InQuotedField then [fs @ [f]] else [])"
| "csv_rows (l # ls) p =
     bind_res (csv_line l p) (\<lambda>(st, f, fs).
       if st = StartRecord then bind_res (csv_rows ls csv_start) (\<lambda>rows. Inr (fs # rows))
       else csv_rows ls (st, f, fs))"

text \<open>The lines of a text, each with its line feed.\<close>

fun text_lines :: "string \<Rightarrow> string \<Rightarrow> string list" where
  "text_lines cur [] = (if cur = [] then [] else [cur])"
| "text_lines cur (c # s) =
     (if c = char_of (10 :: nat) then (cur @ [c]) # text_lines [] s else text_lines (cur @ [c]) s)"

definition csv_reader :: "string \<Rightarrow> string list list res" where
  "csv_reader s = csv_rows (text_lines [] s) csv_start"

text \<open>\<open>str.split(sep)\<close> for a separator that is not empty.\<close>

function split_from :: "string \<Rightarrow> string \<Rightarrow> string \<Rightarrow> string list" where
  "split_from sep cur [] = [cur]"
| "split_from sep cur (c # s) =
     (if take (length sep) (c # s) = sep then cur # split_from sep [] (drop (length sep - 1) s)
      else split_from sep (cur @ [c]) s)"
  by pat_completeness auto
termination by (relation "measure (\<lambda>(sep, cur, s). length s)") auto

definition py_split :: "string \<Rightarrow> string \<Rightarrow> string list" where
  "py_split sep s = split_from sep [] s"

end
