(* ===== verification/OfacSanctions.thy ===== *)
theory OfacSanctions
  imports PyCsv RedisIface Complex_Main
begin

text \<open>
  The OFAC sanctions MCP server (\<open>src/mcp-servers/ofac-sanctions/src\<close>): parsing of the two lists, the
  index, and the tools. Fetching a source and the fuzzy matcher (\<open>rapidfuzz\<close>) are parameters; scores
  are rational numbers.
\<close>

section \<open>Entries\<close>

record sdn_entry =
  sdn_ent_num :: string
  sdn_name :: string
  sdn_type :: string
  sdn_programs :: "string list"
  sdn_remarks :: string
  sdn_aliases :: "string list"

record sanctions_match =
  sm_matched_name :: string
  sm_entry_id :: string
  sm_score :: rat
  sm_is_match :: bool
  sm_programs :: "string list"
  sm_reference_url :: string

definition REFERENCE_URL :: "string \<Rightarrow> string" where
  "REFERENCE_URL ent_num = ''https://sanctionssearch.ofac.treas.gov/Details.aspx?id='' @ ent_num"

definition NULL_SENTINEL :: string where "NULL_SENTINEL = ''-0-''"

section \<open>Parsing\<close>

definition load_source :: "(string \<Rightarrow> string res) \<Rightarrow> (string \<Rightarrow> string res) \<Rightarrow> string \<Rightarrow> string res" where
  "load_source fetch_text read_text source =
     (if take 7 source = ''http://'' \<or> take 8 source = ''https://'' then fetch_text source
      else read_text source)"

definition clean_field :: "string \<Rightarrow> string option" where
  "clean_field raw = (let value = strip raw in
     if value = [] \<or> value = NULL_SENTINEL then None else Some value)"

definition programs_of :: "string \<Rightarrow> string list" where
  "programs_of raw =
     (case clean_field raw of
        None \<Rightarrow> []
      | Some cleaned \<Rightarrow> map (strip_by (\<lambda>c. c \<in> set ''[] '')) (py_split ''] ['' cleaned))"

definition or_else :: "string option \<Rightarrow> string \<Rightarrow> string" where
  "or_else x d = (case x of None \<Rightarrow> d | Some s \<Rightarrow> s)"

definition sdn_of_row :: "string list \<Rightarrow> sdn_entry" where
  "sdn_of_row row =
     \<lparr>sdn_ent_num = strip (row ! 0), sdn_name = strip (row ! 1),
      sdn_type = or_else (clean_field (row ! 2)) ''entity'', sdn_programs = programs_of (row ! 3),
      sdn_remarks = or_else (clean_field (row ! 11)) [], sdn_aliases = []\<rparr>"

definition parse_sdn_csv :: "string \<Rightarrow> (string, sdn_entry) dict res" where
  "parse_sdn_csv s =
     bind_res (csv_reader s) (\<lambda>rows. Inr (foldl (\<lambda>entries row.
       if length row < 12 then entries
       else dict_set (strip (row ! 0)) (sdn_of_row row) entries) [] rows))"

definition add_alias :: "(string, sdn_entry) dict \<Rightarrow> string list \<Rightarrow> (string, sdn_entry) dict" where
  "add_alias entries row =
     (if length row < 5 then entries
      else (let ent_num = strip (row ! 0); alt_name = strip (row ! 3) in
            case map_of entries ent_num of
              None \<Rightarrow> entries
            | Some entry \<Rightarrow>
                if alt_name = [] then entries
                else dict_set ent_num (entry\<lparr>sdn_aliases := sdn_aliases entry @ [alt_name]\<rparr>) entries))"

definition parse_alt_csv :: "string \<Rightarrow> (string, sdn_entry) dict \<Rightarrow> (string, sdn_entry) dict res" where
  "parse_alt_csv s entries = bind_res (csv_reader s) (\<lambda>rows. Inr (foldl add_alias entries rows))"

section \<open>The index\<close>

type_synonym names = "(string, string list) dict"

record sanctions_index =
  si_entries :: "(string, sdn_entry) dict"
  si_names_by_type :: "(string, names) dict"
  si_all_names :: names

text \<open>\<open>d.setdefault(name, []).append(ent_num)\<close>\<close>

definition append_at :: "string \<Rightarrow> string \<Rightarrow> names \<Rightarrow> names" where
  "append_at ent_num name d = dict_set name (get_or [] d name @ [ent_num]) d"

definition index_entry ::
    "(string, names) dict \<times> names \<Rightarrow> sdn_entry \<Rightarrow> (string, names) dict \<times> names" where
  "index_entry ix entry =
     (case ix of (by_type, all_names) \<Rightarrow>
        (dict_set (sdn_type entry)
           (append_at (sdn_ent_num entry) (sdn_name entry) (get_or [] by_type (sdn_type entry))) by_type,
         foldl (\<lambda>d alias. append_at (sdn_ent_num entry) alias d)
           (append_at (sdn_ent_num entry) (sdn_name entry) all_names) (sdn_aliases entry)))"

definition index_of_entries :: "(string, sdn_entry) dict \<Rightarrow> sanctions_index" where
  "index_of_entries entries =
     (case foldl index_entry ([], []) (map snd entries) of (by_type, all_names) \<Rightarrow>
        \<lparr>si_entries = entries, si_names_by_type = by_type, si_all_names = all_names\<rparr>)"

definition build_index :: "string \<Rightarrow> string \<Rightarrow> sanctions_index res" where
  "build_index sdn_text alt_text =
     bind_res (parse_sdn_csv sdn_text) (\<lambda>es.
     bind_res (parse_alt_csv alt_text es) (\<lambda>entries. Inr (index_of_entries entries)))"

section \<open>Matching\<close>

text \<open>\<open>process.extractOne\<close> and \<open>process.extract\<close> over the names: the fuzzy matcher.\<close>

record matcher =
  fz_extract_one :: "string \<Rightarrow> string list \<Rightarrow> (string \<times> rat) option"
  fz_extract :: "string \<Rightarrow> string list \<Rightarrow> nat \<Rightarrow> (string \<times> rat) list"

definition lookup :: "string \<Rightarrow> (string, 'a) dict \<Rightarrow> 'a res" where
  "lookup k d = (case map_of d k of None \<Rightarrow> Inl (Exn KeyErr k) | Some v \<Rightarrow> Inr v)"

definition to_match ::
    "sanctions_index \<Rightarrow> string \<Rightarrow> string \<Rightarrow> rat \<Rightarrow> rat \<Rightarrow> sanctions_match res" where
  "to_match index matched_name ent_num score threshold =
     bind_res (lookup ent_num (si_entries index)) (\<lambda>entry.
       Inr \<lparr>sm_matched_name = matched_name, sm_entry_id = ent_num, sm_score = score,
            sm_is_match = (score \<ge> threshold), sm_programs = sdn_programs entry,
            sm_reference_url = REFERENCE_URL ent_num\<rparr>)"

definition best_match ::
    "matcher \<Rightarrow> names \<Rightarrow> sanctions_index \<Rightarrow> string \<Rightarrow> rat \<Rightarrow> sanctions_match option res" where
  "best_match fz names index query threshold =
     (if names = [] then Inr None
      else (case fz_extract_one fz query (map fst names) of
              None \<Rightarrow> Inr None
            | Some (matched_name, score) \<Rightarrow>
                bind_res (lookup matched_name names) (\<lambda>ids.
                  (case ids of
                     [] \<Rightarrow> Inl (Exn IndexErr ''list index out of range'')
                   | ent_num # _ \<Rightarrow>
                       bind_res (to_match index matched_name ent_num score threshold) (\<lambda>m. Inr (Some m))))))"

definition top_matches ::
    "matcher \<Rightarrow> names \<Rightarrow> sanctions_index \<Rightarrow> string \<Rightarrow> rat \<Rightarrow> nat \<Rightarrow> sanctions_match list res" where
  "top_matches fz names index query threshold limit =
     (if names = [] then Inr []
      else bind_res (map_res (\<lambda>(matched_name, score).
             bind_res (lookup matched_name names) (\<lambda>ids.
               map_res (\<lambda>ent_num. to_match index matched_name ent_num score threshold) ids))
             (fz_extract fz query (map fst names) limit)) (\<lambda>ms. Inr (concat ms)))"

section \<open>The tools\<close>

definition VALID_ENTITY_TYPES :: "string list" where
  "VALID_ENTITY_TYPES = [''aircraft'', ''entity'', ''individual'', ''vessel'']"

definition check_entity ::
    "matcher \<Rightarrow> sanctions_index \<Rightarrow> rat \<Rightarrow> string \<Rightarrow> string \<Rightarrow> sanctions_match option res" where
  "check_entity fz index threshold name entity_type =
     (if entity_type \<notin> set VALID_ENTITY_TYPES
      then Inl (Exn ValueErr (''entity_type must be one of '' @ py_repr_list VALID_ENTITY_TYPES @
             '', got '' @ py_repr entity_type))
      else best_match fz (get_or [] (si_names_by_type index) entity_type) index name threshold)"

definition check_alias :: "matcher \<Rightarrow> sanctions_index \<Rightarrow> rat \<Rightarrow> string \<Rightarrow> sanctions_match list res" where
  "check_alias fz index threshold name = top_matches fz (si_all_names index) index name threshold 5"

definition get_entity_detail :: "sanctions_index \<Rightarrow> string \<Rightarrow> sdn_entry res" where
  "get_entity_detail index sdn_entry_id =
     (case map_of (si_entries index) sdn_entry_id of
        None \<Rightarrow> Inl (Exn ValueErr (''no SDN entry with ent_num='' @ py_repr sdn_entry_id))
      | Some entry \<Rightarrow> Inr entry)"

end
