(* ===== verification/OfacProps.thy ===== *)
theory OfacProps
  imports OfacSanctions
begin

text \<open>
  The index holds exactly the names of the parsed entries, and the screening tools answer, for a
  fuzzy matcher that answers with one of the names it was given.
\<close>

section \<open>Names\<close>

lemma get_or_append_at:
  "get_or [] (append_at i n d) m = (if m = n then get_or [] d n @ [i] else get_or [] d m)"
  by (simp add: append_at_def)

lemma keys_append_at: "fst ` set (append_at i n d) = insert n (fst ` set d)"
  by (simp add: append_at_def keys_dict_set)

lemma append_aliases:
  "set (get_or [] (foldl (\<lambda>d alias. append_at i alias d) d as) m) =
     set (get_or [] d m) \<union> (if m \<in> set as then {i} else {})"
  "fst ` set (foldl (\<lambda>d alias. append_at i alias d) d as) = fst ` set d \<union> set as"
  by (induction as arbitrary: d) (auto simp: get_or_append_at keys_append_at)

definition has_name :: "sdn_entry \<Rightarrow> string \<Rightarrow> bool" where
  "has_name e n \<longleftrightarrow> n = sdn_name e \<or> n \<in> set (sdn_aliases e)"

text \<open>The index of the entries seen so far.\<close>

definition index_ok :: "sdn_entry list \<Rightarrow> (string, names) dict \<times> names \<Rightarrow> bool" where
  "index_ok es ix \<longleftrightarrow>
     (\<forall>n. set (get_or [] (snd ix) n) = sdn_ent_num ` {e \<in> set es. has_name e n}) \<and>
     (\<forall>ty n. set (get_or [] (get_or [] (fst ix) ty) n) =
        sdn_ent_num ` {e \<in> set es. sdn_type e = ty \<and> sdn_name e = n}) \<and>
     fst ` set (snd ix) = {n. \<exists>e \<in> set es. has_name e n} \<and>
     (\<forall>ty. fst ` set (get_or [] (fst ix) ty) = sdn_name ` {e \<in> set es. sdn_type e = ty})"

lemma index_ok_step:
  assumes "index_ok es ix" shows "index_ok (es @ [e]) (index_entry ix e)"
proof -
  obtain bt al where ix: "ix = (bt, al)" by (cases ix)
  note ok = assms [unfolded index_ok_def ix fst_conv snd_conv]
  let ?al = "foldl (\<lambda>d alias. append_at (sdn_ent_num e) alias d)
      (append_at (sdn_ent_num e) (sdn_name e) al) (sdn_aliases e)"
  let ?t = "append_at (sdn_ent_num e) (sdn_name e) (get_or [] bt (sdn_type e))"
  have al: "set (get_or [] ?al n) = sdn_ent_num ` {x \<in> set (es @ [e]). has_name x n}" for n
  proof -
    have "{x \<in> set (es @ [e]). has_name x n} = {x \<in> set es. has_name x n} \<union> (if has_name e n then {e} else {})"
      by auto
    then show ?thesis using ok by (auto simp: append_aliases get_or_append_at has_name_def)
  qed
  have t: "set (get_or [] (get_or [] (dict_set (sdn_type e) ?t bt) ty) n) =
      sdn_ent_num ` {x \<in> set (es @ [e]). sdn_type x = ty \<and> sdn_name x = n}" for ty n
  proof -
    have "{x \<in> set (es @ [e]). sdn_type x = ty \<and> sdn_name x = n} =
        {x \<in> set es. sdn_type x = ty \<and> sdn_name x = n} \<union>
        (if sdn_type e = ty \<and> sdn_name e = n then {e} else {})" by auto
    then show ?thesis using ok by (auto simp: get_or_append_at)
  qed
  have k: "fst ` set ?al = {n. \<exists>x \<in> set (es @ [e]). has_name x n}"
    using ok by (auto simp: append_aliases keys_append_at has_name_def)
  have kt: "fst ` set (get_or [] (dict_set (sdn_type e) ?t bt) ty) =
      sdn_name ` {x \<in> set (es @ [e]). sdn_type x = ty}" for ty
  proof -
    have "{x \<in> set (es @ [e]). sdn_type x = ty} = {x \<in> set es. sdn_type x = ty} \<union>
        (if sdn_type e = ty then {e} else {})" by auto
    then show ?thesis using ok by (auto simp: keys_append_at)
  qed
  show ?thesis
    unfolding index_ok_def ix index_entry_def using al t k kt by simp
qed

lemma index_ok_foldl: "index_ok es ix \<Longrightarrow> index_ok (es @ fs) (foldl index_entry ix fs)"
proof (induction fs arbitrary: es ix)
  case (Cons f fs)
  from Cons.IH [OF index_ok_step [OF Cons.prems, of f]] show ?case by simp
qed simp

lemma index_of_entries_ok:
  "index_ok (map snd entries) (si_names_by_type (index_of_entries entries), si_all_names (index_of_entries entries))"
  "si_entries (index_of_entries entries) = entries"
proof -
  have "index_ok [] ([], [])" by (simp add: index_ok_def get_or_def)
  from index_ok_foldl [OF this, of "map snd entries"]
  show "index_ok (map snd entries) (si_names_by_type (index_of_entries entries), si_all_names (index_of_entries entries))"
    "si_entries (index_of_entries entries) = entries"
    by (auto simp: index_of_entries_def split: prod.splits)
qed

section \<open>Entries\<close>

definition entries_ok :: "(string, sdn_entry) dict \<Rightarrow> bool" where
  "entries_ok es \<longleftrightarrow> distinct (map fst es) \<and> (\<forall>k e. map_of es k = Some e \<longrightarrow> sdn_ent_num e = k)"

lemma entries_ok_set:
  "entries_ok es \<Longrightarrow> sdn_ent_num e = k \<Longrightarrow> entries_ok (dict_set k e es)"
  by (auto simp: entries_ok_def)

lemma foldl_invariant: "P a \<Longrightarrow> (\<And>a x. P a \<Longrightarrow> P (f a x)) \<Longrightarrow> P (foldl f a xs)"
  by (induction xs arbitrary: a) auto

lemma parse_sdn_csv_ok: "parse_sdn_csv s = Inr es \<Longrightarrow> entries_ok es"
  unfolding parse_sdn_csv_def bind_res_eq_Inr
  by (auto intro!: foldl_invariant [where P = entries_ok] entries_ok_set simp: sdn_of_row_def)
    (simp add: entries_ok_def)

lemma parse_alt_csv_ok: "parse_alt_csv s es = Inr fs \<Longrightarrow> entries_ok es \<Longrightarrow> entries_ok fs"
  unfolding parse_alt_csv_def bind_res_eq_Inr
  by (auto intro!: foldl_invariant [where P = entries_ok] entries_ok_set simp: add_alias_def Let_def
      split: option.split) (simp add: entries_ok_def)

lemma entries_ok_mem: "entries_ok es \<Longrightarrow> e \<in> snd ` set es \<Longrightarrow> map_of es (sdn_ent_num e) = Some e"
  by (force simp: entries_ok_def)

lemma build_index_ok:
  assumes "build_index sdn alt = Inr ix"
  shows "entries_ok (si_entries ix)" "index_ok (map snd (si_entries ix)) (si_names_by_type ix, si_all_names ix)"
  using assms index_of_entries_ok
  by (auto simp: build_index_def bind_res_eq_Inr dest: parse_sdn_csv_ok parse_alt_csv_ok)

section \<open>Matches\<close>

text \<open>What the matcher promises: its answers are among the choices.\<close>

definition matcher_ok :: "matcher \<Rightarrow> bool" where
  "matcher_ok fz \<longleftrightarrow>
     (\<forall>q ns n x. fz_extract_one fz q ns = Some (n, x) \<longrightarrow> n \<in> set ns) \<and>
     (\<forall>q ns k. fst ` set (fz_extract fz q ns k) \<subseteq> set ns)"

text \<open>A match names an entry of the index, with the entry's programs.\<close>

definition match_ok :: "sanctions_index \<Rightarrow> rat \<Rightarrow> (sdn_entry \<Rightarrow> string \<Rightarrow> bool) \<Rightarrow> sanctions_match \<Rightarrow> bool" where
  "match_ok ix threshold P m \<longleftrightarrow> (\<exists>e. map_of (si_entries ix) (sm_entry_id m) = Some e \<and>
     P e (sm_matched_name m) \<and> sm_programs m = sdn_programs e \<and> (sm_is_match m \<longleftrightarrow> sm_score m \<ge> threshold))"

lemma to_match_ok:
  assumes "map_of (si_entries ix) i = Some e" and "P e n"
  obtains m where "to_match ix n i x threshold = Inr m" "match_ok ix threshold P m"
    "sm_entry_id m = i" "sm_matched_name m = n"
  using assms by (auto simp: to_match_def lookup_def match_ok_def)

lemma get_or_lookup: "n \<in> fst ` set d \<Longrightarrow> lookup n d = Inr (get_or v d n)"
  using map_of_eq_None_iff [of d n] by (auto simp: lookup_def get_or_def split: option.splits)

lemma check_entity_answers:
  assumes ix: "build_index sdn alt = Inr ix" and fz: "matcher_ok fz" and ty: "ty \<in> set VALID_ENTITY_TYPES"
  shows "\<exists>m. check_entity fz ix threshold name ty = Inr m \<and>
    (m = None \<or> (\<exists>x. m = Some x \<and> match_ok ix threshold (\<lambda>e n. sdn_type e = ty \<and> sdn_name e = n) x))"
proof -
  let ?d = "get_or [] (si_names_by_type ix) ty"
  note ok = build_index_ok [OF ix]
  show ?thesis
  proof (cases "?d = [] \<or> fz_extract_one fz name (map fst ?d) = None")
    case True
    with ty show ?thesis by (auto simp: check_entity_def best_match_def)
  next
    case False
    then obtain n x where q: "?d \<noteq> []" "fz_extract_one fz name (map fst ?d) = Some (n, x)" by auto
    then have n: "n \<in> fst ` set ?d" using fz unfolding matcher_ok_def by fastforce
    then obtain e0 where "e0 \<in> snd ` set (si_entries ix)" "sdn_type e0 = ty" "sdn_name e0 = n"
      using ok(2) unfolding index_ok_def by auto
    then have "sdn_ent_num e0 \<in> set (get_or [] ?d n)" using ok(2) unfolding index_ok_def by auto
    then obtain i js where i: "get_or [] ?d n = i # js" by (cases "get_or [] ?d n") auto
    then have "i \<in> set (get_or [] ?d n)" by simp
    then obtain e where e: "e \<in> snd ` set (si_entries ix)" "sdn_type e = ty" "sdn_name e = n" "sdn_ent_num e = i"
      using ok(2) unfolding index_ok_def by auto
    from to_match_ok [OF entries_ok_mem [OF ok(1) e(1)], of "\<lambda>e n. sdn_type e = ty \<and> sdn_name e = n" n x threshold]
    obtain m where "to_match ix n i x threshold = Inr m"
      "match_ok ix threshold (\<lambda>e n. sdn_type e = ty \<and> sdn_name e = n) m" using e by auto
    with ty q n i show ?thesis
      by (auto simp: check_entity_def best_match_def get_or_lookup [where v = "[]"])
  qed
qed

lemma map_res_all:
  assumes "\<And>x. x \<in> set xs \<Longrightarrow> \<exists>y. f x = Inr y \<and> P y"
  shows "\<exists>ys. map_res f xs = Inr ys \<and> list_all P ys"
  using assms
proof (induction xs)
  case (Cons x xs)
  then obtain y ys where "f x = Inr y" "P y" "map_res f xs = Inr ys" "list_all P ys" by fastforce
  then show ?case by simp
qed simp

lemma check_alias_answers:
  assumes ix: "build_index sdn alt = Inr ix" and fz: "matcher_ok fz"
  shows "\<exists>ms. check_alias fz ix threshold name = Inr ms \<and> list_all (match_ok ix threshold has_name) ms"
proof (cases "si_all_names ix = []")
  case True
  then show ?thesis by (simp add: check_alias_def top_matches_def)
next
  case False
  let ?d = "si_all_names ix" and ?rs = "fz_extract fz name (map fst (si_all_names ix)) 5"
  let ?f = "\<lambda>(n, x). bind_res (lookup n ?d) (\<lambda>ids. map_res (\<lambda>i. to_match ix n i x threshold) ids)"
  note ok = build_index_ok [OF ix]
  have one: "\<exists>ms. ?f r = Inr ms \<and> list_all (match_ok ix threshold has_name) ms" if r: "r \<in> set ?rs" for r
  proof -
    obtain n x where nx: "r = (n, x)" by (cases r)
    have "fst r \<in> set (map fst ?d)" using fz r unfolding matcher_ok_def by blast
    then have n: "lookup n ?d = Inr (get_or [] ?d n)" using nx get_or_lookup by simp
    have "\<exists>m. to_match ix n i x threshold = Inr m \<and> match_ok ix threshold has_name m"
      if "i \<in> set (get_or [] ?d n)" for i
    proof -
      from that obtain e where e: "e \<in> snd ` set (si_entries ix)" "has_name e n" "sdn_ent_num e = i"
        using ok(2) unfolding index_ok_def by auto
      from to_match_ok [of ix "sdn_ent_num e" e has_name n x threshold, OF entries_ok_mem [OF ok(1) e(1)] e(2)]
        e(3) show ?thesis by metis
    qed
    then have "\<exists>ms. map_res (\<lambda>i. to_match ix n i x threshold) (get_or [] ?d n) = Inr ms \<and>
        list_all (match_ok ix threshold has_name) ms" by (rule map_res_all)
    with n show ?thesis by (simp add: nx)
  qed
  obtain mss where
    "map_res ?f ?rs = Inr mss" "list_all (\<lambda>ms. list_all (match_ok ix threshold has_name) ms) mss"
    using map_res_all [of ?rs ?f "list_all (match_ok ix threshold has_name)", OF one] by blast
  moreover from this(2) have "list_all (match_ok ix threshold has_name) (concat mss)"
    by (induction mss) auto
  ultimately show ?thesis using False by (simp add: check_alias_def top_matches_def)
qed

end
