(* ===== verification/AmlInvestigator.thy ===== *)
theory AmlInvestigator
  imports PyJson PyText ResAction TimeArith CustomPolicies TransactionGraph
begin

text \<open>
  The AML investigator (\<open>src/agents/aml-investigator\<close>): the client that reaches both servers through
  the gateway, the five nodes and the linear graph. What a tool call comes back with, the language
  model, and how Python prints a value into a text are parameters.
\<close>

section \<open>State\<close>

record alert =
  at_account_id :: string
  at_alert_type :: string
  at_narrative_hint :: "string option"

record discovery_findings =
  df_account :: json
  df_transactions :: "json list"
  df_sanctions_hit :: json
  df_first_hop_neighbors :: "json list"

record enrichment_findings =
  ef_subgraph :: json
  ef_structuring_signal :: json
  ef_sanctions_entity_detail :: json

datatype risk_level = Low | Medium | High

text \<open>Risk levels are ordered by the action they call for.\<close>

instantiation risk_level :: linorder
begin

fun less_eq_risk_level :: "risk_level \<Rightarrow> risk_level \<Rightarrow> bool" where
  "Low \<le> r = True"
| "Medium \<le> r = (r \<noteq> Low)"
| "High \<le> r = (r = High)"

definition less_risk_level :: "risk_level \<Rightarrow> risk_level \<Rightarrow> bool" where
  "less_risk_level r s = (r \<le> s \<and> \<not> s \<le> r)"

instance
proof
  fix r s t :: risk_level
  show "(r < s) = (r \<le> s \<and> \<not> s \<le> r)" by (rule less_risk_level_def)
  show "r \<le> r" by (cases r) simp_all
  show "r \<le> s \<Longrightarrow> s \<le> t \<Longrightarrow> r \<le> t" by (cases r; cases s; cases t) simp_all
  show "r \<le> s \<Longrightarrow> s \<le> r \<Longrightarrow> r = s" by (cases r; cases s) simp_all
  show "r \<le> s \<or> s \<le> r" by (cases r; cases s) simp_all
qed

end

record assessment =
  as_risk_level :: risk_level
  as_key_findings :: "string list"
  as_rationale :: string

record recommendation =
  rc_disposition :: string
  rc_rationale :: string
  rc_write_result :: "json option"
  rc_write_error :: "string option"

record investigation_report =
  ir_summary :: string
  ir_narrative_text :: string
  ir_recommended_next_steps :: "string list"

record investigation_state =
  iv_alert :: alert
  iv_discovery :: "discovery_findings option"
  iv_enrichment :: "enrichment_findings option"
  iv_assessment :: "assessment option"
  iv_recommendation :: "recommendation option"
  iv_report :: "investigation_report option"

definition start_state :: "alert \<Rightarrow> investigation_state" where
  "start_state a = \<lparr>iv_alert = a, iv_discovery = None, iv_enrichment = None, iv_assessment = None,
     iv_recommendation = None, iv_report = None\<rparr>"

section \<open>The client\<close>

definition TRANSACTION_GRAPH_ROUTE :: string where "TRANSACTION_GRAPH_ROUTE = ''transaction-graph''"
definition OFAC_ROUTE :: string where "OFAC_ROUTE = ''ofac-sanctions''"

record tool_call_record =
  tc_server :: string
  tc_tool :: string
  tc_ok :: bool
  tc_error :: "string option"

text \<open>What the MCP session gives back: an \<open>McpError\<close> (message and printed data), a result, or another
  exception.\<close>

record tool_result =
  tr_is_error :: bool
  tr_content :: "string list"
  tr_structured :: json

datatype call_outcome = McpError string string | Answered tool_result | Raised exn

record inv_env =
  ie_call :: "nat \<Rightarrow> string \<Rightarrow> string \<Rightarrow> json \<Rightarrow> call_outcome"
  ie_repr :: "json \<Rightarrow> string"
  ie_str :: "json \<Rightarrow> string"
  ie_fixed :: "nat \<Rightarrow> json \<Rightarrow> string res"
  ie_assess :: "investigation_state \<Rightarrow> assessment res"
  ie_report :: "investigation_state \<Rightarrow> investigation_report res"

text \<open>\<open>iw_calls\<close> is a history variable: the calls made, with their arguments.\<close>

record inv_world =
  iw_call_log :: "tool_call_record list"
  iw_calls :: "(string \<times> string \<times> json) list"

type_synonym 'a inv_act = "inv_world \<Rightarrow> 'a res \<times> inv_world"

text \<open>\<open>d[k]\<close> on a parsed value.\<close>

definition item :: "json \<Rightarrow> string \<Rightarrow> json res" where
  "item j k = (case j of
     JObj kvs \<Rightarrow> (case map_of kvs k of None \<Rightarrow> Inl (Exn KeyErr k) | Some v \<Rightarrow> Inr v)
   | _ \<Rightarrow> Inl (Exn TypeErr ''not subscriptable by a string''))"

definition log_call :: "string \<Rightarrow> string \<Rightarrow> string option \<Rightarrow> inv_world \<Rightarrow> inv_world" where
  "log_call route tool err w = w\<lparr>iw_call_log := iw_call_log w @
     [\<lparr>tc_server = route, tc_tool = tool, tc_ok = (err = None), tc_error = err\<rparr>]\<rparr>"

definition call_failed :: "inv_env \<Rightarrow> string \<Rightarrow> string \<Rightarrow> json \<Rightarrow> string \<Rightarrow> exn" where
  "call_failed E route tool arguments message =
     Exn ToolCallErr (route @ ''.'' @ tool @ ''('' @ ie_repr E arguments @ '') failed: '' @ message)"

definition call_tool :: "inv_env \<Rightarrow> string \<Rightarrow> string \<Rightarrow> json \<Rightarrow> bool \<Rightarrow> json inv_act" where
  "call_tool E route tool arguments unwrap_envelope w =
     (let n = length (iw_calls w); w1 = w\<lparr>iw_calls := iw_calls w @ [(route, tool, arguments)]\<rparr> in
      case ie_call E n route tool arguments of
        McpError msg detail \<Rightarrow>
          (let message = msg @ '': '' @ detail in
           (Inl (call_failed E route tool arguments message), log_call route tool (Some message) w1))
      | Raised e \<Rightarrow> (Inl e, w1)
      | Answered r \<Rightarrow>
          if tr_is_error r then
            (let message = (case tr_content r of [] \<Rightarrow> ''unknown error'' | t # _ \<Rightarrow> t) in
             (Inl (call_failed E route tool arguments message), log_call route tool (Some message) w1))
          else (if unwrap_envelope then item (tr_structured r) ''result'' else Inr (tr_structured r),
                log_call route tool None w1))"

definition query_transactions_call :: "inv_env \<Rightarrow> string \<Rightarrow> string \<Rightarrow> string \<Rightarrow> json inv_act" where
  "query_transactions_call E account_id from_date to_date =
     call_tool E TRANSACTION_GRAPH_ROUTE ''query_transactions''
       (JObj [(''account_id'', JStr account_id), (''from_date'', JStr from_date), (''to_date'', JStr to_date)]) True"

definition get_account_call :: "inv_env \<Rightarrow> string \<Rightarrow> json inv_act" where
  "get_account_call E account_id =
     call_tool E TRANSACTION_GRAPH_ROUTE ''get_account'' (JObj [(''account_id'', JStr account_id)]) False"

definition neighbors_call :: "inv_env \<Rightarrow> string \<Rightarrow> int \<Rightarrow> json \<Rightarrow> json inv_act" where
  "neighbors_call E account_id hops min_amount =
     call_tool E TRANSACTION_GRAPH_ROUTE ''neighbors''
       (JObj [(''account_id'', JStr account_id), (''hops'', JInt hops), (''min_amount'', min_amount)]) True"

definition subgraph_call :: "inv_env \<Rightarrow> json list \<Rightarrow> int \<Rightarrow> json inv_act" where
  "subgraph_call E account_ids max_edges =
     call_tool E TRANSACTION_GRAPH_ROUTE ''subgraph''
       (JObj [(''account_ids'', JList account_ids), (''max_edges'', JInt max_edges)]) False"

definition structuring_check_call :: "inv_env \<Rightarrow> string \<Rightarrow> int \<Rightarrow> json inv_act" where
  "structuring_check_call E account_id window_days =
     call_tool E TRANSACTION_GRAPH_ROUTE ''structuring_check''
       (JObj [(''account_id'', JStr account_id), (''window_days'', JInt window_days)]) False"

definition mark_investigated_call :: "inv_env \<Rightarrow> string \<Rightarrow> string \<Rightarrow> string \<Rightarrow> json inv_act" where
  "mark_investigated_call E account_id disposition rationale =
     call_tool E TRANSACTION_GRAPH_ROUTE ''mark_investigated''
       (JObj [(''account_id'', JStr account_id), (''disposition'', JStr disposition),
              (''rationale'', JStr rationale)]) False"

definition check_entity_call :: "inv_env \<Rightarrow> json \<Rightarrow> string \<Rightarrow> json inv_act" where
  "check_entity_call E name entity_type =
     call_tool E OFAC_ROUTE ''check_entity'' (JObj [(''name'', name), (''entity_type'', JStr entity_type)]) True"

definition check_alias_call :: "inv_env \<Rightarrow> string \<Rightarrow> json inv_act" where
  "check_alias_call E name = call_tool E OFAC_ROUTE ''check_alias'' (JObj [(''name'', JStr name)]) True"

definition get_entity_detail_call :: "inv_env \<Rightarrow> json \<Rightarrow> json inv_act" where
  "get_entity_detail_call E entry_id =
     call_tool E OFAC_ROUTE ''get_entity_detail'' (JObj [(''sdn_entry_id'', entry_id)]) False"

section \<open>Validation of the findings\<close>

fun is_obj :: "json \<Rightarrow> bool" where
  "is_obj (JObj kvs) = True"
| "is_obj j = False"

definition as_dict :: "json \<Rightarrow> json res" where
  "as_dict j = (if is_obj j then Inr j else Inl (Exn ValueErr ''ValidationError''))"

definition as_dict_or_none :: "json \<Rightarrow> json res" where
  "as_dict_or_none j = (if j = JNull then Inr j else as_dict j)"

definition as_dict_list :: "json \<Rightarrow> json list res" where
  "as_dict_list j = (case j of
     JList xs \<Rightarrow> if list_all is_obj xs then Inr xs else Inl (Exn ValueErr ''ValidationError'')
   | _ \<Rightarrow> Inl (Exn ValueErr ''ValidationError''))"

section \<open>Discovery\<close>

definition QUERY_FROM_DATE :: string where "QUERY_FROM_DATE = ''2000-01-01''"
definition QUERY_TO_DATE :: string where "QUERY_TO_DATE = ''2035-12-31''"

definition discovery_node :: "inv_env \<Rightarrow> investigation_state \<Rightarrow> investigation_state inv_act" where
  "discovery_node E st =
     (let account_id = at_account_id (iv_alert st) in
      cbind (get_account_call E account_id) (\<lambda>account.
      cbind (clift (item account ''entity_name'')) (\<lambda>name.
      cbind (check_entity_call E name ''entity'') (\<lambda>sanctions_hit.
      cbind (query_transactions_call E account_id QUERY_FROM_DATE QUERY_TO_DATE) (\<lambda>transactions.
      cbind (neighbors_call E account_id 1 (JInt 0)) (\<lambda>first_hop_neighbors.
      cbind (clift (as_dict account)) (\<lambda>account.
      cbind (clift (as_dict_list transactions)) (\<lambda>transactions.
      cbind (clift (as_dict_or_none sanctions_hit)) (\<lambda>sanctions_hit.
      cbind (clift (as_dict_list first_hop_neighbors)) (\<lambda>first_hop_neighbors.
        cret (st\<lparr>iv_discovery := Some \<lparr>df_account = account, df_transactions = transactions,
          df_sanctions_hit = sanctions_hit,
          df_first_hop_neighbors = first_hop_neighbors\<rparr>\<rparr>)))))))))))"

section \<open>Enrichment\<close>

definition MAX_SUBGRAPH_NEIGHBORS :: nat where "MAX_SUBGRAPH_NEIGHBORS = 25"

text \<open>\<open>hit is not None and hit.get("is_match")\<close>\<close>

definition hit_matched :: "json \<Rightarrow> bool" where
  "hit_matched hit = flag_set hit ''is_match''"

definition enrichment_node :: "inv_env \<Rightarrow> investigation_state \<Rightarrow> investigation_state inv_act" where
  "enrichment_node E st =
     (case iv_discovery st of
        None \<Rightarrow> cthrow (Exn AssertionErr [])
      | Some d \<Rightarrow>
          (let account_id = at_account_id (iv_alert st); hit = df_sanctions_hit d in
           cbind (clift (map_res (\<lambda>n. item n ''account_id'') (df_first_hop_neighbors d))) (\<lambda>neighbor_ids.
           cbind (subgraph_call E (JStr account_id # take MAX_SUBGRAPH_NEIGHBORS neighbor_ids) 500) (\<lambda>subgraph.
           cbind (structuring_check_call E account_id 30) (\<lambda>structuring_signal.
           cbind (if hit_matched hit
                  then cbind (clift (item hit ''entry_id'')) (get_entity_detail_call E)
                  else cret JNull) (\<lambda>detail.
           cbind (clift (as_dict subgraph)) (\<lambda>subgraph.
           cbind (clift (as_dict structuring_signal)) (\<lambda>structuring_signal.
           cbind (clift (as_dict_or_none detail)) (\<lambda>detail.
             cret (st\<lparr>iv_enrichment := Some \<lparr>ef_subgraph = subgraph,
               ef_structuring_signal = structuring_signal,
               ef_sanctions_entity_detail = detail\<rparr>\<rparr>))))))))))"

section \<open>Assessment\<close>

definition fallback_assessment :: "inv_env \<Rightarrow> investigation_state \<Rightarrow> assessment res" where
  "fallback_assessment E st =
     (case (iv_discovery st, iv_enrichment st) of
        (Some d, Some e) \<Rightarrow>
          (let hit = df_sanctions_hit d; signal = ef_structuring_signal e;
               matched = hit_matched hit; flagged = flag_set signal ''flagged''
           in bind_res (if matched then
                 bind_res (item hit ''matched_name'') (\<lambda>nm. bind_res (item hit ''score'') (\<lambda>score.
                 bind_res (ie_fixed E 0 score) (\<lambda>sc.
                   Inr [''Sanctions match: '' @ ie_repr E nm @ '' (score '' @ sc @ '')''])))
               else Inr []) (\<lambda>f1.
              bind_res (if flagged then
                 bind_res (item signal ''deposit_count'') (\<lambda>n. bind_res (item signal ''total_deposits'') (\<lambda>t.
                 bind_res (ie_fixed E 2 t) (\<lambda>tt. bind_res (item signal ''window_days'') (\<lambda>wd.
                   Inr [''Structuring signature: '' @ ie_str E n @ '' sub-threshold deposits totaling '' @
                        tt @ '' within '' @ ie_str E wd @ '' days'']))))
               else Inr []) (\<lambda>f2.
              Inr \<lparr>as_risk_level = (if matched then High else if flagged then Medium else Low),
                   as_key_findings =
                     (if f1 @ f2 = [] then
                        [''No sanctions match or structuring signal found in available evidence'']
                      else f1 @ f2),
                   as_rationale =
                     ''Deterministic fallback assessment (LLM reasoning unavailable).''\<rparr>)))
      | _ \<Rightarrow> Inl (Exn AssertionErr []))"

text \<open>The fallback takes the greater of what the two signals call for, so more evidence never lowers it.\<close>

definition signalled_risk :: "discovery_findings \<Rightarrow> enrichment_findings \<Rightarrow> risk_level" where
  "signalled_risk d e =
     max (if hit_matched (df_sanctions_hit d) then High else Low)
         (if flag_set (ef_structuring_signal e) ''flagged'' then Medium else Low)"

lemma fallback_risk:
  assumes "fallback_assessment E st = Inr a" and "iv_discovery st = Some d" and "iv_enrichment st = Some e"
  shows "as_risk_level a = signalled_risk d e"
proof -
  have "as_risk_level a =
      (if hit_matched (df_sanctions_hit d) then High else if flag_set (ef_structuring_signal e) ''flagged'' then Medium else Low)"
    using assms by (auto simp: fallback_assessment_def Let_def bind_res_eq_Inr)
  then show ?thesis by (simp add: signalled_risk_def max_def)
qed

lemma signalled_risk_mono:
  assumes "hit_matched (df_sanctions_hit d) \<Longrightarrow> hit_matched (df_sanctions_hit d')"
    and "flag_set (ef_structuring_signal e) ''flagged'' \<Longrightarrow> flag_set (ef_structuring_signal e') ''flagged''"
  shows "signalled_risk d e \<le> signalled_risk d' e'"
  unfolding signalled_risk_def using assms by (intro max.mono) auto

definition run_assessment :: "inv_env \<Rightarrow> investigation_state \<Rightarrow> assessment res" where
  "run_assessment E st =
     (if iv_discovery st = None \<or> iv_enrichment st = None then Inl (Exn AssertionErr [])
      else (case ie_assess E st of
              Inr a \<Rightarrow> Inr a
            | Inl e \<Rightarrow> if exn_kind e = LLMErr then fallback_assessment E st else Inl e))"

definition assessment_node :: "inv_env \<Rightarrow> investigation_state \<Rightarrow> investigation_state inv_act" where
  "assessment_node E st =
     cbind (clift (run_assessment E st)) (\<lambda>a. cret (st\<lparr>iv_assessment := Some a\<rparr>))"

section \<open>Recommendation\<close>

fun DISPOSITION_BY_RISK :: "risk_level \<Rightarrow> string" where
  "DISPOSITION_BY_RISK High = ''escalate''"
| "DISPOSITION_BY_RISK Medium = ''monitor''"
| "DISPOSITION_BY_RISK Low = ''cleared''"

text \<open>A tool error is kept in the recommendation; \<open>write_result\<close> has to be a dictionary.\<close>

definition attempt_write ::
    "inv_env \<Rightarrow> investigation_state \<Rightarrow> string \<Rightarrow> string \<Rightarrow> (string + json) inv_act" where
  "attempt_write E st disposition rationale w =
     (case mark_investigated_call E (at_account_id (iv_alert st)) disposition rationale w of
        (Inr r, w') \<Rightarrow> (Inr (Inr r), w')
      | (Inl e, w') \<Rightarrow> (if exn_kind e = ToolCallErr then Inr (Inl (exn_text e)) else Inl e, w'))"

definition recommendation_of :: "string \<Rightarrow> string \<Rightarrow> string + json \<Rightarrow> recommendation res" where
  "recommendation_of disposition rationale outcome =
     bind_res (case outcome of
         Inl t \<Rightarrow> Inr (None, Some t)
       | Inr r \<Rightarrow> bind_res (as_dict_or_none r) (\<lambda>r. Inr (if r = JNull then None else Some r, None)))
       (\<lambda>(res, err). Inr \<lparr>rc_disposition = disposition, rc_rationale = rationale,
          rc_write_result = res, rc_write_error = err\<rparr>)"

definition recommendation_node :: "inv_env \<Rightarrow> investigation_state \<Rightarrow> investigation_state inv_act" where
  "recommendation_node E st =
     (case iv_assessment st of
        None \<Rightarrow> cthrow (Exn AssertionErr [])
      | Some a \<Rightarrow>
          (let disposition = DISPOSITION_BY_RISK (as_risk_level a); rationale = as_rationale a in
           cbind (attempt_write E st disposition rationale) (\<lambda>outcome.
           cbind (clift (recommendation_of disposition rationale outcome)) (\<lambda>r.
             cret (st\<lparr>iv_recommendation := Some r\<rparr>)))))"

section \<open>Report\<close>

fun risk_text :: "risk_level \<Rightarrow> string" where
  "risk_text Low = ''low''" | "risk_text Medium = ''medium''" | "risk_text High = ''high''"

definition fallback_report :: "investigation_state \<Rightarrow> investigation_report res" where
  "fallback_report st =
     (case (iv_assessment st, iv_recommendation st) of
        (Some a, Some r) \<Rightarrow>
          Inr \<lparr>ir_summary = ''Account '' @ at_account_id (iv_alert st) @ '': '' @ risk_text (as_risk_level a) @
                 '' risk, recommended disposition '' @ py_repr (rc_disposition r) @ ''.'',
               ir_narrative_text = ''Narrative generation failed; falling back to a structured summary. '' @
                 ''Findings: '' @ join ''; '' (as_key_findings a) @ ''. Assessment rationale: '' @ as_rationale a,
               ir_recommended_next_steps =
                 [''Manual review recommended (automated narrative unavailable).'']\<rparr>
      | _ \<Rightarrow> Inl (Exn AssertionErr []))"

definition run_report :: "inv_env \<Rightarrow> investigation_state \<Rightarrow> investigation_report res" where
  "run_report E st =
     (if iv_assessment st = None \<or> iv_recommendation st = None then Inl (Exn AssertionErr [])
      else (case ie_report E st of
              Inr r \<Rightarrow> Inr r
            | Inl e \<Rightarrow> if exn_kind e = LLMErr then fallback_report st else Inl e))"

definition report_node :: "inv_env \<Rightarrow> investigation_state \<Rightarrow> investigation_state inv_act" where
  "report_node E st = cbind (clift (run_report E st)) (\<lambda>r. cret (st\<lparr>iv_report := Some r\<rparr>))"

section \<open>The graph\<close>

definition investigation_graph :: "inv_env \<Rightarrow> investigation_state \<Rightarrow> investigation_state inv_act" where
  "investigation_graph E st =
     cbind (discovery_node E st) (\<lambda>st.
     cbind (enrichment_node E st) (\<lambda>st.
     cbind (assessment_node E st) (\<lambda>st.
     cbind (recommendation_node E st) (\<lambda>st.
       report_node E st))))"

text \<open>\<open>seed.py\<close>: the alert an investigation starts from. The order of DuckDB's \<open>hash\<close> is a parameter.\<close>

record seed_row =
  sr_from_id :: string
  sr_to_id :: string
  sr_is_laundering :: bool

definition pick_seed_alert :: "string \<Rightarrow> (seed_row \<Rightarrow> int) \<Rightarrow> seed_row list \<Rightarrow> int \<Rightarrow> alert res" where
  "pick_seed_alert source hash rows seed =
     (let candidates = filter sr_is_laundering rows; n = length candidates in
      if n = 0 then
        Inl (Exn RuntimeErr (''no is_laundering=true transaction found under '' @ source @
          '' -- is the subsampled dataset present? See data/README.md.''))
      else
        (let row = sort_key hash candidates ! nat (seed mod int n) in
         Inr \<lparr>at_account_id = sr_from_id row, at_alert_type = ''SUSPICIOUS_WIRE'',
              at_narrative_hint = Some (''Wire activity between '' @ sr_from_id row @ '' and '' @
                sr_to_id row @ '' flagged as laundering in the labeled dataset.'')\<rparr>))"

definition run_investigation :: "inv_env \<Rightarrow> alert \<Rightarrow> investigation_state inv_act" where
  "run_investigation E a = investigation_graph E (start_state a)"

text \<open>The seed alert is always about a labeled transaction when there is one, whatever the seed.\<close>

lemma pick_seed_alert_found:
  assumes "\<exists>r \<in> set rows. sr_is_laundering r"
  shows "\<exists>a r. pick_seed_alert source hash rows seed = Inr a \<and> r \<in> set rows \<and> sr_is_laundering r \<and>
    at_account_id a = sr_from_id r"
proof -
  let ?cs = "filter sr_is_laundering rows"
  have n: "?cs \<noteq> []" using assms by (auto simp: filter_empty_conv)
  then have "nat (seed mod int (length ?cs)) < length (sort_key hash ?cs)" by (simp add: nat_less_iff)
  then have "sort_key hash ?cs ! nat (seed mod int (length ?cs)) \<in> set ?cs"
    using nth_mem by (metis set_sort)
  with n show ?thesis by (auto simp: pick_seed_alert_def Let_def)
qed

section \<open>The calls of an investigation\<close>

definition tools_of :: "inv_world \<Rightarrow> (string \<times> string) list" where
  "tools_of w = map (\<lambda>(route, tool, args). (route, tool)) (iw_calls w)"

lemma call_made: "iw_calls (snd (call_tool E route tool args u w)) = iw_calls w @ [(route, tool, args)]"
  by (simp add: call_tool_def Let_def log_call_def split: call_outcome.split)

lemma call_tools:
  assumes "call_tool E route tool args u w = (r, w')"
  shows "tools_of w' = tools_of w @ [(route, tool)]"
  using call_made [of E route tool args u w] assms by (simp add: tools_of_def)

lemmas client_calls = get_account_call_def check_entity_call_def query_transactions_call_def
  neighbors_call_def subgraph_call_def structuring_check_call_def get_entity_detail_call_def

lemma discovery_calls:
  assumes "discovery_node E st w = (Inr st', w')"
  shows "tools_of w' = tools_of w @
      [(TRANSACTION_GRAPH_ROUTE, ''get_account''), (OFAC_ROUTE, ''check_entity''),
       (TRANSACTION_GRAPH_ROUTE, ''query_transactions''), (TRANSACTION_GRAPH_ROUTE, ''neighbors'')]"
    and "\<exists>d. st' = st\<lparr>iv_discovery := Some d\<rparr>"
  using assms unfolding discovery_node_def Let_def cbind_Inr client_calls
  by (auto dest!: call_tools)

lemma enrichment_calls:
  assumes "enrichment_node E st w = (Inr st', w')"
  shows "\<exists>d e. iv_discovery st = Some d \<and> st' = st\<lparr>iv_enrichment := Some e\<rparr> \<and>
    tools_of w' = tools_of w @
      [(TRANSACTION_GRAPH_ROUTE, ''subgraph''), (TRANSACTION_GRAPH_ROUTE, ''structuring_check'')] @
      (if hit_matched (df_sanctions_hit d) then [(OFAC_ROUTE, ''get_entity_detail'')] else [])"
proof -
  from assms obtain d where d: "iv_discovery st = Some d"
    by (cases "iv_discovery st") (auto simp: enrichment_node_def cthrow_def)
  show ?thesis
  proof (cases "hit_matched (df_sanctions_hit d)")
    case True
    from assms show ?thesis
      unfolding enrichment_node_def Let_def d option.case cbind_Inr client_calls if_P [OF True]
      by (auto dest!: call_tools simp: d cbind_Inr True)
  next
    case False
    from assms show ?thesis
      unfolding enrichment_node_def Let_def d option.case cbind_Inr client_calls if_not_P [OF False]
      by (auto dest!: call_tools simp: d False)
  qed
qed

lemma assessment_quiet:
  assumes "assessment_node E st w = (Inr st', w')"
  shows "w' = w \<and> (\<exists>a. st' = st\<lparr>iv_assessment := Some a\<rparr>)"
  using assms by (auto simp: assessment_node_def cbind_Inr)

lemma report_quiet:
  assumes "report_node E st w = (Inr st', w')"
  shows "w' = w \<and> (\<exists>r. st' = st\<lparr>iv_report := Some r\<rparr>)"
  using assms by (auto simp: report_node_def cbind_Inr)

text \<open>The one write: its arguments, and a disposition the server accepts.\<close>

definition write_args :: "investigation_state \<Rightarrow> recommendation \<Rightarrow> json" where
  "write_args st r = JObj [(''account_id'', JStr (at_account_id (iv_alert st))),
     (''disposition'', JStr (rc_disposition r)), (''rationale'', JStr (rc_rationale r))]"

lemma disposition_valid: "DISPOSITION_BY_RISK x \<in> set VALID_DISPOSITIONS"
  by (cases x) (simp_all add: VALID_DISPOSITIONS_def)

lemma attempt_write_call:
  "iw_calls (snd (attempt_write E st d r w)) = iw_calls w @ [(TRANSACTION_GRAPH_ROUTE, ''mark_investigated'',
     JObj [(''account_id'', JStr (at_account_id (iv_alert st))), (''disposition'', JStr d), (''rationale'', JStr r)])]"
  using call_made [of E TRANSACTION_GRAPH_ROUTE "''mark_investigated''"]
  by (auto simp: attempt_write_def mark_investigated_call_def split: prod.split sum.split) (metis snd_conv)+

lemma recommendation_fields:
  "recommendation_of d r out = Inr x \<Longrightarrow> rc_disposition x = d \<and> rc_rationale x = r"
  by (auto simp: recommendation_of_def bind_res_eq_Inr)

lemma recommendation_call:
  assumes "recommendation_node E st w = (Inr st', w')"
  shows "\<exists>a r. iv_assessment st = Some a \<and> st' = st\<lparr>iv_recommendation := Some r\<rparr> \<and>
    rc_disposition r = DISPOSITION_BY_RISK (as_risk_level a) \<and>
    iw_calls w' = iw_calls w @ [(TRANSACTION_GRAPH_ROUTE, ''mark_investigated'', write_args st r)]"
proof -
  from assms obtain a where a: "iv_assessment st = Some a"
    by (cases "iv_assessment st") (auto simp: recommendation_node_def cthrow_def)
  with assms obtain out r where
    w: "attempt_write E st (DISPOSITION_BY_RISK (as_risk_level a)) (as_rationale a) w = (Inr out, w')"
    and r: "recommendation_of (DISPOSITION_BY_RISK (as_risk_level a)) (as_rationale a) out = Inr r"
      "st' = st\<lparr>iv_recommendation := Some r\<rparr>"
    by (auto simp: recommendation_node_def Let_def cbind_Inr)
  from attempt_write_call [of E st "DISPOSITION_BY_RISK (as_risk_level a)" "as_rationale a" w] w
    recommendation_fields [OF r(1)] a r(2) show ?thesis
    by (intro exI [of _ a] exI [of _ r]) (simp add: write_args_def)
qed

lemma investigation_calls:
  assumes "run_investigation E al w = (Inr st, w')"
  shows "\<exists>d a r. iv_discovery st = Some d \<and> iv_assessment st = Some a \<and> iv_recommendation st = Some r \<and>
    iv_report st \<noteq> None \<and> rc_disposition r = DISPOSITION_BY_RISK (as_risk_level a) \<and>
    tools_of w' = tools_of w @
      [(TRANSACTION_GRAPH_ROUTE, ''get_account''), (OFAC_ROUTE, ''check_entity''),
       (TRANSACTION_GRAPH_ROUTE, ''query_transactions''), (TRANSACTION_GRAPH_ROUTE, ''neighbors''),
       (TRANSACTION_GRAPH_ROUTE, ''subgraph''), (TRANSACTION_GRAPH_ROUTE, ''structuring_check'')] @
      (if hit_matched (df_sanctions_hit d) then [(OFAC_ROUTE, ''get_entity_detail'')] else []) @
      [(TRANSACTION_GRAPH_ROUTE, ''mark_investigated'')] \<and>
    (\<exists>cs. iw_calls w' = cs @ [(TRANSACTION_GRAPH_ROUTE, ''mark_investigated'', write_args (start_state al) r)])"
proof -
  from assms obtain s1 w1 s2 w2 s3 w3 s4 w4 where
    n: "discovery_node E (start_state al) w = (Inr s1, w1)" "enrichment_node E s1 w1 = (Inr s2, w2)"
      "assessment_node E s2 w2 = (Inr s3, w3)" "recommendation_node E s3 w3 = (Inr s4, w4)"
      "report_node E s4 w4 = (Inr st, w')"
    by (auto simp: run_investigation_def investigation_graph_def cbind_Inr)
  note facts = discovery_calls [OF n(1)] enrichment_calls [OF n(2)] assessment_quiet [OF n(3)]
    recommendation_call [OF n(4)] report_quiet [OF n(5)]
  from facts obtain d e a r rp where
    s: "s1 = (start_state al)\<lparr>iv_discovery := Some d\<rparr>" "s2 = s1\<lparr>iv_enrichment := Some e\<rparr>"
      "w3 = w2" "s3 = s2\<lparr>iv_assessment := Some a\<rparr>" "s4 = s3\<lparr>iv_recommendation := Some r\<rparr>"
      "w' = w4" "st = s4\<lparr>iv_report := Some rp\<rparr>"
      "rc_disposition r = DISPOSITION_BY_RISK (as_risk_level a)"
      "iw_calls w4 = iw_calls w3 @ [(TRANSACTION_GRAPH_ROUTE, ''mark_investigated'', write_args s3 r)]"
    and d: "iv_discovery s1 = Some d"
    by auto
  have "write_args s3 r = write_args (start_state al) r" by (simp add: write_args_def s)
  then show ?thesis
    using facts(1,3) s d by (auto simp: tools_of_def)
qed

end
