(* ===== verification/LlmClient.thy ===== *)
theory LlmClient
  imports PyJson
begin

text \<open>
  \<open>control_plane/llm.py\<close>: the strict form of a JSON schema, and a structured generation with its
  errors. The service and pydantic's validation are parameters.
\<close>

definition with_no_extra :: "(string, json) dict \<Rightarrow> (string, json) dict" where
  "with_no_extra kvs =
     (if map_of kvs ''type'' = Some (JStr ''object'')
      then dict_set ''additionalProperties'' (JBool False) kvs else kvs)"

text \<open>\<open>_strict_schema\<close>: neither update of the loop touches the key of the other.\<close>

lemma member_size: "(k, v) \<in> set ps \<Longrightarrow> size v < Suc (size_list (size_prod (\<lambda>x. 0) size) ps)"
  by (induction ps) auto

lemma map_of_size:
  assumes "map_of kvs k = Some (JObj ps)" and "(n, v) \<in> set ps"
  shows "size v < Suc (size_list (size_prod (\<lambda>x. 0) size) kvs)"
proof -
  have "size (JObj ps) < Suc (size_list (size_prod (\<lambda>x. 0) size) kvs)"
    by (rule member_size [OF map_of_SomeD [OF assms(1)]])
  moreover have "size v < size (JObj ps)" using member_size [OF assms(2)] by simp
  ultimately show ?thesis by simp
qed

definition items :: "json option \<Rightarrow> (string \<times> json) list res" where
  "items v = (case v of None \<Rightarrow> Inr []
     | Some (JObj ps) \<Rightarrow> Inr ps
     | Some j \<Rightarrow> Inl (Exn AttributeErr ''items''))"

definition put :: "string \<Rightarrow> (string, json) dict \<Rightarrow> (string \<times> json) list \<Rightarrow> (string, json) dict" where
  "put k kvs ps = (if map_of kvs k = None then kvs else dict_set k (JObj ps) kvs)"

lemma items_member: "items (map_of kvs k) = Inr ps \<Longrightarrow> (n, v) \<in> set ps \<Longrightarrow>
    size v < Suc (size_list (size_prod (\<lambda>x. 0) size) kvs)"
  using map_of_size [of kvs k] by (auto simp: items_def split: option.splits json.splits)

lemma bind_res_cong [fundef_cong]:
  "r = r' \<Longrightarrow> (\<And>a. r' = Inr a \<Longrightarrow> f a = g a) \<Longrightarrow> bind_res r f = bind_res r' g"
  by (cases r') auto

function strict_schema :: "json \<Rightarrow> json res" where
  "strict_schema (JObj kvs) =
     bind_res (items (map_of kvs ''properties'')) (\<lambda>ps0.
     bind_res (map_res (\<lambda>(k, v). bind_res (strict_schema v) (\<lambda>v'. Inr (k, v'))) ps0) (\<lambda>ps.
     bind_res (items (map_of kvs ''$defs'')) (\<lambda>ds0.
     bind_res (map_res (\<lambda>(k, v). bind_res (strict_schema v) (\<lambda>v'. Inr (k, v'))) ds0) (\<lambda>ds.
       Inr (JObj (put ''$defs'' (put ''properties'' (with_no_extra kvs) ps) ds))))))"
| "strict_schema JNull = Inl (Exn AttributeErr ''get'')"
| "strict_schema (JBool b) = Inl (Exn AttributeErr ''get'')"
| "strict_schema (JInt i) = Inl (Exn AttributeErr ''get'')"
| "strict_schema (JFloat f) = Inl (Exn AttributeErr ''get'')"
| "strict_schema (JStr t) = Inl (Exn AttributeErr ''get'')"
| "strict_schema (JList xs) = Inl (Exn AttributeErr ''get'')"
  by pat_completeness auto
termination
  by (relation "measure size") (auto dest: items_member)

text \<open>Closed to extra properties, at every object reached through properties and definitions.\<close>

inductive closed_schema :: "json \<Rightarrow> bool" where
  "(map_of kvs ''type'' = Some (JStr ''object'') \<Longrightarrow>
      map_of kvs ''additionalProperties'' = Some (JBool False)) \<Longrightarrow>
   (\<And>k ps n v. k \<in> {''properties'', ''$defs''} \<Longrightarrow> map_of kvs k = Some (JObj ps) \<Longrightarrow>
      (n, v) \<in> set ps \<Longrightarrow> closed_schema v) \<Longrightarrow>
   closed_schema (JObj kvs)"

lemma map_of_put: "map_of (put k kvs ps) x =
    (if x = k \<and> map_of kvs k \<noteq> None then Some (JObj ps) else map_of kvs x)"
  by (simp add: put_def)

lemma map_of_no_extra: "x \<noteq> ''additionalProperties'' \<Longrightarrow> map_of (with_no_extra kvs) x = map_of kvs x"
  by (simp add: with_no_extra_def)

lemma strict_members:
  assumes "map_res (\<lambda>(k, v). bind_res (strict_schema v) (\<lambda>v'. Inr (k, v'))) ps0 = Inr ps"
    and "(n, v) \<in> set ps"
  shows "\<exists>u. (n, u) \<in> set ps0 \<and> strict_schema u = Inr v"
  using assms
proof (induction ps0 arbitrary: ps)
  case (Cons p ps0)
  then show ?case by (cases p) (fastforce simp: bind_res_eq_Inr)
qed simp

lemma strict_schema_closed: "strict_schema j = Inr j' \<Longrightarrow> closed_schema j'"
proof (induction j arbitrary: j' rule: strict_schema.induct)
  case (1 kvs)
  from "1.prems" obtain ps0 ps ds0 ds where
    p: "items (map_of kvs ''properties'') = Inr ps0"
      "map_res (\<lambda>(k, v). bind_res (strict_schema v) (\<lambda>v'. Inr (k, v'))) ps0 = Inr ps"
    and d: "items (map_of kvs ''$defs'') = Inr ds0"
      "map_res (\<lambda>(k, v). bind_res (strict_schema v) (\<lambda>v'. Inr (k, v'))) ds0 = Inr ds"
    and j': "j' = JObj (put ''$defs'' (put ''properties'' (with_no_extra kvs) ps) ds)"
    by (auto simp: bind_res_eq_Inr)
  have ps: "closed_schema v" if v: "(n, v) \<in> set ps" for n v
  proof -
    obtain u where u: "(n, u) \<in> set ps0" "strict_schema u = Inr v" using strict_members [OF p(2) v] by blast
    show ?thesis by (rule "1.IH"(1) [OF p(1) u(1) refl u(2)])
  qed
  have ds: "closed_schema v" if v: "(n, v) \<in> set ds" for n v
  proof -
    obtain u where u: "(n, u) \<in> set ds0" "strict_schema u = Inr v" using strict_members [OF d(2) v] by blast
    show ?thesis by (rule "1.IH"(2) [OF p(1) p(2) d(1) u(1) refl u(2)])
  qed
  show ?case
    unfolding j'
  proof (rule closed_schema.intros)
    show "map_of (put ''$defs'' (put ''properties'' (with_no_extra kvs) ps) ds) ''type'' = Some (JStr ''object'') \<Longrightarrow>
        map_of (put ''$defs'' (put ''properties'' (with_no_extra kvs) ps) ds) ''additionalProperties'' = Some (JBool False)"
      by (simp add: map_of_put map_of_no_extra) (simp add: with_no_extra_def)
  next
    fix k qs n v
    assume "k \<in> {''properties'', ''$defs''}" "(n, v) \<in> set qs"
      "map_of (put ''$defs'' (put ''properties'' (with_no_extra kvs) ps) ds) k = Some (JObj qs)"
    then show "closed_schema v"
      using ps ds by (auto simp: map_of_put map_of_no_extra split: if_splits)
  qed
qed simp_all

section \<open>Structured generation\<close>

text \<open>\<open>complete\<close> is the request to the service, returning the content of each choice; \<open>validate\<close> is
  \<open>model_validate_json\<close>, whose \<open>ValidationError\<close> is a \<open>ValueError\<close>.\<close>

definition generate_structured ::
    "string \<Rightarrow> json \<Rightarrow> (json \<Rightarrow> string option list res) \<Rightarrow> (string option \<Rightarrow> 'a res) \<Rightarrow>
     (string option \<Rightarrow> string) \<Rightarrow> 'a res" where
  "generate_structured groq_api_key schema complete validate repr =
     (if groq_api_key = [] then Inl (Exn LLMErr ''GROQ_API_KEY is not configured'')
      else bind_res (strict_schema schema) (\<lambda>strict.
        (case complete strict of
           Inl e \<Rightarrow> Inl (Exn LLMErr (''LLM request failed: '' @ exn_text e))
         | Inr [] \<Rightarrow> Inl (Exn IndexErr ''list index out of range'')
         | Inr (raw # _) \<Rightarrow>
             (case validate raw of
                Inr a \<Rightarrow> Inr a
              | Inl e \<Rightarrow>
                  if exn_kind e = ValueErr
                  then Inl (Exn LLMErr (''LLM output failed schema validation: '' @ exn_text e @
                         [char_of (10 :: nat)] @ ''raw='' @ repr raw))
                  else Inl e))))"

text \<open>A failed request or an invalid output is an \<open>LLMError\<close>; a reply without choices is not.\<close>

lemma generate_structured_error:
  assumes "strict_schema schema = Inr s" and "\<And>r e. validate r = Inl e \<Longrightarrow> exn_kind e = ValueErr"
    and "generate_structured key schema complete validate rp = Inl e"
  shows "exn_kind e = LLMErr \<or> complete s = Inr [] \<and> exn_kind e = IndexErr"
  using assms by (auto simp: generate_structured_def split: if_splits sum.splits list.splits)

lemma reply_without_choices:
  assumes "strict_schema schema = Inr s" and "key \<noteq> []" and "complete s = Inr []"
  shows "\<exists>e. generate_structured key schema complete validate rp = Inl e \<and> exn_kind e \<noteq> LLMErr"
  using assms by (simp add: generate_structured_def)

end
