(* ===== verification/SampleServers.thy ===== *)
theory SampleServers
  imports TransactionGraphProps OfacProps AmlInvestigator LlmClient
begin

text \<open>A small transaction graph, a sanctions list of one entry, an investigation.\<close>

definition sample_txn :: "string \<Rightarrow> string \<Rightarrow> rat \<Rightarrow> txn_row" where
  "sample_txn a b amount =
     \<lparr>tr_timestamp = 0, tr_from_id = a, tr_to_id = b, tr_amount_received = amount,
      tr_receiving_currency = ''USD'', tr_amount_paid = amount, tr_payment_currency = ''USD'',
      tr_payment_format = ''Wire'', tr_is_laundering = 0\<rparr>"

definition sample_store :: graph_store where
  "sample_store =
     build_store [sample_txn ''a'' ''b'' 600, sample_txn ''c'' ''b'' 500, sample_txn ''c'' ''d'' 7] []
       1000 2 3 id id (\<lambda>n x. ''0.00'')"

lemma sample_store_simps [simp]:
  "gs_transactions sample_store = [sample_txn ''a'' ''b'' 600, sample_txn ''c'' ''b'' 500, sample_txn ''c'' ''d'' 7]"
  "gs_small_deposit_threshold sample_store = 1000" "gs_min_structuring_deposits sample_store = 2"
  by (simp_all add: sample_store_def build_store_def)

lemma sample_txn_simps [simp]:
  "tr_to_id (sample_txn a b x) = b" "tr_from_id (sample_txn a b x) = a"
  "tr_amount_received (sample_txn a b x) = x" "tr_timestamp (sample_txn a b x) = 0"
  by (simp_all add: sample_txn_def)

lemma sample_orders: "orders_ok sample_store"
  by (simp add: orders_ok_def sample_store_def build_store_def)

lemma sample_flagged: "ss_flagged (structuring_check sample_store ''b'' 30)"
  by (simp add: structuring_check_def in_window_def days_delta_def Let_def)

definition sample_sdn :: string where
  "sample_sdn = ''36,AEROCARIBBEAN AIRLINES,-0- ,CUBA] [SDGT,-0- ,-0- ,-0- ,-0- ,-0- ,-0- ,-0- ,-0- ''"

definition sample_alt :: string where
  "sample_alt = ''36,12,aka,AERO-CARIBBEAN,-0- ''"

definition sample_matcher :: matcher where
  "sample_matcher =
     \<lparr>fz_extract_one = (\<lambda>q ns. case ns of [] \<Rightarrow> None | n # _ \<Rightarrow> Some (n, 90)),
      fz_extract = (\<lambda>q ns k. map (\<lambda>n. (n, 50)) (take k ns))\<rparr>"

lemma sample_matcher_ok: "matcher_ok sample_matcher"
  by (auto simp: matcher_ok_def sample_matcher_def image_image split: list.splits dest: in_set_takeD)

definition sample_sdn_entry :: sdn_entry where
  "sample_sdn_entry = \<lparr>sdn_ent_num = ''36'', sdn_name = ''AEROCARIBBEAN AIRLINES'', sdn_type = ''entity'',
     sdn_programs = [''CUBA'', ''SDGT''], sdn_remarks = [], sdn_aliases = [''AERO-CARIBBEAN'']\<rparr>"

lemma sample_index: "build_index sample_sdn sample_alt = Inr (index_of_entries [(''36'', sample_sdn_entry)])"
  by code_simp

text \<open>An investigation whose write is denied and whose language model is down.\<close>

definition sample_answer :: "json \<Rightarrow> call_outcome" where
  "sample_answer j = Answered \<lparr>tr_is_error = False, tr_content = [], tr_structured = j\<rparr>"

definition sample_inv_env :: inv_env where
  "sample_inv_env =
     \<lparr>ie_call = (\<lambda>n route tool args.
        if tool = ''get_account'' then sample_answer (JObj [(''entity_name'', JStr ''ACME'')])
        else if tool = ''check_entity'' then sample_answer (JObj [(''result'', JNull)])
        else if tool = ''query_transactions'' \<or> tool = ''neighbors''
        then sample_answer (JObj [(''result'', JList [])])
        else if tool = ''mark_investigated'' then McpError ''policy_denied'' ''{}''
        else sample_answer (JObj [])),
      ie_repr = (\<lambda>j. ''...''), ie_str = (\<lambda>j. ''...''), ie_fixed = (\<lambda>n j. Inr ''0''),
      ie_assess = (\<lambda>st. Inl (Exn LLMErr ''down'')), ie_report = (\<lambda>st. Inl (Exn LLMErr ''down''))\<rparr>"

definition sample_alert :: alert where
  "sample_alert = \<lparr>at_account_id = ''a'', at_alert_type = ''SUSPICIOUS_WIRE'', at_narrative_hint = None\<rparr>"

lemma sample_investigation:
  "\<exists>st w'. run_investigation sample_inv_env sample_alert \<lparr>iw_call_log = [], iw_calls = []\<rparr> = (Inr st, w') \<and>
     length (iw_calls w') = 7"
proof -
  have "(case run_investigation sample_inv_env sample_alert \<lparr>iw_call_log = [], iw_calls = []\<rparr> of
      (Inl e, w') \<Rightarrow> False | (Inr st, w') \<Rightarrow> length (iw_calls w') = 7)" by code_simp
  then show ?thesis by (auto split: prod.splits sum.splits)
qed

end
