(* ===== verification/ReviewCli.thy ===== *)
theory ReviewCli
  imports AuditStore AuditVerify HitlProps TimeArith
begin

text \<open>
  The commands of \<open>cli/main.py\<close>: what they print, line by line, and their exit code. The parsing of
  a date (\<open>date.fromisoformat\<close>) and the printing of a creation time are parameters.
\<close>

type_synonym cli = "string list \<times> nat"

text \<open>\<open>verify-audit\<close>\<close>

definition iso_date :: "nat \<times> nat \<times> nat \<Rightarrow> string" where
  "iso_date d = (case d of (y, m, dd) \<Rightarrow> pad0 4 y @ ''-'' @ pad0 2 m @ ''-'' @ pad0 2 dd)"

definition cutoff_of :: "nat \<times> nat \<times> nat \<Rightarrow> datetime" where
  "cutoff_of d = (case d of (y, m, dd) \<Rightarrow>
     \<lparr>dt_year = y, dt_month = m, dt_day = dd, dt_hour = 0, dt_minute = 0, dt_second = 0, dt_micro = 0,
      dt_offset = 0\<rparr>)"

definition in_scope :: "nat \<times> nat \<times> nat \<Rightarrow> audit_entry list \<Rightarrow> nat" where
  "in_scope d entries =
     length (filter (\<lambda>e. instant (ae_timestamp e) \<ge> instant (cutoff_of d)) entries)"

definition report_audit :: "(nat \<times> nat \<times> nat) option \<Rightarrow> audit_entry list \<Rightarrow> cli res" where
  "report_audit since_date entries =
     (if entries = [] then Inr ([''No audit entries found.''], 0)
      else bind_res (verify_chain entries) (\<lambda>r.
        if \<not> vr_valid r then
          Inr ([''FAILED: chain integrity broken at entry id='' @
                  (case vr_first_mismatch_id r of None \<Rightarrow> ''None'' | Some i \<Rightarrow> show_int i) @ ''.'',
                (case vr_detail r of None \<Rightarrow> [] | Some d \<Rightarrow> d),
                ''Verified '' @ show_nat (vr_checked r) @ '' of '' @ show_nat (length entries) @
                  '' entries before the break.''], 1)
        else
          Inr ((''OK: chain intact. '' @ show_nat (vr_checked r) @ '' entries verified from genesis.'') #
               (case since_date of None \<Rightarrow> []
                | Some d \<Rightarrow> [show_nat (in_scope d entries) @ '' of those entries are at or after '' @
                              iso_date d @ ''.'']), 0)))"

definition verify_audit ::
    "(string \<Rightarrow> (nat \<times> nat \<times> nat) res) \<Rightarrow> string option \<Rightarrow> audit_table \<Rightarrow> cli res" where
  "verify_audit fromisoformat since tb =
     (case since of
        None \<Rightarrow> report_audit None (fetch_all_entries tb)
      | Some t \<Rightarrow>
          (case fromisoformat t of
             Inr d \<Rightarrow> report_audit (Some d) (fetch_all_entries tb)
           | Inl e \<Rightarrow>
               if exn_kind e = ValueErr
               then Inr ([''invalid --since value '' @ py_repr t @ '', expected YYYY-MM-DD: '' @ exn_text e], 2)
               else Inl e))"

text \<open>\<open>review list\<close>, \<open>review approve\<close> and \<open>review deny\<close>\<close>

definition ticket_line :: "(string \<Rightarrow> string res) \<Rightarrow> hitl_ticket \<Rightarrow> string res" where
  "ticket_line iso_of_time t =
     bind_res (iso_of_time (tk_created_at t)) (\<lambda>created.
       Inr (tk_ticket_id t @ ''  server='' @ tk_server t @ '' tool='' @ tk_tool t @ '' agent='' @
            tk_agent_id t @ '' reviewer_group='' @ tk_reviewer_group t @ '' created_at='' @ created))"

definition review_list ::
    "'s redis \<Rightarrow> (string \<Rightarrow> string res) \<Rightarrow> (string \<Rightarrow> string) \<Rightarrow> (string \<Rightarrow> string res) \<Rightarrow> 's \<Rightarrow> cli res \<times> 's"
where
  "review_list R fl fr iso_of_time s =
     (case list_pending R fl fr s of
        (Inl e, s') \<Rightarrow> (Inl e, s')
      | (Inr tickets, s') \<Rightarrow>
          (if tickets = [] then Inr ([''No pending tickets.''], 0)
           else bind_res (map_res (ticket_line iso_of_time) tickets) (\<lambda>ls. Inr (ls, 0)), s'))"

definition opt_text :: "string option \<Rightarrow> string" where
  "opt_text x = (case x of None \<Rightarrow> ''None'' | Some s \<Rightarrow> s)"

definition opt_repr :: "string option \<Rightarrow> string" where
  "opt_repr x = (case x of None \<Rightarrow> ''None'' | Some s \<Rightarrow> py_repr s)"

definition review_decide ::
    "'s redis \<Rightarrow> (string \<Rightarrow> string res) \<Rightarrow> (string \<Rightarrow> string) \<Rightarrow> string \<Rightarrow> string \<Rightarrow> string \<Rightarrow> string \<Rightarrow>
     string \<Rightarrow> 's \<Rightarrow> cli res \<times> 's" where
  "review_decide R fl fr now ticket_id status reviewer rationale s =
     (case decide_ticket R fl fr now ticket_id status reviewer rationale s of
        (Inl e, s') \<Rightarrow> (Inl e, s')
      | (Inr None, s') \<Rightarrow>
          (Inr ([''No such ticket: '' @ ticket_id @ '' (already expired, or never existed).''], 1), s')
      | (Inr (Some (ticket, applied)), s') \<Rightarrow>
          (Inr (if \<not> applied then
                  ([''Ticket '' @ ticket_id @ '' was already decided: '' @ tk_status ticket @ '' by '' @
                    opt_text (tk_decided_by ticket) @ '' ('' @ opt_repr (tk_rationale ticket) @
                    ''). Not overwritten.''], 1)
                else ([''Ticket '' @ ticket_id @ '': '' @ tk_status ticket @ '' by '' @ reviewer @ ''.''], 0)),
           s'))"

definition review_approve ::
    "'s redis \<Rightarrow> (string \<Rightarrow> string res) \<Rightarrow> (string \<Rightarrow> string) \<Rightarrow> string \<Rightarrow> string \<Rightarrow> string \<Rightarrow> string \<Rightarrow>
     's \<Rightarrow> cli res \<times> 's" where
  "review_approve R fl fr now ticket_id reviewer rationale =
     review_decide R fl fr now ticket_id ''APPROVED'' reviewer rationale"

definition review_deny ::
    "'s redis \<Rightarrow> (string \<Rightarrow> string res) \<Rightarrow> (string \<Rightarrow> string) \<Rightarrow> string \<Rightarrow> string \<Rightarrow> string \<Rightarrow> string \<Rightarrow>
     's \<Rightarrow> cli res \<times> 's" where
  "review_deny R fl fr now ticket_id reviewer rationale =
     review_decide R fl fr now ticket_id ''DENIED'' reviewer rationale"

section \<open>Exit codes\<close>

lemma report_audit_exit:
  "\<exists>ls. report_audit d es = Inr (ls, if audit_linked GENESIS_HASH es then 0 else 1)"
proof (cases "audit_linked GENESIS_HASH es")
  case True
  then show ?thesis
    using verify_from_valid [OF True, of 0] by (simp add: report_audit_def verify_chain_def)
next
  case False
  then have "es \<noteq> []" by auto
  with False verify_from_invalid [OF False, of 0] show ?thesis
    by (auto simp: report_audit_def verify_chain_def)
qed

lemma review_decide_exit:
  assumes "review_decide R fl fr now i st who why s = (Inr (ls, code), s')"
  shows "code = 0 \<longleftrightarrow> (\<exists>t. decide_ticket R fl fr now i st who why s = (Inr (Some (t, True)), s'))"
    and "code \<noteq> 0 \<Longrightarrow> s' = s"
  using assms
  by (auto simp: review_decide_def decide_ticket_def split: prod.splits sum.splits option.splits
      decide_plan.splits)

lemma decide_applied:
  assumes "decide_ticket R fl fr now i st who why s = (Inr (Some (t, True)), s')"
  obtains t0 where "get_ticket R fl fr i s = Inr (Some t0)" "tk_status t0 = ''PENDING''"
    "t = decided now st who why t0"
  using assms
  by (auto simp: decide_ticket_def decide_read_def get_ticket_def decided_def bind_res_eq_Inr
      split: prod.splits sum.splits decide_plan.splits if_splits)

lemma review_applied:
  assumes laws: "redis_laws R" and fits: "\<And>t. get_ticket R fl fr i s = Inr (Some t) \<Longrightarrow> ticket_ok fl fr (decided now st who why t)"
    and run: "review_decide R fl fr now i st who why s = (Inr (ls, 0), s')"
  shows "\<exists>t. get_ticket R fl fr i s = Inr (Some t) \<and> tk_status t = ''PENDING'' \<and>
    get_ticket R fl fr i s' = Inr (Some (ticket_norm (decided now st who why t)))"
proof -
  obtain t where d: "decide_ticket R fl fr now i st who why s = (Inr (Some (t, True)), s')"
    using review_decide_exit(1) [OF run] by auto
  obtain t0 where t: "get_ticket R fl fr i s = Inr (Some t0)" "tk_status t0 = ''PENDING''"
    using d by (rule decide_applied)
  from decide_pending(2) [OF laws t fits [OF t(1)] d] t show ?thesis by blast
qed

end
