(* ===== verification/Telemetry.thy ===== *)
theory Telemetry
  imports Complex_Main "HOL-Library.Multiset" TimeArith PyJson
begin

text \<open>
  The synthetic telemetry of \<open>src/src/interpose/analytics/generate_synthetic_telemetry.py\<close>: the
  fleet of servers and tools, the hour buckets and how many rows each gets, the columns of a
  row, the attack, and the frame that is written.

  A Spark data frame is a list of rows. What Spark computes and the job cannot see is a parameter:
  the columns \<open>rand(seed)\<close>, \<open>randn(seed)\<close> and \<open>uuid()\<close>, by the position of the row, and
  \<open>cos\<close>, \<open>exp\<close> and \<open>log\<close>. Doubles are rational numbers, so a comparison
  at a threshold may differ in the last bit. The columns \<open>decision\<close>, \<open>policies_fired\<close> and
  \<open>tokens\<close>, which are written as JSON text and parsed field by field by the aggregation, are records;
  \<open>tags\<close>, which the aggregation takes apart as text, is text.
\<close>

section \<open>What Spark provides\<close>

record column_fns =
  cf_rand :: "int \<Rightarrow> nat \<Rightarrow> rat"
  cf_randn :: "int \<Rightarrow> nat \<Rightarrow> rat"
  cf_uuid :: "string \<Rightarrow> nat \<Rightarrow> string"
  cf_cos :: "rat \<Rightarrow> rat"
  cf_exp :: "rat \<Rightarrow> rat"
  cf_log :: "rat \<Rightarrow> rat"

text \<open>\<open>cast("int")\<close> and \<open>cast("long")\<close> of a double truncate; \<open>round\<close> rounds half away from zero.\<close>

definition cast_long :: "rat \<Rightarrow> int" where
  "cast_long x = (if 0 \<le> x then \<lfloor>x\<rfloor> else \<lceil>x\<rceil>)"

definition round_half_up :: "rat \<Rightarrow> int" where
  "round_half_up x = (if 0 \<le> x then \<lfloor>x + 1 / 2\<rfloor> else \<lceil>x - 1 / 2\<rceil>)"

section \<open>The fleet\<close>

definition TELEMETRY_SEED :: int where "TELEMETRY_SEED = 42"

definition TARGET_ROWS :: nat where "TARGET_ROWS = 10000000"

definition NUM_AGENTS :: nat where "NUM_AGENTS = 500"

definition NUM_WEEKS :: nat where "NUM_WEEKS = 4"

definition START_DATE :: "nat \<times> nat \<times> nat" where "START_DATE = (2026, 7, 6)"

definition NUM_DAYS :: nat where "NUM_DAYS = NUM_WEEKS * 7"

definition REAL_SERVERS :: "(string, string list) dict" where
  "REAL_SERVERS =
     [(''ofac-sanctions'', [''check_entity'', ''check_alias'', ''get_entity_detail'']),
      (''transaction-graph'',
       [''query_transactions'', ''get_account'', ''neighbors'', ''subgraph'', ''structuring_check'',
        ''mark_investigated''])]"

definition NUM_GENERIC_SERVERS :: nat where "NUM_GENERIC_SERVERS = 18"

definition GENERIC_TOOLS_TARGET :: nat where
  "GENERIC_TOOLS_TARGET = 100 - sum_list (map (length \<circ> snd) REAL_SERVERS)"

text \<open>Zero padding to a width: \<open>{i:02d}\<close> and \<open>%04d\<close>.\<close>

definition pad_zeros :: "nat \<Rightarrow> nat \<Rightarrow> string" where
  "pad_zeros w n = replicate (w - length (show_nat n)) (CHR ''0'') @ show_nat n"

definition GENERIC_SERVERS :: "(string, string list) dict" where
  "GENERIC_SERVERS =
     map (\<lambda>i. (''server-'' @ pad_zeros 2 i,
            map (\<lambda>j. ''tool_'' @ pad_zeros 2 i @ ''_'' @ show_nat j)
              [0..<GENERIC_TOOLS_TARGET div NUM_GENERIC_SERVERS
                 + (if i < GENERIC_TOOLS_TARGET mod NUM_GENERIC_SERVERS then 1 else 0)]))
       [0..<NUM_GENERIC_SERVERS]"

definition ALL_SERVERS :: "(string, string list) dict" where
  "ALL_SERVERS = dict_of_pairs (REAL_SERVERS @ GENERIC_SERVERS)"

definition SERVER_TOOL_PAIRS :: "(string \<times> string) list" where
  "SERVER_TOOL_PAIRS = concat (map (\<lambda>(server, tools). map (\<lambda>tool. (server, tool)) tools) ALL_SERVERS)"

definition INCIDENT_WINDOWS :: "(nat \<times> nat \<times> nat) list" where
  "INCIDENT_WINDOWS = map (\<lambda>(day_offset, hour). (day_offset, hour, 2)) [(5, 14), (13, 3), (22, 20)]"

definition ATTACK_DAY_OFFSET :: nat where "ATTACK_DAY_OFFSET = 18"

definition ATTACK_HOUR :: nat where "ATTACK_HOUR = 2"

definition ATTACK_AGENT_INDEX :: nat where "ATTACK_AGENT_INDEX = 217"

definition ATTACK_SERVER :: string where "ATTACK_SERVER = ''ofac-sanctions''"

definition ATTACK_TOOL :: string where "ATTACK_TOOL = ''check_entity''"

definition ATTACK_CALL_COUNT :: nat where "ATTACK_CALL_COUNT = 5000"

definition BASELINE_DENY_RATE :: rat where "BASELINE_DENY_RATE = 10 / 100"

definition INCIDENT_DENY_RATE :: rat where "INCIDENT_DENY_RATE = 55 / 100"

definition HITL_APPROVED_RATE :: rat where "HITL_APPROVED_RATE = 6 / 100"

definition HITL_DENIED_RATE :: rat where "HITL_DENIED_RATE = 2 / 100"

definition UPSTREAM_ERROR_RATE :: rat where "UPSTREAM_ERROR_RATE = 2 / 100"

definition HITL_REVIEWERS :: "string list" where
  "HITL_REVIEWERS = [''alice'', ''bob'', ''carol'', ''dave'']"

definition COST_BEARING_ROW_FRACTION :: rat where "COST_BEARING_ROW_FRACTION = 15 / 100"

section \<open>Hour buckets\<close>

text \<open>\<open>math.pi\<close>, the double.\<close>

definition math_pi :: rat where
  "math_pi = 884279719003555 / 281474976710656"

definition hour_weight :: "column_fns \<Rightarrow> nat \<Rightarrow> rat" where
  "hour_weight C hour =
     (let phase = (of_nat hour - 13) / 24 * (2 * math_pi)
      in 15 / 100 + 85 / 100 * ((cf_cos C phase + 1) / 2))"

definition day_weight :: "nat \<Rightarrow> rat" where
  "day_weight day_offset = (let dow = day_offset mod 7 in if 5 \<le> dow then 4 / 10 else 1)"

record hour_bucket =
  hb_day_offset :: nat
  hb_hour :: nat
  hb_in_incident_window :: bool
  hb_weight :: rat

definition in_incident :: "nat \<Rightarrow> nat \<Rightarrow> bool" where
  "in_incident d h =
     foldl (\<lambda>c (day_offset, hour, duration). c \<or> (d = day_offset \<and> hour \<le> h \<and> h < hour + duration))
       False INCIDENT_WINDOWS"

definition hour_bucket_of :: "column_fns \<Rightarrow> nat \<Rightarrow> nat \<Rightarrow> hour_bucket" where
  "hour_bucket_of C d h =
     (let weight = hour_weight C h * day_weight d in
      \<lparr>hb_day_offset = d, hb_hour = h, hb_in_incident_window = in_incident d h,
       hb_weight = (if in_incident d h then weight * (5 / 2) else weight)\<rparr>)"

definition build_hour_buckets :: "column_fns \<Rightarrow> hour_bucket list" where
  "build_hour_buckets C =
     concat (map (\<lambda>d. map (hour_bucket_of C d) [0..<24]) [0..<NUM_DAYS])"

text \<open>The buckets with their row counts.\<close>

definition allocate_row_counts :: "hour_bucket list \<Rightarrow> (hour_bucket \<times> int) list" where
  "allocate_row_counts hour_buckets =
     (let total_weight = sum_list (map hb_weight hour_buckets) in
      map (\<lambda>b. (b, round_half_up (hb_weight b / total_weight * of_nat TARGET_ROWS))) hour_buckets)"

section \<open>Base rows\<close>

record base_row =
  br_day_offset :: nat
  br_hour :: nat
  br_in_incident_window :: bool
  br_bucket_idx :: nat
  br_position :: nat
  br_rand_a :: rat
  br_rand_b :: rat
  br_rand_c :: rat
  br_rand_d :: rat
  br_rand_e :: rat

definition base_row_of :: "column_fns \<Rightarrow> nat \<times> hour_bucket \<times> nat \<Rightarrow> base_row" where
  "base_row_of C = (\<lambda>(n, b, i).
     \<lparr>br_day_offset = hb_day_offset b, br_hour = hb_hour b,
      br_in_incident_window = hb_in_incident_window b, br_bucket_idx = i, br_position = n,
      br_rand_a = cf_rand C TELEMETRY_SEED n, br_rand_b = cf_rand C (TELEMETRY_SEED + 1) n,
      br_rand_c = cf_rand C (TELEMETRY_SEED + 2) n, br_rand_d = cf_rand C (TELEMETRY_SEED + 3) n,
      br_rand_e = cf_rand C (TELEMETRY_SEED + 4) n\<rparr>)"

definition build_base_rows :: "column_fns \<Rightarrow> (hour_bucket \<times> int) list \<Rightarrow> base_row list" where
  "build_base_rows C bucket_counts =
     map (base_row_of C) (enumerate 0
       (concat (map (\<lambda>(b, row_count). map (\<lambda>i. (b, i)) [0..<nat row_count])
          (filter (\<lambda>(b, row_count). 0 < row_count) bucket_counts))))"

section \<open>The columns of a row\<close>

definition unix_start :: int where
  "unix_start =
     (case START_DATE of (y, m, d) \<Rightarrow>
        (int (date_ordinal y m d) - int (date_ordinal 1970 1 1)) * 86400)"

text \<open>Seconds since the epoch.\<close>

definition with_timestamp :: "base_row \<Rightarrow> int" where
  "with_timestamp r =
     (let minute = cast_long (br_rand_b r * 60);
          second = cast_long (br_rand_c r * 60)
      in unix_start + int (br_day_offset r) * 86400 + int (br_hour r) * 3600 + minute * 60 + second)"

definition agent_index :: "base_row \<Rightarrow> int" where
  "agent_index r = cast_long (br_rand_d r * br_rand_a r * of_nat NUM_AGENTS)"

definition agent_name :: "nat \<Rightarrow> string" where
  "agent_name i = ''agent-'' @ pad_zeros 4 i"

definition with_agent :: "base_row \<Rightarrow> string" where
  "with_agent r = agent_name (nat (agent_index r))"

definition with_server_and_tool :: "base_row \<Rightarrow> string \<times> string" where
  "with_server_and_tool r =
     (let idx = cast_long (br_rand_e r * of_nat (length SERVER_TOOL_PAIRS))
      in SERVER_TOOL_PAIRS ! nat idx)"

definition with_outcome :: "base_row \<Rightarrow> string" where
  "with_outcome r =
     (let deny_rate = (if br_in_incident_window r then INCIDENT_DENY_RATE else BASELINE_DENY_RATE);
          t1 = deny_rate;
          t2 = t1 + HITL_APPROVED_RATE;
          t3 = t2 + HITL_DENIED_RATE;
          t4 = t3 + UPSTREAM_ERROR_RATE;
          draw = br_rand_a r
      in if draw < t1 then ''DENY_POLICY''
         else if draw < t2 then ''HITL_APPROVED''
         else if draw < t3 then ''HITL_DENIED''
         else if draw < t4 then ''UPSTREAM_ERROR''
         else ''PASS'')"

definition is_real_server :: "string \<Rightarrow> bool" where
  "is_real_server server \<longleftrightarrow> server \<in> set (map fst REAL_SERVERS)"

definition policy_name_for :: "string \<Rightarrow> string \<Rightarrow> string" where
  "policy_name_for server kind =
     (let real = map_of [(''DENY_POLICY'', ''aml-rate-limit-sanctions''),
             (''HITL_APPROVED'', ''aml-write-hitl-gate''), (''HITL_DENIED'', ''aml-write-hitl-gate'')] kind;
          generic = map_of [(''DENY_POLICY'', ''synthetic-denylist''),
             (''HITL_APPROVED'', ''synthetic-hitl-gate''), (''HITL_DENIED'', ''synthetic-hitl-gate'')] kind
      in the (if is_real_server server then real else generic))"

record decision_json =
  dj_outcome :: string
  dj_fired_policy :: "string option"
  dj_reason :: "string option"

record fired_entry =
  fe_policy :: string
  fe_effect_type :: string

record verdict_columns =
  vc_status :: string
  vc_decision :: decision_json
  vc_policies_fired :: "fired_entry list"
  vc_hitl_ticket_id :: "string option"
  vc_hitl_reviewer :: "string option"
  vc_hitl_decision :: "string option"
  vc_hitl_rationale :: "string option"

definition with_status_decision_and_hitl ::
    "column_fns \<Rightarrow> nat \<Rightarrow> string \<Rightarrow> string \<Rightarrow> verdict_columns" where
  "with_status_decision_and_hitl C n server bucket =
     (let status =
            (if bucket \<in> {''DENY_POLICY'', ''HITL_DENIED''} then ''DENIED''
             else if bucket = ''UPSTREAM_ERROR'' then ''UPSTREAM_ERROR'' else ''COMPLETED'');
          fired_policy =
            (if bucket = ''DENY_POLICY'' then Some (policy_name_for server ''DENY_POLICY'')
             else if bucket = ''HITL_APPROVED'' then Some (policy_name_for server ''HITL_APPROVED'')
             else if bucket = ''HITL_DENIED'' then Some (policy_name_for server ''HITL_DENIED'')
             else None);
          decision_outcome =
            (if bucket = ''DENY_POLICY'' then ''DENY''
             else if bucket \<in> {''HITL_APPROVED'', ''HITL_DENIED''} then ''HOLD''
             else if bucket = ''UPSTREAM_ERROR'' then ''UPSTREAM_ERROR'' else ''PASS'');
          reason =
            (if bucket = ''DENY_POLICY'' then Some ''rate_limit_exceeded''
             else if bucket \<in> {''HITL_APPROVED'', ''HITL_DENIED''} then Some ''hitl_required''
             else if bucket = ''UPSTREAM_ERROR'' then Some ''simulated upstream timeout'' else None);
          is_hitl = bucket \<in> {''HITL_APPROVED'', ''HITL_DENIED''}
      in \<lparr>vc_status = status,
          vc_decision = \<lparr>dj_outcome = decision_outcome, dj_fired_policy = fired_policy, dj_reason = reason\<rparr>,
          vc_policies_fired =
            (case fired_policy of None \<Rightarrow> [] | Some p \<Rightarrow> [\<lparr>fe_policy = p, fe_effect_type = ''rate_limit''\<rparr>]),
          vc_hitl_ticket_id = (if is_hitl then Some (cf_uuid C ''hitl_ticket_id'' n) else None),
          vc_hitl_reviewer =
            (if is_hitl
             then Some (HITL_REVIEWERS ! nat (cast_long (cf_rand C (TELEMETRY_SEED + 11) n * of_nat (length HITL_REVIEWERS))))
             else None),
          vc_hitl_decision =
            (if bucket = ''HITL_APPROVED'' then Some ''APPROVED''
             else if bucket = ''HITL_DENIED'' then Some ''DENIED'' else None),
          vc_hitl_rationale = (if is_hitl then Some ''synthetic reviewer decision'' else None)\<rparr>)"

definition with_latency :: "column_fns \<Rightarrow> nat \<Rightarrow> int" where
  "with_latency C n =
     (let raw = cf_exp C (cf_randn C (TELEMETRY_SEED + 5) n * (6 / 10) + cf_log C 150)
      in cast_long (max 10 (min 8000 raw)))"

text \<open>\<open>to_json\<close> of an array of strings without anything to escape.\<close>

definition json_array_text :: "string list \<Rightarrow> string" where
  "json_array_text ts = ''['' @ join '','' (map (\<lambda>t. quote # t @ [quote]) ts) @ '']''"

definition with_tags :: "column_fns \<Rightarrow> nat \<Rightarrow> string \<Rightarrow> string \<Rightarrow> string" where
  "with_tags C n server tool =
     (let is_structuring = (server = ''transaction-graph'' \<and> tool = ''structuring_check'');
          structuring_flagged = (is_structuring \<and> cf_rand C (TELEMETRY_SEED + 6) n < 3 / 10)
      in json_array_text
        (if structuring_flagged
         then [''pack:aml'', ''regulation:BSA'', ''incident:structuring'', ''severity:high'']
         else if is_real_server server then [''pack:aml'', ''regulation:BSA''] else []))"

record tokens_json =
  tj_prompt :: int
  tj_completion :: int
  tj_provider :: string
  tj_cost_usd :: rat

definition with_cost :: "column_fns \<Rightarrow> nat \<Rightarrow> tokens_json option" where
  "with_cost C n =
     (let is_cost_bearing = cf_rand C (TELEMETRY_SEED + 7) n < COST_BEARING_ROW_FRACTION;
          prompt_tokens = cast_long (cf_rand C (TELEMETRY_SEED + 8) n * 1500 + 100);
          completion_tokens = cast_long (cf_rand C (TELEMETRY_SEED + 9) n * 500 + 20);
          provider = (if cf_rand C (TELEMETRY_SEED + 10) n < 7 / 10 then ''groq'' else ''anthropic'');
          cost_per_1k = (if provider = ''groq'' then 2 / 10000 else 6 / 1000);
          cost_usd = of_int (prompt_tokens + completion_tokens) / 1000 * cost_per_1k
      in if is_cost_bearing
         then Some \<lparr>tj_prompt = prompt_tokens, tj_completion = completion_tokens, tj_provider = provider,
           tj_cost_usd = of_int (round_half_up (cost_usd * 1000000)) / 1000000\<rparr>
         else None)"

section \<open>Rows\<close>

text \<open>The output columns of a row.\<close>

record telemetry_row =
  tl_trace_id :: string
  tl_span_id :: string
  tl_timestamp :: int
  tl_status :: string
  tl_agent_id :: string
  tl_session_id :: string
  tl_server :: string
  tl_tool :: string
  tl_args_hash :: string
  tl_args_redacted :: string
  tl_policies_fired :: "fired_entry list"
  tl_decision :: decision_json
  tl_latency_ms :: int
  tl_tokens :: "tokens_json option"
  tl_hitl_ticket_id :: "string option"
  tl_hitl_reviewer :: "string option"
  tl_hitl_decision :: "string option"
  tl_hitl_rationale :: "string option"
  tl_tags :: string

record identifiers =
  id_trace_id :: string
  id_span_id :: string
  id_session_id :: string
  id_args_hash :: string
  id_args_redacted :: string

definition with_identifiers :: "column_fns \<Rightarrow> string \<Rightarrow> nat \<Rightarrow> identifiers" where
  "with_identifiers C frame n =
     \<lparr>id_trace_id = cf_uuid C (frame @ ''trace_id'') n, id_span_id = cf_uuid C (frame @ ''span_id'') n,
      id_session_id = cf_uuid C (frame @ ''session_id'') n, id_args_hash = ''synthetic'',
      id_args_redacted = ''{'' @ [quote] @ ''synthetic'' @ [quote] @ '': true}''\<rparr>"

definition baseline_row :: "column_fns \<Rightarrow> base_row \<Rightarrow> telemetry_row" where
  "baseline_row C r =
     (let n = br_position r;
          (server, tool) = with_server_and_tool r;
          v = with_status_decision_and_hitl C n server (with_outcome r);
          ids = with_identifiers C ''baseline '' n
      in \<lparr>tl_trace_id = id_trace_id ids, tl_span_id = id_span_id ids, tl_timestamp = with_timestamp r,
          tl_status = vc_status v, tl_agent_id = with_agent r, tl_session_id = id_session_id ids,
          tl_server = server, tl_tool = tool, tl_args_hash = id_args_hash ids,
          tl_args_redacted = id_args_redacted ids, tl_policies_fired = vc_policies_fired v,
          tl_decision = vc_decision v, tl_latency_ms = with_latency C n, tl_tokens = with_cost C n,
          tl_hitl_ticket_id = vc_hitl_ticket_id v, tl_hitl_reviewer = vc_hitl_reviewer v,
          tl_hitl_decision = vc_hitl_decision v, tl_hitl_rationale = vc_hitl_rationale v,
          tl_tags = with_tags C n server tool\<rparr>)"

definition build_baseline_rows :: "column_fns \<Rightarrow> telemetry_row list" where
  "build_baseline_rows C =
     map (baseline_row C) (build_base_rows C (allocate_row_counts (build_hour_buckets C)))"

definition attack_row :: "column_fns \<Rightarrow> nat \<Rightarrow> telemetry_row" where
  "attack_row C idx =
     (let start = unix_start + int ATTACK_DAY_OFFSET * 86400 + int ATTACK_HOUR * 3600;
          is_denied = cf_rand C (TELEMETRY_SEED + 20) idx < 95 / 100;
          ids = with_identifiers C ''attack '' idx
      in \<lparr>tl_trace_id = id_trace_id ids, tl_span_id = id_span_id ids,
          tl_timestamp = start + int idx mod 3600,
          tl_status = (if is_denied then ''DENIED'' else ''COMPLETED''),
          tl_agent_id = agent_name ATTACK_AGENT_INDEX, tl_session_id = id_session_id ids,
          tl_server = ATTACK_SERVER, tl_tool = ATTACK_TOOL, tl_args_hash = id_args_hash ids,
          tl_args_redacted = id_args_redacted ids,
          tl_policies_fired =
            (if is_denied
             then [\<lparr>fe_policy = ''aml-rate-limit-sanctions'', fe_effect_type = ''rate_limit''\<rparr>] else []),
          tl_decision =
            (if is_denied
             then \<lparr>dj_outcome = ''DENY'', dj_fired_policy = Some ''aml-rate-limit-sanctions'',
                    dj_reason = Some ''rate_limit_exceeded''\<rparr>
             else \<lparr>dj_outcome = ''PASS'', dj_fired_policy = None, dj_reason = None\<rparr>),
          tl_latency_ms = cast_long (cf_rand C (TELEMETRY_SEED + 21) idx * 40 + 5),
          tl_tokens = None, tl_hitl_ticket_id = None, tl_hitl_reviewer = None, tl_hitl_decision = None,
          tl_hitl_rationale = None, tl_tags = json_array_text [''pack:aml'', ''regulation:BSA'']\<rparr>)"

definition build_attack_rows :: "column_fns \<Rightarrow> telemetry_row list" where
  "build_attack_rows C = map (attack_row C) [0..<ATTACK_CALL_COUNT]"

text \<open>The frame \<open>main\<close> writes, before it is partitioned by day.\<close>

definition generated_rows :: "column_fns \<Rightarrow> telemetry_row list" where
  "generated_rows C = build_baseline_rows C @ build_attack_rows C"

definition OUTPUT_COLUMNS :: "string list" where
  "OUTPUT_COLUMNS =
     [''trace_id'', ''span_id'', ''timestamp'', ''status'', ''agent_id'', ''session_id'', ''server'', ''tool'',
      ''args_hash'', ''args_redacted'', ''policies_fired'', ''decision'', ''latency_ms'', ''tokens'',
      ''hitl_ticket_id'', ''hitl_reviewer'', ''hitl_decision'', ''hitl_rationale'', ''tags'']"

text \<open>The parquet files: every row with its day, replacing what was there.\<close>

definition write_parquet ::
    "(int \<Rightarrow> int) \<Rightarrow> telemetry_row list \<Rightarrow> (int \<times> telemetry_row) list \<Rightarrow> (int \<times> telemetry_row) list" where
  "write_parquet to_date df old_files = map (\<lambda>r. (to_date (tl_timestamp r), r)) df"

section \<open>The fleet has a hundred tools\<close>

lemma generic_server_names:
  "map fst GENERIC_SERVERS = map (\<lambda>i. ''server-'' @ pad_zeros 2 i) [0..<NUM_GENERIC_SERVERS]"
  by (simp add: GENERIC_SERVERS_def)

lemma pad_zeros_two:
  "map (pad_zeros 2) [0..<18] =
    [''00'', ''01'', ''02'', ''03'', ''04'', ''05'', ''06'', ''07'', ''08'', ''09'', ''10'', ''11'',
     ''12'', ''13'', ''14'', ''15'', ''16'', ''17'']"
  by code_simp

lemma distinct_server_names: "distinct (map fst (REAL_SERVERS @ GENERIC_SERVERS))"
proof -
  have "map fst (REAL_SERVERS @ GENERIC_SERVERS) =
      [''ofac-sanctions'', ''transaction-graph''] @ map ((@) ''server-'') (map (pad_zeros 2) [0..<18])"
    by (simp add: generic_server_names REAL_SERVERS_def NUM_GENERIC_SERVERS_def del: upt_Suc)
  then show ?thesis unfolding pad_zeros_two by simp
qed

lemma num_server_tool_pairs: "length SERVER_TOOL_PAIRS = 100"
proof -
  have "length SERVER_TOOL_PAIRS = sum_list (map (length \<circ> snd) (REAL_SERVERS @ GENERIC_SERVERS))"
    by (simp add: SERVER_TOOL_PAIRS_def ALL_SERVERS_def dict_of_pairs_distinct [OF distinct_server_names]
        length_concat comp_def case_prod_beta)
  also have "\<dots> = 100"
    by (simp add: REAL_SERVERS_def GENERIC_SERVERS_def GENERIC_TOOLS_TARGET_def NUM_GENERIC_SERVERS_def
        comp_def upt_conv_Cons del: upt_Suc)
  finally show ?thesis .
qed

end
