(* ===== verification/Aggregation.thy ===== *)
theory Aggregation
  imports Telemetry PyCsv ResAction "HOL-Library.Word"
begin

text \<open>
  The aggregation of the synthetic telemetry into the tables of the dashboards
  (\<open>src/src/interpose/analytics/aggregate_telemetry.py\<close>), the tables themselves
  (\<open>analytics/models.py\<close>), the refresh of a table, and the bulk load of the rows
  (\<open>analytics/load_synthetic_telemetry.py\<close>).

  A row of a result is a Python dictionary from column names to cells. Parameters are what
  depends on Spark's session: the truncation of a timestamp to its hour and to its day, the
  approximate percentile, and the 32 bit hash. Sums of doubles are sums of rational numbers.
\<close>

section \<open>Cells and rows\<close>

datatype cell = CNull | CStr string | CInt int | CNum rat | CTime int | CDate int

type_synonym result_row = "(string, cell) dict"

record session_fns =
  sf_hour :: "int \<Rightarrow> int"
  sf_day :: "int \<Rightarrow> int"
  sf_percentile :: "rat \<Rightarrow> int list \<Rightarrow> int"
  sf_hash :: "string \<Rightarrow> 32 word"

definition SOURCE :: string where "SOURCE = ''synthetic''"

text \<open>\<open>groupBy\<close>: every key that occurs, with its rows.\<close>

definition group_by :: "('a \<Rightarrow> 'k) \<Rightarrow> 'a list \<Rightarrow> ('k \<times> 'a list) list" where
  "group_by key rows = map (\<lambda>k. (k, filter (\<lambda>r. key r = k) rows)) (remdups (map key rows))"

text \<open>\<open>sum(when(p, 1).otherwise(0))\<close>\<close>

definition count_when :: "('a \<Rightarrow> bool) \<Rightarrow> 'a list \<Rightarrow> int" where
  "count_when p rows = sum_list (map (\<lambda>r. if p r then 1 else 0) rows)"

section \<open>Aggregates\<close>

definition hourly_key :: "session_fns \<Rightarrow> telemetry_row \<Rightarrow> int \<times> string \<times> string \<times> string" where
  "hourly_key F r = (sf_hour F (tl_timestamp r), tl_server r, tl_tool r, tl_status r)"

definition hourly_row :: "session_fns \<Rightarrow> (int \<times> string \<times> string \<times> string) \<times> telemetry_row list \<Rightarrow> result_row" where
  "hourly_row F = (\<lambda>((hour, server, tool, outcome), rows).
     [(''hour'', CTime hour), (''server'', CStr server), (''tool'', CStr tool), (''outcome'', CStr outcome),
      (''call_count'', CInt (int (length rows))),
      (''error_count'', CInt (count_when (\<lambda>r. tl_status r = ''UPSTREAM_ERROR'') rows)),
      (''latency_p50_ms'', CInt (sf_percentile F (1 / 2) (map tl_latency_ms rows))),
      (''latency_p95_ms'', CInt (sf_percentile F (95 / 100) (map tl_latency_ms rows))),
      (''latency_p99_ms'', CInt (sf_percentile F (99 / 100) (map tl_latency_ms rows))),
      (''source'', CStr SOURCE)])"

definition aggregate_telemetry_hourly :: "session_fns \<Rightarrow> telemetry_row list \<Rightarrow> result_row list" where
  "aggregate_telemetry_hourly F df = map (hourly_row F) (group_by (hourly_key F) df)"

text \<open>\<open>explode_outer\<close> gives a NULL for an empty array, which the filter takes out again.\<close>

definition exploded :: "session_fns \<Rightarrow> telemetry_row list \<Rightarrow> (int \<times> string \<times> fired_entry) list" where
  "exploded F df =
     map (\<lambda>(day, outcome, fired). (day, outcome, the fired))
       (filter (\<lambda>(day, outcome, fired). fired \<noteq> None)
         (concat (map (\<lambda>r. map (\<lambda>fired. (sf_day F (tl_timestamp r), dj_outcome (tl_decision r), fired))
            (if tl_policies_fired r = [] then [None] else map Some (tl_policies_fired r))) df)))"

definition policy_fires_row ::
    "(int \<times> string \<times> string \<times> string) \<times> (int \<times> string \<times> fired_entry) list \<Rightarrow> result_row" where
  "policy_fires_row = (\<lambda>((day, policy_name, effect_type, outcome), rows).
     [(''day'', CDate day), (''policy_name'', CStr policy_name), (''effect_type'', CStr effect_type),
      (''outcome'', CStr outcome), (''fire_count'', CInt (int (length rows))), (''source'', CStr SOURCE)])"

definition aggregate_policy_fires_daily :: "session_fns \<Rightarrow> telemetry_row list \<Rightarrow> result_row list" where
  "aggregate_policy_fires_daily F df =
     map policy_fires_row
       (group_by (\<lambda>(day, outcome, fired). (day, fe_policy fired, fe_effect_type fired, outcome)) (exploded F df))"

text \<open>
  \<open>abs\<close> of the hash, which in ANSI mode ends the job on the least 32 bit integer instead of
  wrapping round.
\<close>

definition response_seconds :: "session_fns \<Rightarrow> telemetry_row \<Rightarrow> int res" where
  "response_seconds F r =
     (let h = sint (sf_hash F (tl_trace_id r)) in
      if h = - (2 ^ 31) then Inl (Exn SparkErr ''ARITHMETIC_OVERFLOW'') else Inr (\<bar>h\<bar> mod 570 + 30))"

definition hitl_row :: "session_fns \<Rightarrow> int \<times> (telemetry_row \<times> int) list \<Rightarrow> result_row" where
  "hitl_row F = (\<lambda>(day, rows).
     [(''day'', CDate day), (''tickets_created'', CInt (int (length rows))),
      (''approved'', CInt (count_when (\<lambda>(r, _). tl_hitl_decision r = Some ''APPROVED'') rows)),
      (''denied'', CInt (count_when (\<lambda>(r, _). tl_hitl_decision r = Some ''DENIED'') rows)),
      (''timed_out'', CInt 0),
      (''median_response_seconds'', CInt (sf_percentile F (1 / 2) (map snd rows))),
      (''reviewer_group'', CStr ''aml-analysts''), (''source'', CStr SOURCE)])"

definition aggregate_hitl_daily :: "session_fns \<Rightarrow> telemetry_row list \<Rightarrow> result_row list res" where
  "aggregate_hitl_daily F df =
     bind_res
       (map_res (\<lambda>r. bind_res (response_seconds F r) (\<lambda>s. Inr (r, s)))
         (filter (\<lambda>r. tl_hitl_decision r \<noteq> None) df))
       (\<lambda>rows. Inr (map (hitl_row F) (group_by (\<lambda>(r, _). sf_day F (tl_timestamp r)) rows)))"

section \<open>The AML pack\<close>

text \<open>
  \<open>(count * 0.35).cast("long")\<close>: the count times the double nearest 0.35, rounded to the
  53 bits of a double, ties to even, and truncated.
\<close>

fun bit_length :: "nat \<Rightarrow> nat" where
  "bit_length n = (if n = 0 then 0 else Suc (bit_length (n div 2)))"

declare bit_length.simps [simp del]

definition round_53_bits :: "nat \<Rightarrow> nat" where
  "round_53_bits p =
     (let s = bit_length p - 53; q = p div 2 ^ s; r = p mod 2 ^ s in
      if 2 ^ s < 2 * r \<or> 2 ^ s = 2 * r \<and> odd q then (q + 1) * 2 ^ s else q * 2 ^ s)"

definition illustrative_matches :: "nat \<Rightarrow> nat" where
  "illustrative_matches n = round_53_bits (n * 6305039478318694) div 2 ^ 54"

definition tags_array :: "string \<Rightarrow> string list" where
  "tags_array tags = py_split '','' (filter (\<lambda>c. c \<noteq> CHR ''['' \<and> c \<noteq> CHR '']'' \<and> c \<noteq> quote) tags)"

text \<open>A frame with one count per day.\<close>

definition per_day :: "session_fns \<Rightarrow> (telemetry_row list \<Rightarrow> int) \<Rightarrow> telemetry_row list \<Rightarrow> (int, int) dict" where
  "per_day F f rows = map (\<lambda>(day, rs). (day, f rs)) (group_by (\<lambda>r. sf_day F (tl_timestamp r)) rows)"

text \<open>The count of a day after the outer joins and \<open>fillna(0)\<close>.\<close>

definition or_zero :: "(int, int) dict \<Rightarrow> int \<Rightarrow> int" where
  "or_zero d day = (case map_of d day of None \<Rightarrow> 0 | Some n \<Rightarrow> n)"

definition aggregate_aml_pack_daily :: "session_fns \<Rightarrow> telemetry_row list \<Rightarrow> result_row list" where
  "aggregate_aml_pack_daily F df =
     (let ofac = filter (\<lambda>r. tl_server r = ''ofac-sanctions'') df;
          txg = filter (\<lambda>r. tl_server r = ''transaction-graph'') df;
          mark_investigated = filter (\<lambda>r. tl_tool r = ''mark_investigated'') txg;
          ofac_calls = per_day F (\<lambda>rs. int (length rs)) ofac;
          sanctions_matches = per_day F (\<lambda>rs. int (illustrative_matches (length rs)))
            (filter (\<lambda>r. tl_tool r = ''check_entity'') ofac);
          tx_graph_calls = per_day F (\<lambda>rs. int (length rs)) txg;
          structuring_alerts = per_day F (\<lambda>rs. int (length rs))
            (filter (\<lambda>r. ''incident:structuring'' \<in> set (tags_array (tl_tags r))) txg);
          mi_denied = per_day F (count_when (\<lambda>r. tl_status r = ''DENIED'')) mark_investigated;
          mi_approved = per_day F (count_when (\<lambda>r. tl_hitl_decision r = Some ''APPROVED'')) mark_investigated;
          mi_auto_passed = per_day F
            (count_when (\<lambda>r. tl_status r = ''COMPLETED'' \<and> tl_hitl_decision r = None)) mark_investigated;
          days = foldl add_missing []
            (map (map fst) [ofac_calls, sanctions_matches, tx_graph_calls, structuring_alerts, mi_denied])
      in map (\<lambda>day.
           [(''day'', CDate day), (''ofac_calls'', CInt (or_zero ofac_calls day)),
            (''sanctions_matches'', CInt (or_zero sanctions_matches day)),
            (''transaction_graph_calls'', CInt (or_zero tx_graph_calls day)),
            (''structuring_alerts'', CInt (or_zero structuring_alerts day)),
            (''mark_investigated_denied'', CInt (or_zero mi_denied day)),
            (''mark_investigated_approved'', CInt (or_zero mi_approved day)),
            (''mark_investigated_auto_passed'', CInt (or_zero mi_auto_passed day)),
            (''source'', CStr SOURCE)]) days)"

definition cost_row :: "(int \<times> string \<times> string) \<times> (telemetry_row \<times> tokens_json) list \<Rightarrow> result_row" where
  "cost_row = (\<lambda>((day, agent_id, provider), rows).
     [(''day'', CDate day), (''agent_id'', CStr agent_id), (''provider'', CStr provider),
      (''prompt_tokens'', CInt (sum_list (map (tj_prompt \<circ> snd) rows))),
      (''completion_tokens'', CInt (sum_list (map (tj_completion \<circ> snd) rows))),
      (''cost_usd'', CNum (sum_list (map (tj_cost_usd \<circ> snd) rows))),
      (''source'', CStr SOURCE)])"

definition aggregate_cost_daily :: "session_fns \<Rightarrow> telemetry_row list \<Rightarrow> result_row list" where
  "aggregate_cost_daily F df =
     map cost_row
       (group_by (\<lambda>(r, t). (sf_day F (tl_timestamp r), tl_agent_id r, tj_provider t))
         (map (\<lambda>r. (r, the (tl_tokens r))) (filter (\<lambda>r. tl_tokens r \<noteq> None) df)))"

section \<open>Tables\<close>

text \<open>
  The columns of the tables: the type of the column, whether it admits NULL, and whether the
  database fills it in.
\<close>

datatype column_type =
    TText | TBigInt | TFloat | TTimestamp | TDate | TInteger | TUuid | TJsonb

type_synonym table_columns = "(string \<times> column_type \<times> bool \<times> bool) list"

definition id_column :: "string \<times> column_type \<times> bool \<times> bool" where
  "id_column = (''id'', TBigInt, False, True)"

definition required :: "string \<Rightarrow> column_type \<Rightarrow> string \<times> column_type \<times> bool \<times> bool" where
  "required c t = (c, t, False, False)"

definition TelemetryHourly :: table_columns where
  "TelemetryHourly =
     [id_column, required ''source'' TText, required ''hour'' TTimestamp, required ''server'' TText,
      required ''tool'' TText, required ''outcome'' TText, required ''call_count'' TBigInt,
      required ''error_count'' TBigInt, (''latency_p50_ms'', TFloat, True, False),
      (''latency_p95_ms'', TFloat, True, False), (''latency_p99_ms'', TFloat, True, False)]"

definition PolicyFiresDaily :: table_columns where
  "PolicyFiresDaily =
     [id_column, required ''source'' TText, required ''day'' TDate, required ''policy_name'' TText,
      required ''effect_type'' TText, required ''outcome'' TText, required ''fire_count'' TBigInt]"

definition HitlDaily :: table_columns where
  "HitlDaily =
     [id_column, required ''source'' TText, required ''day'' TDate, required ''reviewer_group'' TText,
      required ''tickets_created'' TBigInt, required ''approved'' TBigInt, required ''denied'' TBigInt,
      required ''timed_out'' TBigInt, (''median_response_seconds'', TFloat, True, False)]"

definition AmlPackDaily :: table_columns where
  "AmlPackDaily =
     [id_column, required ''source'' TText, required ''day'' TDate, required ''ofac_calls'' TBigInt,
      required ''sanctions_matches'' TBigInt, required ''transaction_graph_calls'' TBigInt,
      required ''structuring_alerts'' TBigInt, required ''mark_investigated_denied'' TBigInt,
      required ''mark_investigated_approved'' TBigInt, required ''mark_investigated_auto_passed'' TBigInt]"

definition CostDaily :: table_columns where
  "CostDaily =
     [id_column, required ''source'' TText, required ''day'' TDate, required ''agent_id'' TText,
      required ''provider'' TText, required ''prompt_tokens'' TBigInt, required ''completion_tokens'' TBigInt,
      required ''cost_usd'' TFloat]"

definition database_tables :: "(string, table_columns) dict" where
  "database_tables =
     [(''agg_telemetry_hourly'', TelemetryHourly), (''agg_policy_fires_daily'', PolicyFiresDaily),
      (''agg_hitl_daily'', HitlDaily), (''agg_aml_pack_daily'', AmlPackDaily), (''agg_cost_daily'', CostDaily)]"

fun cell_fits :: "column_type \<Rightarrow> bool \<Rightarrow> cell \<Rightarrow> bool" where
  "cell_fits t nullable CNull = nullable"
| "cell_fits t nullable (CStr s) = (t = TText)"
| "cell_fits t nullable (CInt i) = (t = TBigInt \<or> t = TFloat)"
| "cell_fits t nullable (CNum x) = (t = TFloat)"
| "cell_fits t nullable (CTime x) = (t = TTimestamp)"
| "cell_fits t nullable (CDate x) = (t = TDate)"

text \<open>PostgreSQL takes a row whose cells fit their columns and that fills every required column.\<close>

definition columns_accept :: "table_columns \<Rightarrow> result_row \<Rightarrow> bool" where
  "columns_accept cols row \<longleftrightarrow>
     (\<forall>(c, v) \<in> set row. case map_of cols c of None \<Rightarrow> False | Some (t, nullable, filled) \<Rightarrow> cell_fits t nullable v) \<and>
     (\<forall>(c, t, nullable, filled) \<in> set cols. nullable \<or> filled \<or> c \<in> fst ` set row)"

section \<open>The refresh of a table\<close>

definition TABLE_SPECS :: "(string, string list) dict" where
  "TABLE_SPECS =
     [(''agg_telemetry_hourly'',
       [''source'', ''hour'', ''server'', ''tool'', ''outcome'', ''call_count'', ''error_count'',
        ''latency_p50_ms'', ''latency_p95_ms'', ''latency_p99_ms'']),
      (''agg_policy_fires_daily'',
       [''source'', ''day'', ''policy_name'', ''effect_type'', ''outcome'', ''fire_count'']),
      (''agg_hitl_daily'',
       [''source'', ''day'', ''reviewer_group'', ''tickets_created'', ''approved'', ''denied'', ''timed_out'',
        ''median_response_seconds'']),
      (''agg_aml_pack_daily'',
       [''source'', ''day'', ''ofac_calls'', ''sanctions_matches'', ''transaction_graph_calls'',
        ''structuring_alerts'', ''mark_investigated_denied'', ''mark_investigated_approved'',
        ''mark_investigated_auto_passed'']),
      (''agg_cost_daily'',
       [''source'', ''day'', ''agent_id'', ''provider'', ''prompt_tokens'', ''completion_tokens'', ''cost_usd''])]"

type_synonym database = "string \<Rightarrow> result_row list"

definition dict_item :: "(string, 'v) dict \<Rightarrow> string \<Rightarrow> 'v res" where
  "dict_item d k = (case map_of d k of None \<Rightarrow> Inl (Exn KeyErr k) | Some v \<Rightarrow> Inr v)"

text \<open>One row of the \<open>COPY\<close>: the values of the named columns, which the table has to accept.\<close>

definition copy_row :: "string \<Rightarrow> string list \<Rightarrow> result_row \<Rightarrow> result_row res" where
  "copy_row table columns row =
     bind_res (map_res (\<lambda>c. bind_res (dict_item row c) (\<lambda>v. Inr (c, v))) columns) (\<lambda>values.
       case map_of database_tables table of
         None \<Rightarrow> Inl (Exn DbErr ''relation does not exist'')
       | Some cols \<Rightarrow>
           if columns_accept cols values then Inr values
           else Inl (Exn DbErr ''a value does not fit its column''))"

definition is_synthetic :: "result_row \<Rightarrow> bool" where
  "is_synthetic row \<longleftrightarrow> map_of row ''source'' = Some (CStr SOURCE)"

text \<open>Delete, copy, commit: an exception before the commit leaves the table as it was.\<close>

definition write_table :: "string \<Rightarrow> string list \<Rightarrow> result_row list \<Rightarrow> database \<Rightarrow> unit res \<times> database" where
  "write_table table columns rows db =
     (case map_res (copy_row table columns) rows of
        Inl e \<Rightarrow> (Inl e, db)
      | Inr copied \<Rightarrow> (Inr (), db(table := filter (\<lambda>r. \<not> is_synthetic r) (db table) @ copied)))"

fun write_tables :: "(string \<times> result_row list) list \<Rightarrow> database \<Rightarrow> unit res \<times> database" where
  "write_tables [] = cret ()"
| "write_tables ((table, rows) # rest) =
     cbind (clift (dict_item TABLE_SPECS table)) (\<lambda>columns.
     cbind (write_table table columns rows) (\<lambda>_. write_tables rest))"

definition run_aggregation :: "session_fns \<Rightarrow> telemetry_row list \<Rightarrow> database \<Rightarrow> unit res \<times> database" where
  "run_aggregation F raw =
     cbind (clift (aggregate_hitl_daily F raw)) (\<lambda>hitl_daily.
       write_tables
         [(''agg_telemetry_hourly'', aggregate_telemetry_hourly F raw),
          (''agg_policy_fires_daily'', aggregate_policy_fires_daily F raw),
          (''agg_hitl_daily'', hitl_daily),
          (''agg_aml_pack_daily'', aggregate_aml_pack_daily F raw),
          (''agg_cost_daily'', aggregate_cost_daily F raw)])"

section \<open>The bulk load\<close>

definition COLUMNS :: "string list" where
  "COLUMNS =
     [''trace_id'', ''span_id'', ''timestamp'', ''status'', ''agent_id'', ''session_id'', ''server'', ''tool'',
      ''args_hash'', ''args_redacted'', ''policies_fired'', ''decision'', ''latency_ms'', ''tokens'',
      ''hitl_ticket_id'', ''hitl_reviewer'', ''hitl_decision'', ''hitl_rationale'', ''tags'']"

definition AuditEntrySynthetic :: table_columns where
  "AuditEntrySynthetic =
     [id_column, required ''trace_id'' TUuid, required ''span_id'' TUuid, (''parent_id'', TBigInt, True, False),
      required ''timestamp'' TTimestamp, required ''status'' TText, required ''agent_id'' TText,
      required ''session_id'' TText, required ''server'' TText, required ''tool'' TText,
      required ''args_hash'' TText, required ''args_redacted'' TJsonb, required ''policies_fired'' TJsonb,
      required ''decision'' TJsonb, (''latency_ms'', TInteger, True, False), (''tokens'', TJsonb, True, False),
      (''prev_hash'', TText, True, False), (''this_hash'', TText, True, False),
      (''hitl_ticket_id'', TUuid, True, False), (''hitl_reviewer'', TText, True, False),
      (''hitl_decision'', TText, True, False), (''hitl_rationale'', TText, True, False),
      (''tags'', TJsonb, False, True)]"

text \<open>
  \<open>load\<close> truncates \<open>audit_entries_synthetic\<close> and copies the rows of every batch, keeping a
  running total; an exception before the commit leaves the table as it was.
\<close>

fun load_batches ::
    "(string, 'v) dict list list \<Rightarrow> (string, 'v) dict list \<times> nat \<Rightarrow> ((string, 'v) dict list \<times> nat) res" where
  "load_batches [] (table, total_rows) = Inr (table, total_rows)"
| "load_batches (batch # batches) (table, total_rows) =
     bind_res (map_res (\<lambda>row. map_res (\<lambda>c. bind_res (dict_item row c) (\<lambda>v. Inr (c, v))) COLUMNS) batch) (\<lambda>rows.
       load_batches batches (table @ rows, total_rows + length batch))"

definition load_synthetic ::
    "(string, 'v) dict list list \<Rightarrow> (string, 'v) dict list \<Rightarrow> nat res \<times> (string, 'v) dict list" where
  "load_synthetic batches old_table =
     (case load_batches batches ([], 0) of
        Inl e \<Rightarrow> (Inl e, old_table)
      | Inr (table, total_rows) \<Rightarrow> (Inr total_rows, table))"

text \<open>\<open>url.replace("postgresql+psycopg://", "postgresql://")\<close>\<close>

definition to_psycopg_dsn :: "string \<Rightarrow> string" where
  "to_psycopg_dsn sqlalchemy_url =
     join ''postgresql://'' (py_split ''postgresql+psycopg://'' sqlalchemy_url)"

definition load_dsn :: "string option \<Rightarrow> string \<Rightarrow> string" where
  "load_dsn database_url settings_url =
     to_psycopg_dsn (case database_url of None \<Rightarrow> settings_url | Some url \<Rightarrow> if url = [] then settings_url else url)"

lemma load_columns_match: "COLUMNS = OUTPUT_COLUMNS"
  by (simp add: COLUMNS_def OUTPUT_COLUMNS_def)

text \<open>The columns of the load are columns of the table, and every required column is among them.\<close>

lemma load_columns_fill_the_table:
  "set COLUMNS \<subseteq> fst ` set AuditEntrySynthetic"
  "(c, t, False, False) \<in> set AuditEntrySynthetic \<Longrightarrow> c \<in> set COLUMNS"
  by (auto simp: COLUMNS_def AuditEntrySynthetic_def id_column_def required_def)

text \<open>Rows with the columns of the load are all copied, in order, and replace the old ones.\<close>

lemma copy_columns:
  "map fst row = COLUMNS \<Longrightarrow>
    map_res (\<lambda>c. bind_res (dict_item row c) (\<lambda>v. Inr (c, v))) COLUMNS = Inr row"
proof -
  assume cols: "map fst row = COLUMNS"
  then have "distinct (map fst row)" by (simp add: COLUMNS_def)
  then have "\<forall>(c, v) \<in> set row. dict_item row c = Inr v" by (auto simp: dict_item_def)
  then have "map_res (\<lambda>c. bind_res (dict_item row c) (\<lambda>v. Inr (c, v))) (map fst kvs) = Inr kvs"
    if "set kvs \<subseteq> set row" for kvs
    using that by (induction kvs) auto
  from this [of row] show ?thesis by (simp add: cols)
qed

lemma copy_batch:
  "\<forall>row \<in> set batch. map fst row = COLUMNS \<Longrightarrow>
    map_res (\<lambda>row. map_res (\<lambda>c. bind_res (dict_item row c) (\<lambda>v. Inr (c, v))) COLUMNS) batch = Inr batch"
  by (induction batch) (simp_all add: copy_columns)

lemma load_batches_concat:
  "\<forall>row \<in> set (concat batches). map fst row = COLUMNS \<Longrightarrow>
    load_batches batches (table, n) = Inr (table @ concat batches, n + length (concat batches))"
proof (induction batches arbitrary: table n)
  case (Cons batch batches)
  then have "\<forall>row \<in> set batch. map fst row = COLUMNS" by simp
  from copy_batch [OF this] show ?case using Cons by simp
qed simp

lemma load_synthetic_replaces:
  "\<forall>row \<in> set (concat batches). map fst row = COLUMNS \<Longrightarrow>
    load_synthetic batches old = (Inr (length (concat batches)), concat batches)"
  by (simp add: load_synthetic_def load_batches_concat)

end
