(* ===== verification/AggregationProps.thy ===== *)
theory AggregationProps
  imports Aggregation
begin

text \<open>
  What the aggregation of the telemetry keeps: the groups of a \<open>groupBy\<close> share out the
  rows, so that every count in the tables can be traced back to the calls; the rows of every
  result fit the columns of their table, so that a refresh cannot fail half way.
\<close>

section \<open>Groups share out the rows\<close>

lemma sum_over_keys:
  fixes w :: "'a \<Rightarrow> 'b :: comm_monoid_add"
  assumes "finite A" and "key ` set rows \<subseteq> A"
  shows "(\<Sum>k \<in> A. sum_list (map w (filter (\<lambda>r. key r = k) rows))) = sum_list (map w rows)"
  using assms(2)
proof (induction rows)
  case Nil
  then show ?case by simp
next
  case (Cons r rows)
  have "sum_list (map w (filter (\<lambda>x. key x = k) (r # rows))) =
      (if key r = k then w r else 0) + sum_list (map w (filter (\<lambda>x. key x = k) rows))" for k
    by simp
  then show ?case using Cons assms(1) by (simp add: sum.distrib sum.delta)
qed

lemma group_by_sum:
  fixes w :: "'a \<Rightarrow> 'b :: comm_monoid_add"
  shows "sum_list (map (\<lambda>(k, rs). sum_list (map w rs)) (group_by key rows)) = sum_list (map w rows)"
proof -
  have "sum_list (map (\<lambda>(k, rs). sum_list (map w rs)) (group_by key rows)) =
      sum_list (map (\<lambda>k. sum_list (map w (filter (\<lambda>r. key r = k) rows))) (remdups (map key rows)))"
    by (simp add: group_by_def comp_def)
  also have "\<dots> = (\<Sum>k \<in> key ` set rows. sum_list (map w (filter (\<lambda>r. key r = k) rows)))"
    by (subst sum_list_distinct_conv_sum_set) auto
  finally show ?thesis by (simp add: sum_over_keys)
qed

lemma int_length_sum: "int (length xs) = sum_list (map (\<lambda>_. 1) xs)"
  by (induction xs) auto

lemma count_when_filter: "count_when p rows = int (length (filter p rows))"
  by (induction rows) (auto simp: count_when_def)

lemma group_by_counts:
  "sum_list (map (\<lambda>(k, rs). int (length rs)) (group_by key rows)) = int (length rows)"
  using group_by_sum [of "\<lambda>_. 1 :: int" key rows] by (simp only: int_length_sum)

lemma group_by_count_when:
  "sum_list (map (\<lambda>(k, rs). count_when p rs) (group_by key rows)) = count_when p rows"
  unfolding count_when_def by (rule group_by_sum)

lemma distinct_group_by: "distinct (map fst (group_by key rows))"
  by (simp add: group_by_def comp_def)

lemma group_by_member: "(k, rs) \<in> set (group_by key rows) \<Longrightarrow> rs = filter (\<lambda>r. key r = k) rows"
  by (auto simp: group_by_def)

section \<open>Sums of a column\<close>

definition cell_int :: "result_row \<Rightarrow> string \<Rightarrow> int" where
  "cell_int row c = (case map_of row c of Some (CInt i) \<Rightarrow> i | _ \<Rightarrow> 0)"

definition column_sum :: "string \<Rightarrow> result_row list \<Rightarrow> int" where
  "column_sum c rows = sum_list (map (\<lambda>row. cell_int row c) rows)"

lemma column_sum_groups:
  assumes "\<And>k rs. cell_int (f (k, rs)) c = h rs"
  shows "column_sum c (map f (group_by key rows)) = sum_list (map (\<lambda>(k, rs). h rs) (group_by key rows))"
  unfolding column_sum_def map_map
  by (rule arg_cong [where f = sum_list]) (auto simp: assms)

lemma hourly_calls: "column_sum ''call_count'' (aggregate_telemetry_hourly F df) = int (length df)"
  unfolding aggregate_telemetry_hourly_def
  by (subst column_sum_groups [where h = "\<lambda>rs. int (length rs)"])
    (auto simp: hourly_row_def cell_int_def group_by_counts split: prod.splits)

lemma hourly_errors:
  "column_sum ''error_count'' (aggregate_telemetry_hourly F df) =
    int (length (filter (\<lambda>r. tl_status r = ''UPSTREAM_ERROR'') df))"
  unfolding aggregate_telemetry_hourly_def
  by (subst column_sum_groups [where h = "count_when (\<lambda>r. tl_status r = ''UPSTREAM_ERROR'')"])
    (auto simp: hourly_row_def cell_int_def group_by_count_when count_when_filter split: prod.splits)

lemma exploded_length: "length (exploded F df) = sum_list (map (length \<circ> tl_policies_fired) df)"
  by (induction df) (simp_all add: exploded_def filter_map comp_def)

lemma policy_fires:
  "column_sum ''fire_count'' (aggregate_policy_fires_daily F df) =
    int (sum_list (map (length \<circ> tl_policies_fired) df))"
  unfolding aggregate_policy_fires_daily_def
  by (subst column_sum_groups [where h = "\<lambda>rs. int (length rs)"])
    (auto simp: policy_fires_row_def cell_int_def group_by_counts exploded_length split: prod.splits)

section \<open>Counts of a day\<close>

lemma or_zero_per_day:
  assumes "f [] = 0"
  shows "or_zero (per_day F f rows) day = f (filter (\<lambda>r. sf_day F (tl_timestamp r) = day) rows)"
proof -
  let ?key = "\<lambda>r. sf_day F (tl_timestamp r)"
  have "map_of (map (\<lambda>k. (k, f (filter (\<lambda>r. ?key r = k) rows))) ks) day =
      (if day \<in> set ks then Some (f (filter (\<lambda>r. ?key r = day) rows)) else None)" for ks
    by (induction ks) auto
  then have "map_of (per_day F f rows) day =
      (if day \<in> ?key ` set rows then Some (f (filter (\<lambda>r. ?key r = day) rows)) else None)"
    by (simp add: per_day_def group_by_def comp_def)
  moreover have "filter (\<lambda>r. ?key r = day) rows = []" if "day \<notin> ?key ` set rows"
    using that by (auto simp: filter_empty_conv)
  ultimately show ?thesis using assms by (auto simp: or_zero_def)
qed

lemma per_day_days: "set (map fst (per_day F f rows)) = (\<lambda>r. sf_day F (tl_timestamp r)) ` set rows"
  by (auto simp: per_day_def group_by_def)

text \<open>The days of the AML table: every day with a call of one of its two servers, once.\<close>

definition on_server :: "string \<Rightarrow> telemetry_row list \<Rightarrow> telemetry_row list" where
  "on_server server df = filter (\<lambda>r. tl_server r = server) df"

definition on_tool :: "string \<Rightarrow> telemetry_row list \<Rightarrow> telemetry_row list" where
  "on_tool tool df = filter (\<lambda>r. tl_tool r = tool) df"

definition on_day :: "session_fns \<Rightarrow> int \<Rightarrow> telemetry_row list \<Rightarrow> telemetry_row list" where
  "on_day F day df = filter (\<lambda>r. sf_day F (tl_timestamp r) = day) df"

definition aml_day :: "session_fns \<Rightarrow> telemetry_row list \<Rightarrow> int \<Rightarrow> result_row" where
  "aml_day F df day =
     (let ofac = on_day F day (on_server ''ofac-sanctions'' df);
          txg = on_day F day (on_server ''transaction-graph'' df);
          mi = on_tool ''mark_investigated'' txg
      in [(''day'', CDate day), (''ofac_calls'', CInt (int (length ofac))),
          (''sanctions_matches'', CInt (int (illustrative_matches (length (on_tool ''check_entity'' ofac))))),
          (''transaction_graph_calls'', CInt (int (length txg))),
          (''structuring_alerts'',
           CInt (int (length (filter (\<lambda>r. ''incident:structuring'' \<in> set (tags_array (tl_tags r))) txg)))),
          (''mark_investigated_denied'', CInt (count_when (\<lambda>r. tl_status r = ''DENIED'') mi)),
          (''mark_investigated_approved'', CInt (count_when (\<lambda>r. tl_hitl_decision r = Some ''APPROVED'') mi)),
          (''mark_investigated_auto_passed'',
           CInt (count_when (\<lambda>r. tl_status r = ''COMPLETED'' \<and> tl_hitl_decision r = None) mi)),
          (''source'', CStr SOURCE)])"

lemma set_foldl_add_missing: "set (foldl add_missing acc xss) = set acc \<union> (\<Union>xs \<in> set xss. set xs)"
  by (induction xss arbitrary: acc) auto

lemma distinct_foldl_add_missing: "distinct acc \<Longrightarrow> distinct (foldl add_missing acc xss)"
  by (induction xss arbitrary: acc) auto

lemma filter_swap: "filter p (filter q xs) = filter q (filter p xs)"
  by (simp add: conj_commute)

lemma count_when_Nil [simp]: "count_when p [] = 0"
  by (simp add: count_when_def)

lemma illustrative_matches_0 [simp]: "illustrative_matches 0 = 0"
  by (simp add: illustrative_matches_def round_53_bits_def bit_length.simps Let_def)

lemma aml_rows:
  obtains days where "distinct days"
    and "set days = (\<lambda>r. sf_day F (tl_timestamp r)) ` set (on_server ''ofac-sanctions'' df @ on_server ''transaction-graph'' df)"
    and "aggregate_aml_pack_daily F df = map (aml_day F df) days"
proof -
  define days where "days = foldl add_missing []
     (map (map fst)
       [per_day F (\<lambda>rs. int (length rs)) (on_server ''ofac-sanctions'' df),
        per_day F (\<lambda>rs. int (illustrative_matches (length rs))) (on_tool ''check_entity'' (on_server ''ofac-sanctions'' df)),
        per_day F (\<lambda>rs. int (length rs)) (on_server ''transaction-graph'' df),
        per_day F (\<lambda>rs. int (length rs))
          (filter (\<lambda>r. ''incident:structuring'' \<in> set (tags_array (tl_tags r))) (on_server ''transaction-graph'' df)),
        per_day F (count_when (\<lambda>r. tl_status r = ''DENIED'')) (on_tool ''mark_investigated'' (on_server ''transaction-graph'' df))])"
  have "distinct days" unfolding days_def by (rule distinct_foldl_add_missing) simp
  moreover have "set days = (\<lambda>r. sf_day F (tl_timestamp r)) `
      set (on_server ''ofac-sanctions'' df @ on_server ''transaction-graph'' df)"
    unfolding days_def set_foldl_add_missing list.map list.set UN_insert per_day_days
    by (auto simp: on_tool_def)
  moreover have "aggregate_aml_pack_daily F df = map (aml_day F df) days"
    unfolding aggregate_aml_pack_daily_def Let_def on_server_def [symmetric] on_tool_def [symmetric]
      days_def [symmetric]
    by (rule map_cong [OF refl])
      (simp add: or_zero_per_day aml_day_def on_day_def on_tool_def on_server_def Let_def conj_ac)
  ultimately show ?thesis by (rule that)
qed

lemma sum_on_days:
  fixes w :: "telemetry_row \<Rightarrow> int"
  assumes "distinct days" and "(\<lambda>r. sf_day F (tl_timestamp r)) ` set rows \<subseteq> set days"
  shows "sum_list (map (\<lambda>day. sum_list (map w (on_day F day rows))) days) = sum_list (map w rows)"
  using assms by (simp add: on_day_def sum_list_distinct_conv_sum_set sum_over_keys)

lemma aml_calls:
  "column_sum ''ofac_calls'' (aggregate_aml_pack_daily F df) = int (length (on_server ''ofac-sanctions'' df))"
  "column_sum ''transaction_graph_calls'' (aggregate_aml_pack_daily F df) =
    int (length (on_server ''transaction-graph'' df))"
proof -
  obtain days where days: "distinct days"
    "set days = (\<lambda>r. sf_day F (tl_timestamp r)) ` set (on_server ''ofac-sanctions'' df @ on_server ''transaction-graph'' df)"
    "aggregate_aml_pack_daily F df = map (aml_day F df) days"
    by (rule aml_rows)
  show "column_sum ''ofac_calls'' (aggregate_aml_pack_daily F df) = int (length (on_server ''ofac-sanctions'' df))"
    using sum_on_days [of days F "on_server ''ofac-sanctions'' df" "\<lambda>_. 1"] days(1,2)
    by (simp add: days(3) column_sum_def comp_def cell_int_def aml_day_def Let_def int_length_sum image_Un)
  show "column_sum ''transaction_graph_calls'' (aggregate_aml_pack_daily F df) =
      int (length (on_server ''transaction-graph'' df))"
    using sum_on_days [of days F "on_server ''transaction-graph'' df" "\<lambda>_. 1"] days(1,2)
    by (simp add: days(3) column_sum_def comp_def cell_int_def aml_day_def Let_def int_length_sum image_Un)
qed

section \<open>Reviews\<close>

definition reviewed :: "telemetry_row list \<Rightarrow> telemetry_row list" where
  "reviewed df = filter (\<lambda>r. tl_hitl_decision r \<noteq> None) df"

lemma timed_rows:
  "map_res (\<lambda>r. bind_res (response_seconds F r) (\<lambda>s. Inr (r, s))) rs = Inr ps \<Longrightarrow> map fst ps = rs"
  by (induction rs arbitrary: ps) (auto simp: bind_res_eq_Inr)

lemma timed_rows_fail:
  "map_res (\<lambda>r. bind_res (response_seconds F r) (\<lambda>s. Inr (r, s))) rs = Inl e \<Longrightarrow>
    \<exists>r \<in> set rs. response_seconds F r = Inl e"
  by (induction rs) (auto simp: bind_res_eq_Inl)

lemma hitl_rows:
  assumes "aggregate_hitl_daily F df = Inr rows"
  obtains ps where "map fst ps = reviewed df"
    and "rows = map (hitl_row F) (group_by (\<lambda>(r, _). sf_day F (tl_timestamp r)) ps)"
  using assms unfolding aggregate_hitl_daily_def reviewed_def [symmetric]
  by (auto simp: bind_res_eq_Inr dest!: timed_rows)

lemma hitl_fails:
  "aggregate_hitl_daily F df = Inl e \<Longrightarrow>
    \<exists>r \<in> set (reviewed df). sint (sf_hash F (tl_trace_id r)) = - (2 ^ 31)"
proof -
  assume "aggregate_hitl_daily F df = Inl e"
  then obtain r where "r \<in> set (reviewed df)" "response_seconds F r = Inl e"
    unfolding aggregate_hitl_daily_def reviewed_def [symmetric] bind_res_eq_Inl
    using timed_rows_fail by blast
  then show ?thesis by (auto simp: response_seconds_def Let_def split: if_splits)
qed

lemma count_when_fst: "count_when (\<lambda>(r, _). p r) ps = count_when p (map fst ps)"
  by (simp add: count_when_def comp_def case_prod_beta)

lemma hitl_sums:
  assumes "aggregate_hitl_daily F df = Inr rows"
  shows "column_sum ''tickets_created'' rows = int (length (reviewed df))"
    and "column_sum ''approved'' rows = count_when (\<lambda>r. tl_hitl_decision r = Some ''APPROVED'') (reviewed df)"
    and "column_sum ''denied'' rows = count_when (\<lambda>r. tl_hitl_decision r = Some ''DENIED'') (reviewed df)"
proof -
  obtain ps where ps: "map fst ps = reviewed df"
    and rows: "rows = map (hitl_row F) (group_by (\<lambda>(r, _). sf_day F (tl_timestamp r)) ps)"
    using assms by (rule hitl_rows)
  have len: "length ps = length (reviewed df)" using ps by (metis length_map)
  show "column_sum ''tickets_created'' rows = int (length (reviewed df))"
    unfolding rows by (subst column_sum_groups [where h = "\<lambda>rs. int (length rs)"])
      (auto simp: hitl_row_def cell_int_def group_by_counts len)
  show "column_sum ''approved'' rows = count_when (\<lambda>r. tl_hitl_decision r = Some ''APPROVED'') (reviewed df)"
    unfolding rows
    by (subst column_sum_groups [where h = "count_when (\<lambda>(r, _). tl_hitl_decision r = Some ''APPROVED'')"])
      (auto simp: hitl_row_def cell_int_def group_by_count_when count_when_fst ps)
  show "column_sum ''denied'' rows = count_when (\<lambda>r. tl_hitl_decision r = Some ''DENIED'') (reviewed df)"
    unfolding rows
    by (subst column_sum_groups [where h = "count_when (\<lambda>(r, _). tl_hitl_decision r = Some ''DENIED'')"])
      (auto simp: hitl_row_def cell_int_def group_by_count_when count_when_fst ps)
qed

section \<open>The generated rows\<close>

text \<open>The five ways a generated call ends, in its status, its review and its decision.\<close>

definition verdict_ok :: "telemetry_row \<Rightarrow> bool" where
  "verdict_ok r \<longleftrightarrow>
     (tl_status r, tl_hitl_decision r, dj_outcome (tl_decision r)) \<in>
       {(''DENIED'', None, ''DENY''), (''COMPLETED'', Some ''APPROVED'', ''HOLD''),
        (''DENIED'', Some ''DENIED'', ''HOLD''), (''UPSTREAM_ERROR'', None, ''UPSTREAM_ERROR''),
        (''COMPLETED'', None, ''PASS'')}"

lemma attack_verdict_ok: "verdict_ok (attack_row C i)"
  by (simp add: verdict_ok_def attack_row_def Let_def)

lemma with_outcome_cases:
  "with_outcome r \<in> {''DENY_POLICY'', ''HITL_APPROVED'', ''HITL_DENIED'', ''UPSTREAM_ERROR'', ''PASS''}"
  by (simp add: with_outcome_def Let_def)

lemma baseline_verdict_ok: "verdict_ok (baseline_row C r)"
  using with_outcome_cases [of r]
  by (auto simp: verdict_ok_def baseline_row_def with_status_decision_and_hitl_def Let_def case_prod_beta)

lemma generated_verdict_ok: "r \<in> set (generated_rows C) \<Longrightarrow> verdict_ok r"
  by (auto simp: generated_rows_def build_baseline_rows_def build_attack_rows_def attack_verdict_ok
      baseline_verdict_ok)

lemma verdict_ok_review:
  "\<forall>r \<in> set df. verdict_ok r \<Longrightarrow>
    count_when (\<lambda>r. tl_hitl_decision r = Some ''APPROVED'') (reviewed df) +
    count_when (\<lambda>r. tl_hitl_decision r = Some ''DENIED'') (reviewed df) = int (length (reviewed df))"
  by (induction df) (auto simp: reviewed_def count_when_def verdict_ok_def)

lemma verdict_ok_shares:
  "\<forall>r \<in> set df. verdict_ok r \<Longrightarrow>
    count_when (\<lambda>r. tl_status r = ''DENIED'') df +
    count_when (\<lambda>r. tl_hitl_decision r = Some ''APPROVED'') df +
    count_when (\<lambda>r. tl_status r = ''COMPLETED'' \<and> tl_hitl_decision r = None) df +
    count_when (\<lambda>r. tl_status r = ''UPSTREAM_ERROR'') df = int (length df)"
  by (induction df) (auto simp: count_when_def verdict_ok_def)

lemma aml_mark_investigated:
  fixes df F
  defines "mi \<equiv> on_tool ''mark_investigated'' (on_server ''transaction-graph'' df)"
  shows "column_sum ''mark_investigated_denied'' (aggregate_aml_pack_daily F df) =
      count_when (\<lambda>r. tl_status r = ''DENIED'') mi"
    and "column_sum ''mark_investigated_approved'' (aggregate_aml_pack_daily F df) =
      count_when (\<lambda>r. tl_hitl_decision r = Some ''APPROVED'') mi"
    and "column_sum ''mark_investigated_auto_passed'' (aggregate_aml_pack_daily F df) =
      count_when (\<lambda>r. tl_status r = ''COMPLETED'' \<and> tl_hitl_decision r = None) mi"
proof -
  obtain days where days: "distinct days"
    "set days = (\<lambda>r. sf_day F (tl_timestamp r)) ` set (on_server ''ofac-sanctions'' df @ on_server ''transaction-graph'' df)"
    "aggregate_aml_pack_daily F df = map (aml_day F df) days"
    by (rule aml_rows)
  have swap: "on_tool t (on_day F day rs) = on_day F day (on_tool t rs)" for t day rs
    by (simp add: on_tool_def on_day_def conj_commute)
  have sub: "(\<lambda>r. sf_day F (tl_timestamp r)) ` set mi \<subseteq> set days"
    using days(2) by (auto simp: mi_def on_tool_def)
  have col: "sum_list (map (\<lambda>day. count_when p (on_day F day mi)) days) = count_when p mi" for p
    unfolding count_when_def by (rule sum_on_days [OF days(1) sub])
  show "column_sum ''mark_investigated_denied'' (aggregate_aml_pack_daily F df) =
      count_when (\<lambda>r. tl_status r = ''DENIED'') mi"
    by (simp add: days(3) column_sum_def comp_def cell_int_def aml_day_def Let_def swap mi_def [symmetric] col)
  show "column_sum ''mark_investigated_approved'' (aggregate_aml_pack_daily F df) =
      count_when (\<lambda>r. tl_hitl_decision r = Some ''APPROVED'') mi"
    by (simp add: days(3) column_sum_def comp_def cell_int_def aml_day_def Let_def swap mi_def [symmetric] col)
  show "column_sum ''mark_investigated_auto_passed'' (aggregate_aml_pack_daily F df) =
      count_when (\<lambda>r. tl_status r = ''COMPLETED'' \<and> tl_hitl_decision r = None) mi"
    by (simp add: days(3) column_sum_def comp_def cell_int_def aml_day_def Let_def swap mi_def [symmetric] col)
qed

section \<open>Structuring alerts\<close>

lemma tags_flagged:
  "tags_array (json_array_text [''pack:aml'', ''regulation:BSA'', ''incident:structuring'', ''severity:high'']) =
    [''pack:aml'', ''regulation:BSA'', ''incident:structuring'', ''severity:high'']"
  by code_simp

lemma tags_plain:
  "tags_array (json_array_text [''pack:aml'', ''regulation:BSA'']) = [''pack:aml'', ''regulation:BSA'']"
  by code_simp

lemma tags_none: "tags_array (json_array_text []) = [[]]"
  by code_simp

lemma tags_name_structuring:
  "''incident:structuring'' \<in> set (tags_array (with_tags C n server tool)) \<longleftrightarrow>
    server = ''transaction-graph'' \<and> tool = ''structuring_check'' \<and> cf_rand C (TELEMETRY_SEED + 6) n < 3 / 10"
  by (auto simp: with_tags_def Let_def tags_flagged tags_plain tags_none)

definition structuring_alert :: "telemetry_row \<Rightarrow> bool" where
  "structuring_alert r \<longleftrightarrow> ''incident:structuring'' \<in> set (tags_array (tl_tags r))"

lemma generated_alert:
  "r \<in> set (generated_rows C) \<Longrightarrow> structuring_alert r \<Longrightarrow>
    tl_server r = ''transaction-graph'' \<and> tl_tool r = ''structuring_check''"
  by (auto simp: structuring_alert_def generated_rows_def build_baseline_rows_def build_attack_rows_def
      baseline_row_def attack_row_def Let_def case_prod_beta tags_name_structuring tags_plain)

lemma aml_alerts:
  "column_sum ''structuring_alerts'' (aggregate_aml_pack_daily F df) =
    int (length (filter structuring_alert (on_server ''transaction-graph'' df)))"
proof -
  obtain days where days: "distinct days"
    "set days = (\<lambda>r. sf_day F (tl_timestamp r)) ` set (on_server ''ofac-sanctions'' df @ on_server ''transaction-graph'' df)"
    "aggregate_aml_pack_daily F df = map (aml_day F df) days"
    by (rule aml_rows)
  have swap: "filter structuring_alert (on_day F day rs) = on_day F day (filter structuring_alert rs)" for day rs
    by (simp add: on_day_def conj_commute)
  have "(\<lambda>r. sf_day F (tl_timestamp r)) ` set (filter structuring_alert (on_server ''transaction-graph'' df)) \<subseteq> set days"
    using days(2) by auto
  from sum_on_days [OF days(1) this, of "\<lambda>_. 1"] show ?thesis
    by (simp add: days(3) column_sum_def comp_def cell_int_def aml_day_def Let_def int_length_sum [symmetric]
        structuring_alert_def [symmetric] swap)
qed

section \<open>The rows fit the tables\<close>

text \<open>The columns a row gives for a table of the specification, and that the table takes them.\<close>

definition fits_spec :: "string \<Rightarrow> result_row \<Rightarrow> bool" where
  "fits_spec table row \<longleftrightarrow>
     (\<exists>columns vs. map_of TABLE_SPECS table = Some columns \<and> copy_row table columns row = Inr vs \<and> is_synthetic vs)"

lemmas table_defs = TABLE_SPECS_def database_tables_def TelemetryHourly_def PolicyFiresDaily_def HitlDaily_def
  AmlPackDaily_def CostDaily_def id_column_def required_def

lemmas copy_defs = fits_spec_def copy_row_def dict_item_def columns_accept_def is_synthetic_def

lemma hourly_row_fits: "fits_spec ''agg_telemetry_hourly'' (hourly_row F g)"
  by (simp add: copy_defs table_defs hourly_row_def split: prod.splits)

lemma policy_fires_row_fits: "fits_spec ''agg_policy_fires_daily'' (policy_fires_row g)"
  by (simp add: copy_defs table_defs policy_fires_row_def split: prod.splits)

lemma hitl_row_fits: "fits_spec ''agg_hitl_daily'' (hitl_row F g)"
  by (simp add: copy_defs table_defs hitl_row_def split: prod.splits)

lemma aml_day_fits: "fits_spec ''agg_aml_pack_daily'' (aml_day F df day)"
  by (simp add: copy_defs table_defs aml_day_def Let_def)

lemma cost_row_fits: "fits_spec ''agg_cost_daily'' (cost_row g)"
  by (simp add: copy_defs table_defs cost_row_def split: prod.splits)

section \<open>The refresh\<close>

text \<open>What a table receives for the rows of an aggregate.\<close>

definition copied_rows :: "string \<Rightarrow> result_row list \<Rightarrow> result_row list" where
  "copied_rows table rows =
     map (\<lambda>row. case bind_res (dict_item TABLE_SPECS table) (\<lambda>columns. copy_row table columns row) of
        Inl e \<Rightarrow> [] | Inr vs \<Rightarrow> vs) rows"

definition refreshed :: "string \<Rightarrow> result_row list \<Rightarrow> result_row list \<Rightarrow> result_row list" where
  "refreshed table rows old = filter (\<lambda>r. \<not> is_synthetic r) old @ copied_rows table rows"

lemma map_res_all_Inr:
  "\<forall>x \<in> set xs. f x = Inr (g x) \<Longrightarrow> map_res f xs = Inr (map g xs)"
  by (induction xs) auto

lemma fits_spec_copy:
  assumes "\<forall>row \<in> set rows. fits_spec table row" and "map_of TABLE_SPECS table = Some columns"
  shows "map_res (copy_row table columns) rows = Inr (copied_rows table rows)"
  unfolding copied_rows_def using assms
  by (intro map_res_all_Inr) (auto simp: fits_spec_def dict_item_def)

lemma fits_spec_synthetic:
  "\<forall>row \<in> set rows. fits_spec table row \<Longrightarrow> \<forall>r \<in> set (copied_rows table rows). is_synthetic r"
  by (auto simp: copied_rows_def fits_spec_def dict_item_def)

lemma write_table_fits:
  assumes "\<forall>row \<in> set rows. fits_spec table row" and "map_of TABLE_SPECS table = Some columns"
  shows "write_table table columns rows db = (Inr (), db(table := refreshed table rows (db table)))"
  using fits_spec_copy [OF assms] by (simp add: write_table_def refreshed_def)

definition aggregates_fit :: "(string \<times> result_row list) list \<Rightarrow> bool" where
  "aggregates_fit as \<longleftrightarrow> distinct (map fst as) \<and>
     (\<forall>(table, rows) \<in> set as. table \<in> dom (map_of TABLE_SPECS) \<and> (\<forall>row \<in> set rows. fits_spec table row))"

lemma write_tables_fit:
  "aggregates_fit as \<Longrightarrow> write_tables as db =
    (Inr (), \<lambda>t. case map_of as t of None \<Rightarrow> db t | Some rows \<Rightarrow> refreshed t rows (db t))"
proof (induction as arbitrary: db)
  case Nil
  then show ?case by (simp add: cret_def)
next
  case (Cons a as)
  obtain table rows where a: "a = (table, rows)" by (cases a)
  obtain columns where columns: "map_of TABLE_SPECS table = Some columns"
    using Cons.prems a by (auto simp: aggregates_fit_def)
  have fit: "\<forall>row \<in> set rows. fits_spec table row" and rest: "aggregates_fit as"
    and new: "map_of as table = None"
    using Cons.prems a by (auto simp: aggregates_fit_def map_of_eq_None_iff)
  have item: "dict_item TABLE_SPECS table = Inr columns" by (simp add: dict_item_def columns)
  show ?case
    using new
    by (auto simp: a item cbind_def clift_def write_table_fits [OF fit columns] Cons.IH [OF rest] fun_eq_iff
        split: option.splits)
qed

lemma refreshed_again:
  assumes "\<forall>row \<in> set rows. fits_spec table row"
  shows "refreshed table rows (refreshed table rows old) = refreshed table rows old"
    and "filter (\<lambda>r. \<not> is_synthetic r) (refreshed table rows old) = filter (\<lambda>r. \<not> is_synthetic r) old"
    and "filter is_synthetic (refreshed table rows old) = copied_rows table rows"
  using fits_spec_synthetic [OF assms] by (simp_all add: refreshed_def filter_empty_conv filter_True)

definition aggregates :: "session_fns \<Rightarrow> telemetry_row list \<Rightarrow> result_row list \<Rightarrow> (string \<times> result_row list) list" where
  "aggregates F raw hitl_daily =
     [(''agg_telemetry_hourly'', aggregate_telemetry_hourly F raw),
      (''agg_policy_fires_daily'', aggregate_policy_fires_daily F raw),
      (''agg_hitl_daily'', hitl_daily),
      (''agg_aml_pack_daily'', aggregate_aml_pack_daily F raw),
      (''agg_cost_daily'', aggregate_cost_daily F raw)]"

lemma aml_rows_fit: "row \<in> set (aggregate_aml_pack_daily F raw) \<Longrightarrow> fits_spec ''agg_aml_pack_daily'' row"
  by (rule aml_rows [of F raw]) (auto simp: aml_day_fits)

lemma hitl_rows_fit:
  "aggregate_hitl_daily F raw = Inr rows \<Longrightarrow> row \<in> set rows \<Longrightarrow> fits_spec ''agg_hitl_daily'' row"
  by (erule hitl_rows) (auto simp: hitl_row_fits)

lemma aggregates_fit:
  assumes "aggregate_hitl_daily F raw = Inr rows"
  shows "aggregates_fit (aggregates F raw rows)"
proof -
  have "\<forall>row \<in> set (aggregate_telemetry_hourly F raw). fits_spec ''agg_telemetry_hourly'' row"
    "\<forall>row \<in> set (aggregate_policy_fires_daily F raw). fits_spec ''agg_policy_fires_daily'' row"
    "\<forall>row \<in> set (aggregate_cost_daily F raw). fits_spec ''agg_cost_daily'' row"
    by (auto simp: aggregate_telemetry_hourly_def aggregate_policy_fires_daily_def aggregate_cost_daily_def
        hourly_row_fits policy_fires_row_fits cost_row_fits)
  moreover have "set (map fst (aggregates F raw rows)) \<subseteq> dom (map_of TABLE_SPECS)"
    by (simp add: aggregates_def TABLE_SPECS_def)
  ultimately show ?thesis
    using hitl_rows_fit [OF assms] aml_rows_fit by (auto simp: aggregates_fit_def aggregates_def)
qed

lemma run_aggregation_result:
  "run_aggregation F raw db =
     (case aggregate_hitl_daily F raw of
        Inl e \<Rightarrow> (Inl e, db)
      | Inr rows \<Rightarrow> (Inr (), \<lambda>t. case map_of (aggregates F raw rows) t of
            None \<Rightarrow> db t | Some agg \<Rightarrow> refreshed t agg (db t)))"
proof (cases "aggregate_hitl_daily F raw")
  case (Inr rows)
  then show ?thesis
    using write_tables_fit [OF aggregates_fit [OF Inr], of db]
    by (simp only: run_aggregation_def cbind_def clift_def aggregates_def prod.case sum.case)
qed (simp add: run_aggregation_def cbind_def clift_def)

lemma aggregate_fits:
  "aggregate_hitl_daily F raw = Inr rows \<Longrightarrow> map_of (aggregates F raw rows) t = Some agg \<Longrightarrow>
    \<forall>row \<in> set agg. fits_spec t row"
  using aggregates_fit [of F raw rows] by (auto simp: aggregates_fit_def dest!: map_of_SomeD)

lemma run_aggregation_twice:
  "run_aggregation F raw (snd (run_aggregation F raw db)) = run_aggregation F raw db"
proof (cases "aggregate_hitl_daily F raw")
  case (Inr rows)
  then show ?thesis
    by (auto simp: run_aggregation_result fun_eq_iff refreshed_again(1) [OF aggregate_fits [OF Inr]] split: option.splits)
qed (simp add: run_aggregation_result)

lemma run_aggregation_others:
  "filter (\<lambda>r. \<not> is_synthetic r) (snd (run_aggregation F raw db) t) = filter (\<lambda>r. \<not> is_synthetic r) (db t)"
proof (cases "aggregate_hitl_daily F raw")
  case (Inr rows)
  then show ?thesis
    by (auto simp: run_aggregation_result refreshed_again(2) [OF aggregate_fits [OF Inr]] split: option.splits)
qed (simp add: run_aggregation_result)

lemma run_aggregation_written:
  assumes "aggregate_hitl_daily F raw = Inr rows"
  shows "map (\<lambda>(table, agg). filter is_synthetic (snd (run_aggregation F raw db) table)) (aggregates F raw rows) =
    map (\<lambda>(table, agg). copied_rows table agg) (aggregates F raw rows)"
proof (rule map_cong [OF refl], clarsimp)
  fix table agg
  assume "(table, agg) \<in> set (aggregates F raw rows)"
  then have "map_of (aggregates F raw rows) table = Some agg"
    using aggregates_fit [OF assms] by (simp add: aggregates_fit_def)
  then show "filter is_synthetic (snd (run_aggregation F raw db) table) = copied_rows table agg"
    by (simp add: run_aggregation_result assms refreshed_again(3) [OF aggregate_fits [OF assms]])
qed

lemma structuring_alerts_bound:
  "column_sum ''structuring_alerts'' (aggregate_aml_pack_daily F (generated_rows C)) \<le>
    int (length (on_tool ''structuring_check'' (on_server ''transaction-graph'' (generated_rows C))))"
proof -
  have "filter structuring_alert (on_server ''transaction-graph'' (generated_rows C)) =
      filter structuring_alert (on_tool ''structuring_check'' (on_server ''transaction-graph'' (generated_rows C)))"
    using generated_alert by (auto simp: on_tool_def on_server_def intro!: filter_cong)
  then show ?thesis by (simp add: aml_alerts)
qed

end
