(* ===== verification/Subsample.thy ===== *)
theory Subsample
  imports Complex_Main "HOL-Library.Multiset" PyCsv ResAction
begin

text \<open>
  The subsampling of the AML data set (\<open>src/src/interpose/analytics/subsample_aml.py\<close>): the
  accounts of the sample, the transactions both of whose parties are in it, the laundering
  patterns of the text file and the check that they survived, and the run of the job with the
  files it leaves behind.

  A Spark data frame is a list of rows. What the job uses of Spark and the job cannot see is a
  parameter: the casts (which raise in ANSI mode, Spark's default), the parsing and printing of
  timestamps, and the order \<open>orderBy(rand(seed))\<close> gives. Ratios are rational numbers where
  the job has doubles.
\<close>

section \<open>Rows and the operations of Spark\<close>

record spark =
  sp_cast_int :: "string \<Rightarrow> int option"
  sp_cast_double :: "string \<Rightarrow> rat option"
  sp_to_timestamp :: "string \<Rightarrow> string \<Rightarrow> int option"
  sp_date_format :: "string \<Rightarrow> int \<Rightarrow> string"
  sp_order_by_rand :: "int \<Rightarrow> string list \<Rightarrow> string list"

text \<open>A row of the raw CSV file, named by \<open>TRANS_COLUMNS\<close>; an empty cell is NULL.\<close>

record raw_txn =
  rt_timestamp :: "string option"
  rt_from_bank :: "string option"
  rt_from_account :: "string option"
  rt_to_bank :: "string option"
  rt_to_account :: "string option"
  rt_amount_received :: "string option"
  rt_receiving_currency :: "string option"
  rt_amount_paid :: "string option"
  rt_payment_currency :: "string option"
  rt_payment_format :: "string option"
  rt_is_laundering :: "string option"

record aml_txn =
  at_timestamp :: "int option"
  at_from_bank :: "string option"
  at_from_account :: "string option"
  at_to_bank :: "string option"
  at_to_account :: "string option"
  at_amount_received :: "rat option"
  at_receiving_currency :: "string option"
  at_amount_paid :: "rat option"
  at_payment_currency :: "string option"
  at_payment_format :: "string option"
  at_is_laundering :: "int option"
  at_from_id :: string
  at_to_id :: string

record raw_account =
  ra_bank_name :: "string option"
  ra_bank_id :: "string option"
  ra_account_number :: "string option"
  ra_entity_id :: "string option"
  ra_entity_name :: "string option"

definition SEED :: int where "SEED = 42"

definition TARGET_ACCOUNTS :: nat where "TARGET_ACCOUNTS = 500000"

definition VERIFY_PATTERN_COUNT :: nat where "VERIFY_PATTERN_COUNT = 100"

text \<open>
  A cast leaves NULL alone and ends the job where it cannot read the cell; \<open>concat_ws\<close> skips
  the NULLs.
\<close>

definition cast_cell :: "(string \<Rightarrow> 'a option) \<Rightarrow> string option \<Rightarrow> 'a option res" where
  "cast_cell f c =
     (case c of None \<Rightarrow> Inr None
      | Some s \<Rightarrow> (case f s of None \<Rightarrow> Inl (Exn SparkErr ''CAST_INVALID_INPUT'') | Some x \<Rightarrow> Inr (Some x)))"

definition concat_ws :: "string \<Rightarrow> string option list \<Rightarrow> string" where
  "concat_ws sep cs = join sep (map the (filter (\<lambda>c. c \<noteq> None) cs))"

definition qualified_id :: "int option \<Rightarrow> string option \<Rightarrow> string" where
  "qualified_id bank account = concat_ws '':'' [map_option show_int bank, account]"

definition load_transaction :: "spark \<Rightarrow> raw_txn \<Rightarrow> aml_txn res" where
  "load_transaction S r =
     bind_res (cast_cell (sp_to_timestamp S ''yyyy/MM/dd HH:mm'') (rt_timestamp r)) (\<lambda>timestamp.
     bind_res (cast_cell (sp_cast_double S) (rt_amount_received r)) (\<lambda>received.
     bind_res (cast_cell (sp_cast_double S) (rt_amount_paid r)) (\<lambda>paid.
     bind_res (cast_cell (sp_cast_int S) (rt_is_laundering r)) (\<lambda>laundering.
     bind_res (cast_cell (sp_cast_int S) (rt_from_bank r)) (\<lambda>from_bank.
     bind_res (cast_cell (sp_cast_int S) (rt_to_bank r)) (\<lambda>to_bank.
       Inr \<lparr>at_timestamp = timestamp, at_from_bank = rt_from_bank r,
            at_from_account = rt_from_account r, at_to_bank = rt_to_bank r,
            at_to_account = rt_to_account r, at_amount_received = received,
            at_receiving_currency = rt_receiving_currency r, at_amount_paid = paid,
            at_payment_currency = rt_payment_currency r, at_payment_format = rt_payment_format r,
            at_is_laundering = laundering,
            at_from_id = qualified_id from_bank (rt_from_account r),
            at_to_id = qualified_id to_bank (rt_to_account r)\<rparr>))))))"

definition load_transactions :: "spark \<Rightarrow> raw_txn list \<Rightarrow> aml_txn list res" where
  "load_transactions S rows = map_res (load_transaction S) rows"

text \<open>The accounts, each with its \<open>account_id\<close>.\<close>

definition load_account :: "spark \<Rightarrow> raw_account \<Rightarrow> (string \<times> raw_account) res" where
  "load_account S r =
     bind_res (cast_cell (sp_cast_int S) (ra_bank_id r)) (\<lambda>bank.
       Inr (qualified_id bank (ra_account_number r), r))"

definition load_accounts :: "spark \<Rightarrow> raw_account list \<Rightarrow> (string \<times> raw_account) list res" where
  "load_accounts S rows = map_res (load_account S) rows"

section \<open>Sampling\<close>

definition laundering :: "aml_txn \<Rightarrow> bool" where
  "laundering t \<longleftrightarrow> at_is_laundering t = Some 1"

text \<open>The distinct parties of a set of transactions.\<close>

definition parties :: "aml_txn list \<Rightarrow> string list" where
  "parties df = remdups (map at_from_id df @ map at_to_id df)"

record sampling_stats =
  sa_account_universe :: nat
  sa_must_include_accounts :: nat
  sa_sampled_accounts :: nat

definition select_sample_accounts :: "spark \<Rightarrow> aml_txn list \<Rightarrow> string list \<times> sampling_stats" where
  "select_sample_accounts S df =
     (let must_include = parties (filter laundering df);
          must_include_count = length must_include;
          universe = parties df;
          remaining_pool = filter (\<lambda>a. a \<notin> set must_include) universe;
          remaining_needed = int TARGET_ACCOUNTS - int must_include_count;
          sample =
            (if remaining_needed \<le> 0 then must_include
             else remdups (must_include
               @ take (nat remaining_needed) (sp_order_by_rand S SEED remaining_pool)))
      in (sample,
          \<lparr>sa_account_universe = length universe, sa_must_include_accounts = must_include_count,
           sa_sampled_accounts = length sample\<rparr>))"

text \<open>Two left semi joins, on the sender and on the receiver.\<close>

definition filter_transactions_to_sample :: "aml_txn list \<Rightarrow> string list \<Rightarrow> aml_txn list" where
  "filter_transactions_to_sample df sample_accounts =
     filter (\<lambda>t. at_to_id t \<in> set sample_accounts)
       (filter (\<lambda>t. at_from_id t \<in> set sample_accounts) df)"

section \<open>Laundering patterns\<close>

record pattern_row =
  pr_from_id :: string
  pr_to_id :: string

record pattern =
  pt_typology :: "string option"
  pt_rows :: "pattern_row list"

text \<open>
  \<open>load_top_patterns\<close> appends to the list \<open>rows\<close> after having stored that very list in a
  pattern, so the lists live in a store: \<open>ls_lists\<close> holds every list made, \<open>rows\<close> is the
  last of them, and a stored pattern names its list by its address.
\<close>

record load_state =
  ls_patterns :: "(string option \<times> nat) list"
  ls_typology :: "string option"
  ls_lists :: "pattern_row list list"

definition load_start :: load_state where
  "load_start = \<lparr>ls_patterns = [], ls_typology = None, ls_lists = [[]]\<rparr>"

definition starts_with :: "string \<Rightarrow> string \<Rightarrow> bool" where
  "starts_with p s \<longleftrightarrow> take (length p) s = p"

definition index_res :: "'a list \<Rightarrow> nat \<Rightarrow> 'a res" where
  "index_res xs i = (if i < length xs then Inr (xs ! i) else Inl (Exn IndexErr ''list index out of range''))"

text \<open>\<open>line.split("-", 1)[1].strip()\<close>\<close>

definition after_dash :: "string \<Rightarrow> string res" where
  "after_dash line =
     (case dropWhile (\<lambda>c. c \<noteq> CHR ''-'') line of
        [] \<Rightarrow> Inl (Exn IndexErr ''list index out of range'')
      | _ # rest \<Rightarrow> Inr (strip rest))"

definition parse_pattern_row :: "string \<Rightarrow> pattern_row res" where
  "parse_pattern_row line =
     (let parts = py_split '','' line in
      bind_res (index_res parts 1) (\<lambda>from_bank.
      bind_res (py_int from_bank) (\<lambda>from_bank.
      bind_res (index_res parts 2) (\<lambda>from_account.
      bind_res (index_res parts 3) (\<lambda>to_bank.
      bind_res (py_int to_bank) (\<lambda>to_bank.
      bind_res (index_res parts 4) (\<lambda>to_account.
        Inr \<lparr>pr_from_id = show_int from_bank @ '':'' @ from_account,
             pr_to_id = show_int to_bank @ '':'' @ to_account\<rparr>)))))))"

text \<open>The body of the loop; the flag says whether the loop goes on.\<close>

definition load_line :: "int \<Rightarrow> string \<Rightarrow> load_state \<Rightarrow> (bool \<times> load_state) res" where
  "load_line limit raw_line st =
     (let line = strip raw_line in
      if line = [] then Inr (True, st)
      else if starts_with ''BEGIN LAUNDERING ATTEMPT'' line then
        bind_res (after_dash line) (\<lambda>typology.
          Inr (True, st\<lparr>ls_typology := Some typology, ls_lists := ls_lists st @ [[]]\<rparr>))
      else if starts_with ''END LAUNDERING ATTEMPT'' line then
        (let patterns = ls_patterns st @ [(ls_typology st, length (ls_lists st) - 1)] in
         Inr (int (length patterns) < limit, st\<lparr>ls_patterns := patterns\<rparr>))
      else bind_res (parse_pattern_row line) (\<lambda>r.
        Inr (True, st\<lparr>ls_lists := butlast (ls_lists st) @ [last (ls_lists st) @ [r]]\<rparr>)))"

fun load_lines :: "int \<Rightarrow> string list \<Rightarrow> load_state \<Rightarrow> load_state res" where
  "load_lines limit [] st = Inr st"
| "load_lines limit (l # ls) st =
     bind_res (load_line limit l st) (\<lambda>(go, st'). if go then load_lines limit ls st' else Inr st')"

definition load_top_patterns :: "int \<Rightarrow> string list \<Rightarrow> pattern list res" where
  "load_top_patterns limit lines =
     bind_res (load_lines limit lines load_start) (\<lambda>st.
       Inr (map (\<lambda>(typology, a). \<lparr>pt_typology = typology, pt_rows = ls_lists st ! a\<rparr>) (ls_patterns st)))"

section \<open>Connectivity\<close>

record broken_pattern =
  bp_index :: nat
  bp_typology :: "string option"
  bp_missing_accounts :: "string list"

record connectivity =
  cn_checked :: nat
  cn_fully_preserved :: int
  cn_broken :: "broken_pattern list"

definition pattern_accounts :: "pattern \<Rightarrow> string list" where
  "pattern_accounts p = remdups (map pr_from_id (pt_rows p) @ map pr_to_id (pt_rows p))"

definition missing_accounts :: "string list \<Rightarrow> pattern \<Rightarrow> string list" where
  "missing_accounts sample p = sort (filter (\<lambda>a. a \<notin> set sample) (pattern_accounts p))"

definition broken_patterns :: "string list \<Rightarrow> pattern list \<Rightarrow> broken_pattern list" where
  "broken_patterns sample patterns =
     map (\<lambda>(i, p). \<lparr>bp_index = i, bp_typology = pt_typology p, bp_missing_accounts = missing_accounts sample p\<rparr>)
       (filter (\<lambda>(i, p). \<not> set (pattern_accounts p) \<subseteq> set sample) (enumerate 0 patterns))"

definition verify_pattern_connectivity :: "string list \<Rightarrow> pattern list \<Rightarrow> connectivity" where
  "verify_pattern_connectivity sample_account_ids patterns =
     (let broken = broken_patterns sample_account_ids patterns in
      \<lparr>cn_checked = length patterns, cn_fully_preserved = int (length patterns) - int (length broken),
       cn_broken = broken\<rparr>)"

section \<open>The run\<close>

record subsample_report =
  sr_seed :: int
  sr_target_accounts :: nat
  sr_raw_total_txns :: nat
  sr_raw_laundering_txns :: nat
  sr_raw_laundering_ratio_pct :: rat
  sr_account_stats :: sampling_stats
  sr_total_txns :: nat
  sr_laundering_txns :: nat
  sr_laundering_ratio_pct :: rat
  sr_pattern_connectivity :: connectivity

text \<open>
  What the run leaves on disk: the transactions with the month they are partitioned by, the
  accounts, and the report. What a write that fails half way leaves is not modelled: it is
  taken to leave the old files.
\<close>

record out_dir =
  od_transactions :: "(string option \<times> aml_txn) list"
  od_accounts :: "(string \<times> raw_account) list"
  od_report :: "subsample_report option"

definition ratio_pct :: "nat \<Rightarrow> nat \<Rightarrow> rat res" where
  "ratio_pct n total_txns =
     (if total_txns = 0 then Inl (Exn ZeroDivisionErr ''division by zero'')
      else Inr (of_nat n / of_nat total_txns * 100))"

definition repr_broken :: "broken_pattern \<Rightarrow> string" where
  "repr_broken b =
     py_repr ''index'' @ '': '' @ show_nat (bp_index b) @ '', '' @
     py_repr ''typology'' @ '': '' @ (case bp_typology b of None \<Rightarrow> ''None'' | Some t \<Rightarrow> py_repr t) @ '', '' @
     py_repr ''missing_accounts'' @ '': '' @ py_repr_list (bp_missing_accounts b)"

definition laundering_lost :: "nat \<Rightarrow> nat \<Rightarrow> exn" where
  "laundering_lost expected got =
     Exn RuntimeErr (''expected all '' @ show_nat expected @
       '' laundering transactions to survive filtering (their accounts are all in the must-include set), but only '' @
       show_nat got @ '' did -- sampling logic has a bug'')"

definition patterns_broken :: "connectivity \<Rightarrow> exn" where
  "patterns_broken c =
     Exn RuntimeErr (show_nat (length (cn_broken c)) @ '' of '' @ show_nat (cn_checked c) @
       '' checked laundering patterns lost connectivity in the sample: ['' @
       join '', '' (map (\<lambda>b. ''{'' @ repr_broken b @ ''}'') (take 3 (cn_broken c))) @ '']'')"

definition write_transactions :: "spark \<Rightarrow> aml_txn list \<Rightarrow> out_dir \<Rightarrow> unit res \<times> out_dir" where
  "write_transactions S filtered d =
     (Inr (), d\<lparr>od_transactions :=
        map (\<lambda>t. (map_option (sp_date_format S ''yyyy-MM'') (at_timestamp t), t)) filtered\<rparr>)"

definition write_accounts :: "(string \<times> raw_account) list \<Rightarrow> out_dir \<Rightarrow> unit res \<times> out_dir" where
  "write_accounts accounts d = (Inr (), d\<lparr>od_accounts := accounts\<rparr>)"

definition write_report :: "subsample_report \<Rightarrow> out_dir \<Rightarrow> unit res \<times> out_dir" where
  "write_report r d = (Inr (), d\<lparr>od_report := Some r\<rparr>)"

definition run_subsample ::
    "spark \<Rightarrow> raw_txn list \<Rightarrow> string list \<Rightarrow> raw_account list \<Rightarrow> out_dir \<Rightarrow> unit res \<times> out_dir" where
  "run_subsample S trans_csv patterns_txt accounts_csv =
     cbind (clift (load_transactions S trans_csv)) (\<lambda>trans.
       let total_txns = length trans; laundering_txns = length (filter laundering trans) in
     cbind (clift (ratio_pct laundering_txns total_txns)) (\<lambda>raw_ratio.
       let (sample_accounts, account_stats) = select_sample_accounts S trans;
           filtered = filter_transactions_to_sample trans sample_accounts;
           filtered_total = length filtered;
           filtered_laundering = length (filter laundering filtered) in
     cbind (clift (ratio_pct filtered_laundering filtered_total)) (\<lambda>filtered_ratio.
     if filtered_laundering \<noteq> laundering_txns
     then cthrow (laundering_lost laundering_txns filtered_laundering)
     else
     cbind (clift (load_top_patterns (int VERIFY_PATTERN_COUNT) patterns_txt)) (\<lambda>patterns.
       let connectivity = verify_pattern_connectivity sample_accounts patterns in
     if cn_broken connectivity \<noteq> [] then cthrow (patterns_broken connectivity)
     else
     cbind (write_transactions S filtered) (\<lambda>_.
     cbind (clift (load_accounts S accounts_csv)) (\<lambda>accounts.
     cbind (write_accounts (filter (\<lambda>(a, _). a \<in> set sample_accounts) accounts)) (\<lambda>_.
     write_report
       \<lparr>sr_seed = SEED, sr_target_accounts = TARGET_ACCOUNTS, sr_raw_total_txns = total_txns,
        sr_raw_laundering_txns = laundering_txns, sr_raw_laundering_ratio_pct = raw_ratio,
        sr_account_stats = account_stats, sr_total_txns = filtered_total,
        sr_laundering_txns = filtered_laundering, sr_laundering_ratio_pct = filtered_ratio,
        sr_pattern_connectivity = connectivity\<rparr>)))))))"

section \<open>The sample\<close>

text \<open>
  The sample the job draws: its size is fixed by the data, it has every party of a laundering
  transaction whatever the draw, and every laundering transaction survives the two joins.
\<close>

lemma set_parties [simp]: "set (parties df) = at_from_id ` set df \<union> at_to_id ` set df"
  by (auto simp: parties_def)

lemma distinct_parties [simp]: "distinct (parties df)"
  by (simp add: parties_def)

lemma parties_filter: "set (parties (filter P df)) \<subseteq> set (parties df)"
  by auto

abbreviation sample_of :: "spark \<Rightarrow> aml_txn list \<Rightarrow> string list" where
  "sample_of S df \<equiv> fst (select_sample_accounts S df)"

lemma laundering_parties_sampled:
  "set (parties (filter laundering df)) \<subseteq> set (sample_of S df)"
  by (auto simp: select_sample_accounts_def Let_def)

lemma laundering_kept:
  "filter laundering (filter_transactions_to_sample df (sample_of S df)) = filter laundering df"
proof -
  have "at_from_id t \<in> set (sample_of S df)" "at_to_id t \<in> set (sample_of S df)"
    if "t \<in> set df" "laundering t" for t
    using laundering_parties_sampled [of df S] that by auto
  then show ?thesis
    by (auto simp: filter_transactions_to_sample_def intro!: filter_cong)
qed

lemma length_filter_notin:
  assumes "set must \<subseteq> set universe" and "distinct must" and "distinct universe"
  shows "length (filter (\<lambda>a. a \<notin> set must) universe) = length universe - length must"
proof -
  have "distinct (filter (\<lambda>a. a \<notin> set must) universe)" using assms(3) by simp
  from distinct_card [OF this]
  have "length (filter (\<lambda>a. a \<notin> set must) universe) = card {a \<in> set universe. a \<notin> set must}" by simp
  also have "{a \<in> set universe. a \<notin> set must} = set universe - set must" by blast
  also have "card \<dots> = card (set universe) - card (set must)"
    using assms(1) by (simp add: card_Diff_subset)
  finally show ?thesis using assms by (simp add: distinct_card)
qed

lemma topped_up_length:
  assumes "mset ordered = mset (filter (\<lambda>a. a \<notin> set must) universe)"
    and "set must \<subseteq> set universe" and "distinct must" and "distinct universe"
  shows "length (remdups (must @ take n ordered)) =
    length must + min n (length universe - length must)"
proof -
  have set: "set ordered = {a \<in> set universe. a \<notin> set must}"
    using assms(1) by (metis mset_eq_setD set_filter)
  have dist: "distinct ordered"
    using assms(1,4) by (metis distinct_filter mset_eq_imp_distinct_iff)
  have "length ordered = length universe - length must"
    using assms by (metis length_filter_notin mset_eq_length)
  moreover have "distinct (must @ take n ordered)"
    using set dist assms(3) set_take_subset [of n ordered] by auto
  ultimately show ?thesis by (simp add: distinct_remdups_id min_def)
qed

lemma sample_size:
  assumes perm: "\<And>xs. mset (sp_order_by_rand S SEED xs) = mset xs"
  shows "length (sample_of S df) =
    max (length (parties (filter laundering df))) (min TARGET_ACCOUNTS (length (parties df)))"
proof -
  define must where "must = parties (filter laundering df)"
  define pool where "pool = filter (\<lambda>a. a \<notin> set must) (parties df)"
  have must: "set must \<subseteq> set (parties df)" "distinct must"
    unfolding must_def by (rule parties_filter) (rule distinct_parties)
  have len: "length must \<le> length (parties df)"
    using must by (metis card_mono distinct_card distinct_parties finite_set)
  have top: "length (remdups (must @ take n (sp_order_by_rand S SEED pool))) =
      length must + min n (length (parties df) - length must)" for n
    using perm [of pool] must by (intro topped_up_length) (simp_all add: pool_def)
  have n: "nat (int TARGET_ACCOUNTS - int (length must)) = TARGET_ACCOUNTS - length must" by simp
  have "sample_of S df =
      (if TARGET_ACCOUNTS \<le> length must then must
       else remdups (must @ take (TARGET_ACCOUNTS - length must) (sp_order_by_rand S SEED pool)))"
    by (simp add: select_sample_accounts_def Let_def must_def [symmetric] pool_def [symmetric] n
        del: set_parties)
  then have "length (sample_of S df) =
      (if TARGET_ACCOUNTS \<le> length must then length must
       else length must + min (TARGET_ACCOUNTS - length must) (length (parties df) - length must))"
    using top [of "TARGET_ACCOUNTS - length must"] by presburger
  also have "\<dots> = max (length must) (min TARGET_ACCOUNTS (length (parties df)))"
    using len by (auto simp: max_def min_def)
  finally show ?thesis by (simp add: must_def)
qed

lemma sampling_stats_exact:
  "snd (select_sample_accounts S df) =
    \<lparr>sa_account_universe = length (parties df),
     sa_must_include_accounts = length (parties (filter laundering df)),
     sa_sampled_accounts = length (sample_of S df)\<rparr>"
  by (simp add: select_sample_accounts_def Let_def)

section \<open>Patterns and errors\<close>

lemma broken_patterns_Nil:
  "broken_patterns sample ps = [] \<longleftrightarrow> (\<forall>p \<in> set ps. set (pattern_accounts p) \<subseteq> set sample)"
proof -
  have "broken_patterns sample ps = [] \<longleftrightarrow>
      (\<forall>x \<in> set (enumerate 0 ps). set (pattern_accounts (snd x)) \<subseteq> set sample)"
    by (simp add: broken_patterns_def filter_empty_conv case_prod_beta)
  also have "\<dots> \<longleftrightarrow> (\<forall>p \<in> snd ` set (enumerate 0 ps). set (pattern_accounts p) \<subseteq> set sample)"
    by simp
  also have "snd ` set (enumerate 0 ps) = set ps"
    by (metis list.set_map map_snd_enumerate)
  finally show ?thesis .
qed

lemma verify_connectivity_fields [simp]:
  "cn_broken (verify_pattern_connectivity sample ps) = broken_patterns sample ps"
  "cn_checked (verify_pattern_connectivity sample ps) = length ps"
  by (simp_all add: verify_pattern_connectivity_def Let_def)

text \<open>A result whose exception, if it is one, is not a \<open>RuntimeError\<close>.\<close>

definition no_runtime_error :: "'a res \<Rightarrow> bool" where
  "no_runtime_error r \<longleftrightarrow> (\<forall>e. r = Inl e \<longrightarrow> exn_kind e \<noteq> RuntimeErr)"

named_theorems no_runtime

lemma no_runtime_Inr [no_runtime]: "no_runtime_error (Inr a)"
  by (simp add: no_runtime_error_def)

lemma no_runtime_Inl [no_runtime]: "exn_kind e \<noteq> RuntimeErr \<Longrightarrow> no_runtime_error (Inl e)"
  by (simp add: no_runtime_error_def)

lemma no_runtime_bind [no_runtime]:
  "no_runtime_error r \<Longrightarrow> (\<And>a. no_runtime_error (f a)) \<Longrightarrow> no_runtime_error (bind_res r f)"
  by (cases r) (auto simp: no_runtime_error_def)

lemma no_runtime_map_res [no_runtime]:
  "(\<And>x. no_runtime_error (f x)) \<Longrightarrow> no_runtime_error (map_res f xs)"
  by (induction xs) (auto intro!: no_runtime)

lemma no_runtime_cast_cell [no_runtime]: "no_runtime_error (cast_cell f c)"
  by (auto simp: cast_cell_def no_runtime_error_def split: option.splits)

lemma no_runtime_load_transactions: "no_runtime_error (load_transactions S rows)"
  unfolding load_transactions_def load_transaction_def by (intro no_runtime)

lemma no_runtime_load_accounts: "no_runtime_error (load_accounts S rows)"
  unfolding load_accounts_def load_account_def by (intro no_runtime)

lemma no_runtime_ratio: "no_runtime_error (ratio_pct n m)"
  by (simp add: ratio_pct_def no_runtime_error_def)

lemma no_runtime_py_int [no_runtime]: "no_runtime_error (py_int s)"
  by (auto simp: py_int_def no_runtime_error_def split: prod.splits option.splits)

lemma no_runtime_index [no_runtime]: "no_runtime_error (index_res xs i)"
  by (simp add: index_res_def no_runtime_error_def)

lemma no_runtime_after_dash [no_runtime]: "no_runtime_error (after_dash line)"
  by (auto simp: after_dash_def no_runtime_error_def split: list.splits)

lemma no_runtime_load_line: "no_runtime_error (load_line limit l st)"
  unfolding load_line_def parse_pattern_row_def Let_def by (auto intro!: no_runtime)

lemma no_runtime_load_lines: "no_runtime_error (load_lines limit ls st)"
  by (induction ls arbitrary: st) (auto intro!: no_runtime no_runtime_load_line)

lemma no_runtime_load_top_patterns: "no_runtime_error (load_top_patterns limit ls)"
  unfolding load_top_patterns_def by (intro no_runtime no_runtime_load_lines)

lemmas no_runtime_errors = no_runtime_load_transactions no_runtime_load_accounts no_runtime_ratio
  no_runtime_load_top_patterns

section \<open>Outcomes of the run\<close>

lemma run_subsample_done:
  assumes "run_subsample S csv pats accs d = (Inr (), d')" and "load_transactions S csv = Inr ts"
  shows "map snd (od_transactions d') = filter_transactions_to_sample ts (sample_of S ts) \<and>
    (\<exists>R. od_report d' = Some R \<and> sr_raw_laundering_txns R = length (filter laundering ts) \<and>
       sr_laundering_txns R = length (filter laundering ts) \<and>
       sr_account_stats R = snd (select_sample_accounts S ts) \<and> cn_broken (sr_pattern_connectivity R) = [])"
  using assms
  by (auto simp: run_subsample_def cbind_Inr Let_def case_prod_beta laundering_kept write_transactions_def
      write_accounts_def write_report_def comp_def cthrow_def split: if_splits)

lemma run_subsample_runtime:
  assumes run: "run_subsample S csv pats accs d = (Inl e, d')" and "exn_kind e = RuntimeErr"
    and csv: "load_transactions S csv = Inr ts"
  obtains ps where "load_top_patterns (int VERIFY_PATTERN_COUNT) pats = Inr ps"
    and "broken_patterns (sample_of S ts) ps \<noteq> []" and "d' = d"
proof -
  have no: "r = Inl e \<Longrightarrow> no_runtime_error r \<Longrightarrow> False" for r :: "'a res"
    using assms(2) by (simp add: no_runtime_error_def)
  have 1: "ratio_pct n m \<noteq> Inl e" for n m using no_runtime_ratio assms(2) by (auto simp: no_runtime_error_def)
  have 2: "load_top_patterns n pats \<noteq> Inl e" for n
    using no_runtime_load_top_patterns assms(2) by (auto simp: no_runtime_error_def)
  have 3: "load_accounts S accs \<noteq> Inl e"
    using no_runtime_load_accounts assms(2) by (auto simp: no_runtime_error_def)
  from run csv show ?thesis
    by (auto simp: run_subsample_def cbind_Inl Let_def case_prod_beta laundering_kept 1 2 3 cthrow_def
        write_transactions_def write_accounts_def write_report_def split: if_splits intro: that)
qed

lemma broken_pattern_unlabelled:
  assumes "broken_patterns (sample_of S ts) ps \<noteq> []"
  shows "\<exists>p \<in> set ps. \<exists>a \<in> set (pattern_accounts p). a \<notin> set (parties (filter laundering ts))"
proof -
  from assms obtain p a where "p \<in> set ps" "a \<in> set (pattern_accounts p)" "a \<notin> set (sample_of S ts)"
    unfolding broken_patterns_Nil by blast
  with laundering_parties_sampled [of ts S] show ?thesis by blast
qed

lemma small_universe_kept:
  assumes perm: "\<And>xs. mset (sp_order_by_rand S SEED xs) = mset xs"
    and small: "length (parties df) \<le> TARGET_ACCOUNTS"
  shows "filter_transactions_to_sample df (sample_of S df) = df"
proof -
  define must where "must = parties (filter laundering df)"
  define pool where "pool = filter (\<lambda>a. a \<notin> set must) (parties df)"
  have must: "set must \<subseteq> set (parties df)" "distinct must"
    unfolding must_def by (rule parties_filter) (rule distinct_parties)
  then have "length must \<le> length (parties df)"
    by (metis card_mono distinct_card distinct_parties finite_set)
  moreover have "length (sp_order_by_rand S SEED pool) = length (parties df) - length must"
    using mset_eq_length [OF perm, of pool] must by (simp add: pool_def length_filter_notin)
  ultimately have all: "take (TARGET_ACCOUNTS - length must) (sp_order_by_rand S SEED pool) =
      sp_order_by_rand S SEED pool"
    using small by simp
  have n: "nat (int TARGET_ACCOUNTS - int (length must)) = TARGET_ACCOUNTS - length must" by simp
  have "set (sample_of S df) = set must \<union> (if TARGET_ACCOUNTS \<le> length must then {} else set pool)"
    using mset_eq_setD [OF perm, of pool] all
    by (auto simp: select_sample_accounts_def Let_def must_def [symmetric] pool_def [symmetric] n
        simp del: set_parties)
  moreover have "set must = set (parties df)" if "TARGET_ACCOUNTS \<le> length must"
  proof (rule card_seteq [OF finite_set must(1)])
    show "card (set (parties df)) \<le> card (set must)"
      using that small must(2) distinct_card [OF distinct_parties, of df]
      by (simp add: distinct_card del: set_parties)
  qed
  ultimately have "set (parties df) \<subseteq> set (sample_of S df)" by (auto simp: pool_def)
  then show ?thesis by (auto simp: filter_transactions_to_sample_def intro!: filter_True)
qed

end
