(* ===== verification/TelemetryProps.thy ===== *)
theory TelemetryProps
  imports Telemetry
begin

text \<open>
  The generated telemetry: how many rows there are, that every row lies in the hour it was drawn
  for, which agents can have which outcome, and the burst of the attack.
\<close>

section \<open>Row counts\<close>

lemma round_half_up_close: "\<bar>of_int (round_half_up x) - x\<bar> \<le> 1 / 2"
proof -
  have near: "\<bar>z - x\<bar> \<le> 1 / 2" if "x - 1 / 2 \<le> z" "z \<le> x + 1 / 2" for z
    using that by (simp only: abs_le_iff) linarith
  show ?thesis
  proof (cases "0 \<le> x")
    case True
    have "x - 1 / 2 \<le> of_int \<lfloor>x + 1 / 2\<rfloor>" using floor_correct [of "x + 1 / 2"] by simp
    moreover have "of_int \<lfloor>x + 1 / 2\<rfloor> \<le> x + 1 / 2" by (rule of_int_floor_le)
    ultimately show ?thesis using near True by (simp only: round_half_up_def if_True)
  next
    case False
    have "of_int \<lceil>x - 1 / 2\<rceil> \<le> x + 1 / 2" using ceiling_correct [of "x - 1 / 2"] by simp
    moreover have "x - 1 / 2 \<le> of_int \<lceil>x - 1 / 2\<rceil>" by (rule le_of_int_ceiling)
    ultimately show ?thesis using near False by (simp only: round_half_up_def if_False)
  qed
qed

lemma round_half_up_nonneg: "0 \<le> x \<Longrightarrow> 0 \<le> round_half_up x"
  by (simp add: round_half_up_def)

lemma sum_rounded_close:
  "\<bar>of_int (sum_list (map (\<lambda>b. round_half_up (f b)) bs)) - sum_list (map f bs)\<bar> \<le> of_nat (length bs) / 2"
proof (induction bs)
  case Nil
  then show ?case by simp
next
  case (Cons b bs)
  have "\<bar>(of_int (round_half_up (f b)) - f b) +
      (of_int (sum_list (map (\<lambda>b. round_half_up (f b)) bs)) - sum_list (map f bs))\<bar>
      \<le> 1 / 2 + of_nat (length bs) / 2"
    using round_half_up_close [of "f b"] Cons.IH by linarith
  then show ?case by (simp add: field_simps)
qed

lemma sum_list_scaled:
  fixes w :: "'a \<Rightarrow> rat"
  shows "sum_list (map (\<lambda>b. w b / t * n) bs) = sum_list (map w bs) / t * n"
  by (induction bs) (simp_all add: add_divide_distrib distrib_right)

lemma allocated_close:
  assumes "sum_list (map hb_weight bs) \<noteq> 0"
  shows "\<bar>of_int (sum_list (map snd (allocate_row_counts bs))) - of_nat TARGET_ROWS\<bar> \<le>
    (of_nat (length bs) / 2 :: rat)"
proof -
  define t where "t = sum_list (map hb_weight bs)"
  have "map snd (allocate_row_counts bs) = map (\<lambda>b. round_half_up (hb_weight b / t * of_nat TARGET_ROWS)) bs"
    by (simp add: allocate_row_counts_def Let_def t_def comp_def)
  moreover have "sum_list (map (\<lambda>b. hb_weight b / t * of_nat TARGET_ROWS) bs) = of_nat TARGET_ROWS"
    using assms sum_list_scaled [of hb_weight t "of_nat TARGET_ROWS" bs] by (simp only: t_def) simp
  ultimately show ?thesis
    using sum_rounded_close [of "\<lambda>b. hb_weight b / t * of_nat TARGET_ROWS" bs] by simp
qed

lemma length_build_hour_buckets: "length (build_hour_buckets C) = 672"
proof -
  have "length (build_hour_buckets C) = sum_list (map (\<lambda>d. 24) [0..<NUM_DAYS])"
    by (simp add: build_hour_buckets_def length_concat comp_def)
  then show ?thesis by (simp add: sum_list_triv NUM_DAYS_def NUM_WEEKS_def)
qed

lemma bucket_weight_pos:
  assumes "\<And>x. - 1 \<le> cf_cos C x"
  shows "0 < hb_weight (hour_bucket_of C d h)"
proof -
  have "0 < 15 / 100 + 85 / 100 * ((x + 1) / 2)" if "- 1 \<le> x" for x :: rat
    using that by (simp add: field_simps)
  then have "0 < hour_weight C h"
    using assms unfolding hour_weight_def Let_def by blast
  moreover have "0 < day_weight d" by (simp add: day_weight_def Let_def)
  ultimately show ?thesis by (simp add: hour_bucket_of_def Let_def)
qed

lemma build_hour_buckets_pos:
  assumes "\<And>x. - 1 \<le> cf_cos C x" and "b \<in> set (build_hour_buckets C)"
  shows "0 < hb_weight b"
  using assms(2) bucket_weight_pos [of C, OF assms(1)] by (auto simp: build_hour_buckets_def)

lemma total_weight_pos:
  assumes "\<And>x. - 1 \<le> cf_cos C x"
  shows "0 < sum_list (map hb_weight (build_hour_buckets C))"
proof -
  have "build_hour_buckets C \<noteq> []" using length_build_hour_buckets [of C] by auto
  moreover have "bs \<noteq> [] \<Longrightarrow> \<forall>b \<in> set bs. 0 < hb_weight b \<Longrightarrow> 0 < sum_list (map hb_weight bs)" for bs
  proof (induction bs)
    case (Cons b bs)
    then show ?case by (cases "bs = []") (auto intro: add_pos_pos)
  qed simp
  ultimately show ?thesis using build_hour_buckets_pos [OF assms] by blast
qed

lemma length_build_base_rows:
  "length (build_base_rows C counts) = sum_list (map (nat \<circ> snd) counts)"
proof -
  have "sum_list (map (nat \<circ> snd) (filter (\<lambda>(b, n). 0 < n) counts)) = sum_list (map (nat \<circ> snd) counts)"
    for counts :: "(hour_bucket \<times> int) list"
    by (induction counts) auto
  then show ?thesis
    by (simp add: build_base_rows_def length_concat comp_def case_prod_beta)
qed

lemma int_sum_list_nat: "\<forall>x \<in> set xs. 0 \<le> x \<Longrightarrow> int (sum_list (map nat xs)) = sum_list xs"
  by (induction xs) auto

lemma generated_volume:
  assumes "\<And>x. - 1 \<le> cf_cos C x"
  shows "\<bar>int (length (generated_rows C)) - int (TARGET_ROWS + ATTACK_CALL_COUNT)\<bar> \<le> 336"
proof -
  define bs where "bs = build_hour_buckets C"
  define ns where "ns = map snd (allocate_row_counts bs)"
  have pos: "0 < sum_list (map hb_weight bs)" unfolding bs_def by (rule total_weight_pos [OF assms])
  have "\<forall>n \<in> set ns. 0 \<le> n"
    using pos build_hour_buckets_pos [OF assms]
    by (auto simp: ns_def bs_def allocate_row_counts_def Let_def less_imp_le intro!: round_half_up_nonneg
        mult_nonneg_nonneg divide_nonneg_nonneg)
  from int_sum_list_nat [OF this] have "int (length (build_baseline_rows C)) = sum_list ns"
    by (simp add: build_baseline_rows_def length_build_base_rows ns_def bs_def)
  moreover have "\<bar>of_int (sum_list ns) - of_nat TARGET_ROWS\<bar> \<le> (336 :: rat)"
    using allocated_close [of bs] pos length_build_hour_buckets [of C] by (simp add: ns_def bs_def)
  then have "\<bar>sum_list ns - int TARGET_ROWS\<bar> \<le> 336" by linarith
  ultimately show ?thesis by (simp add: generated_rows_def build_attack_rows_def)
qed

section \<open>The columns of a base row\<close>

text \<open>\<open>rand\<close> draws from the half-open unit interval.\<close>

definition unit_draws :: "column_fns \<Rightarrow> bool" where
  "unit_draws C \<longleftrightarrow> (\<forall>s n. 0 \<le> cf_rand C s n \<and> cf_rand C s n < 1)"

lemma cast_long_bounds:
  assumes "0 \<le> x" and "x < of_int n"
  shows "0 \<le> cast_long x \<and> cast_long x < n"
  using assms by (simp add: cast_long_def floor_less_iff)

lemma scaled_draw:
  fixes x y :: rat
  assumes "0 \<le> x" and "x < 1" and "0 \<le> y" and "y \<le> n"
  shows "0 \<le> x * y \<and> x * y \<le> n"
  using assms mult_right_mono [of x 1 y] by simp

lemma base_row_draws:
  assumes "unit_draws C" and "r \<in> set (build_base_rows C counts)"
  shows "0 \<le> br_rand_a r" "br_rand_a r < 1" "0 \<le> br_rand_b r" "br_rand_b r < 1" "0 \<le> br_rand_c r" "br_rand_c r < 1"
    "0 \<le> br_rand_d r" "br_rand_d r < 1" "0 \<le> br_rand_e r" "br_rand_e r < 1"
  using assms by (auto simp: build_base_rows_def base_row_of_def unit_draws_def)

lemma with_timestamp_hour:
  assumes "unit_draws C" and "r \<in> set (build_base_rows C counts)"
  shows "(with_timestamp r - unix_start) div 3600 = int (br_day_offset r) * 24 + int (br_hour r)"
proof -
  have "0 \<le> cast_long (x * 60) \<and> cast_long (x * 60) < 60" if "0 \<le> x" "x < 1" for x :: rat
    using that by (intro cast_long_bounds) auto
  note bounds = this [OF base_row_draws(3,4) [OF assms]] this [OF base_row_draws(5,6) [OF assms]]
  have "(minute * 60 + second + 3600 * (d * 24 + h)) div 3600 = d * 24 + h"
    if "0 \<le> minute \<and> minute < 60" "0 \<le> second \<and> second < 60" for minute second d h :: int
    using that by (subst div_mult_self2) (simp_all add: div_pos_pos_trivial)
  from this [OF bounds, of "int (br_day_offset r)" "int (br_hour r)"] show ?thesis
    unfolding with_timestamp_def Let_def by (simp add: algebra_simps)
qed

lemma server_and_tool_listed:
  assumes "unit_draws C" and "r \<in> set (build_base_rows C counts)"
  shows "with_server_and_tool r \<in> set SERVER_TOOL_PAIRS"
proof -
  have "0 \<le> cast_long (br_rand_e r * 100) \<and> cast_long (br_rand_e r * 100) < 100"
    using base_row_draws(9,10) [OF assms] by (intro cast_long_bounds) auto
  then show ?thesis
    unfolding with_server_and_tool_def Let_def by (intro nth_mem) (simp add: num_server_tool_pairs nat_less_iff)
qed

section \<open>Which agents get which outcome\<close>

text \<open>
  The outcome and the agent are drawn with the same column \<open>_rand_a\<close>, so that the agents of the
  calls that do not pass are the first hundred of the fleet (the first 325 inside an incident).
\<close>

definition outcome_ceiling :: "bool \<Rightarrow> rat" where
  "outcome_ceiling incident = (if incident then 65 / 100 else 20 / 100)"

lemma not_passed_draw:
  "with_outcome r \<noteq> ''PASS'' \<Longrightarrow> br_rand_a r < outcome_ceiling (br_in_incident_window r)"
  by (auto simp: with_outcome_def outcome_ceiling_def Let_def BASELINE_DENY_RATE_def INCIDENT_DENY_RATE_def
      HITL_APPROVED_RATE_def HITL_DENIED_RATE_def UPSTREAM_ERROR_RATE_def split: if_splits)

lemma denied_draw:
  "with_outcome r = ''DENY_POLICY'' \<longleftrightarrow>
    br_rand_a r < (if br_in_incident_window r then 55 / 100 else 10 / 100)"
  by (auto simp: with_outcome_def Let_def BASELINE_DENY_RATE_def INCIDENT_DENY_RATE_def)

lemma agent_index_below:
  assumes "0 \<le> br_rand_a r" and "br_rand_a r < q" and "0 \<le> br_rand_d r" and "br_rand_d r < 1"
    and "of_int n = q * 500"
  shows "0 \<le> agent_index r \<and> agent_index r < n"
proof -
  have "br_rand_d r * br_rand_a r \<le> br_rand_a r"
    using assms scaled_draw [of "br_rand_d r" "br_rand_a r" "br_rand_a r"] by simp
  then have "br_rand_d r * br_rand_a r * 500 < of_int n" using assms(2,5) by linarith
  then show ?thesis
    using assms unfolding agent_index_def by (intro cast_long_bounds) (simp_all add: NUM_AGENTS_def)
qed

lemma not_passed_agents:
  assumes "unit_draws C" and "r \<in> set (build_base_rows C counts)" and "with_outcome r \<noteq> ''PASS''"
  shows "agent_index r < (if br_in_incident_window r then 325 else 100)"
  using agent_index_below [OF base_row_draws(1) [OF assms(1,2)] not_passed_draw [OF assms(3)]
      base_row_draws(7,8) [OF assms(1,2)], of "if br_in_incident_window r then 325 else 100"]
  by (simp add: outcome_ceiling_def)

lemma denied_agents:
  assumes "unit_draws C" and "r \<in> set (build_base_rows C counts)" and "with_outcome r = ''DENY_POLICY''"
  shows "agent_index r < (if br_in_incident_window r then 275 else 50)"
  using agent_index_below [OF base_row_draws(1) [OF assms(1,2)] assms(3) [unfolded denied_draw]
      base_row_draws(7,8) [OF assms(1,2)], of "if br_in_incident_window r then 275 else 50"]
  by simp

section \<open>The attack\<close>

lemma attack_burst:
  "length (build_attack_rows C) = 5000"
  "r \<in> set (build_attack_rows C) \<Longrightarrow>
    tl_agent_id r = agent_name 217 \<and> (tl_server r, tl_tool r) = (''ofac-sanctions'', ''check_entity'') \<and>
    (tl_timestamp r - unix_start) div 3600 = 18 * 24 + 2"
  by (auto simp: build_attack_rows_def ATTACK_CALL_COUNT_def attack_row_def Let_def ATTACK_AGENT_INDEX_def
      ATTACK_SERVER_def ATTACK_TOOL_def ATTACK_DAY_OFFSET_def ATTACK_HOUR_def)

end
