(* ===== verification/SampleAnalytics.thy ===== *)
theory SampleAnalytics
  imports Subsample TelemetryProps
begin

text \<open>
  One laundering transfer with its pattern file, for the subsampling, and a Spark whose draws
  are all one twentieth, for the telemetry.
\<close>

definition sample_spark :: spark where
  "sample_spark =
     \<lparr>sp_cast_int = (\<lambda>s. case py_int s of Inl e \<Rightarrow> None | Inr i \<Rightarrow> Some i), sp_cast_double = (\<lambda>s. Some 5),
      sp_to_timestamp = (\<lambda>f s. Some 0), sp_date_format = (\<lambda>f t. ''2022-09''), sp_order_by_rand = (\<lambda>seed xs. xs)\<rparr>"

definition sample_raw :: raw_txn where
  "sample_raw =
     \<lparr>rt_timestamp = Some ''2022/09/01 00:20'', rt_from_bank = Some ''010'', rt_from_account = Some ''A1'',
      rt_to_bank = Some ''3'', rt_to_account = Some ''B2'', rt_amount_received = Some ''5'',
      rt_receiving_currency = Some ''Euro'', rt_amount_paid = Some ''5'', rt_payment_currency = Some ''Euro'',
      rt_payment_format = Some ''Wire'', rt_is_laundering = Some ''1''\<rparr>"

definition sample_transfer :: aml_txn where
  "sample_transfer =
     \<lparr>at_timestamp = Some 0, at_from_bank = Some ''010'', at_from_account = Some ''A1'',
      at_to_bank = Some ''3'', at_to_account = Some ''B2'', at_amount_received = Some 5,
      at_receiving_currency = Some ''Euro'', at_amount_paid = Some 5, at_payment_currency = Some ''Euro'',
      at_payment_format = Some ''Wire'', at_is_laundering = Some 1, at_from_id = ''10:A1'', at_to_id = ''3:B2''\<rparr>"

definition sample_patterns :: "string list" where
  "sample_patterns =
     [''BEGIN LAUNDERING ATTEMPT - CYCLE'', ''2022/09/01 00:20,010,A1,3,B2,5,Euro'', ''END LAUNDERING ATTEMPT - CYCLE'']"

definition no_files :: out_dir where
  "no_files = \<lparr>od_transactions = [], od_accounts = [], od_report = None\<rparr>"

lemma sample_load: "load_transactions sample_spark [sample_raw] = Inr [sample_transfer]"
  by code_simp

lemma sample_load_patterns:
  "load_lines 100 sample_patterns load_start =
     Inr \<lparr>ls_patterns = [(Some ''CYCLE'', 1)], ls_typology = Some ''CYCLE'',
       ls_lists = [[], [\<lparr>pr_from_id = ''10:A1'', pr_to_id = ''3:B2''\<rparr>]]\<rparr>"
  by code_simp

lemma sample_select: "sample_of sample_spark [sample_transfer] = [''10:A1'', ''3:B2'']"
  by (simp add: select_sample_accounts_def sample_transfer_def parties_def laundering_def sample_spark_def
      TARGET_ACCOUNTS_def Let_def)

lemma sample_order: "mset (sp_order_by_rand sample_spark SEED xs) = mset xs"
  by (simp add: sample_spark_def)

lemma sample_run: "fst (run_subsample sample_spark [sample_raw] sample_patterns [] no_files) = Inr ()"
proof -
  have pats: "load_top_patterns 100 sample_patterns =
      Inr [\<lparr>pt_typology = Some ''CYCLE'', pt_rows = [\<lparr>pr_from_id = ''10:A1'', pr_to_id = ''3:B2''\<rparr>]\<rparr>]"
    by (simp add: load_top_patterns_def sample_load_patterns)
  have kept: "filter_transactions_to_sample [sample_transfer] [''10:A1'', ''3:B2''] = [sample_transfer]"
    by (simp add: filter_transactions_to_sample_def sample_transfer_def)
  have one: "filter laundering [sample_transfer] = [sample_transfer]"
    by (simp add: laundering_def sample_transfer_def)
  show ?thesis
    unfolding run_subsample_def Let_def case_prod_beta cbind_def clift_def sample_load
    by (simp add: sample_select kept one ratio_pct_def pats VERIFY_PATTERN_COUNT_def broken_patterns_def
        pattern_accounts_def load_accounts_def write_transactions_def write_accounts_def write_report_def)
qed

definition sample_columns :: column_fns where
  "sample_columns =
     \<lparr>cf_rand = (\<lambda>s n. 1 / 20), cf_randn = (\<lambda>s n. 0), cf_uuid = (\<lambda>c n. c @ show_nat n), cf_cos = (\<lambda>x. 1),
      cf_exp = (\<lambda>x. 150), cf_log = (\<lambda>x. 5)\<rparr>"

definition sample_base :: base_row where
  "sample_base =
     \<lparr>br_day_offset = 0, br_hour = 9, br_in_incident_window = False, br_bucket_idx = 0, br_position = 0,
      br_rand_a = 1 / 20, br_rand_b = 1 / 20, br_rand_c = 1 / 20, br_rand_d = 1 / 20, br_rand_e = 1 / 20\<rparr>"

definition sample_bucket :: hour_bucket where
  "sample_bucket = \<lparr>hb_day_offset = 0, hb_hour = 9, hb_in_incident_window = False, hb_weight = 1\<rparr>"

lemma sample_draws: "unit_draws sample_columns"
  by (simp add: unit_draws_def sample_columns_def)

lemma sample_base_built: "sample_base \<in> set (build_base_rows sample_columns [(sample_bucket, 1)])"
  by (simp add: build_base_rows_def base_row_of_def sample_bucket_def sample_base_def sample_columns_def)

lemma sample_outcome: "with_outcome sample_base = ''DENY_POLICY''"
  by (simp add: denied_draw) (simp add: sample_base_def)

end
