(* ===== verification/Migrations.thy ===== *)
theory Migrations
  imports Aggregation AuditChain
begin

text \<open>
  The database migrations (\<open>src/alembic/versions\<close>) as operations on a schema, and the tables the
  SQLAlchemy models declare (\<open>audit/models.py\<close>, \<open>analytics/models.py\<close>,
  \<open>control_plane/models.py\<close>). The schema has the tables with their columns, keys, checks and
  indexes; an operation that PostgreSQL refuses raises. The tables hold no rows here, so the
  refusals that depend on the rows are left out; so are the names of key constraints.
\<close>

section \<open>Schemas\<close>

record table_def =
  td_columns :: table_columns
  td_primary_key :: "string list"
  td_checks :: "(string \<times> string \<times> string list) list"
  td_foreign :: "(string \<times> string \<times> string) list"
  td_indexes :: "(string \<times> string list) list"

type_synonym schema = "(string, table_def) dict"

datatype migration_op =
    CreateTable string table_columns "(string \<times> string \<times> string list) list"
      "(string \<times> string \<times> string) list" "string list"
  | DropTable string
  | CreateIndex string string "string list"
  | DropIndex string string
  | AddColumn string "string \<times> column_type \<times> bool \<times> bool"
  | DropColumn string string

definition column_names :: "table_def \<Rightarrow> string list" where
  "column_names t = map fst (td_columns t)"

text \<open>Tables and indexes share one name space.\<close>

definition relation_names :: "schema \<Rightarrow> string list" where
  "relation_names S = map fst S @ concat (map (\<lambda>(n, t). map fst (td_indexes t)) S)"

text \<open>A single integer primary key without a default is filled from a sequence.\<close>

definition serial_columns :: "string list \<Rightarrow> table_columns \<Rightarrow> table_columns" where
  "serial_columns pk cols =
     map (\<lambda>(c, t, nullable, filled). (c, t, nullable, filled \<or> pk = [c] \<and> t \<in> {TBigInt, TInteger})) cols"

definition refused :: "string \<Rightarrow> 'a res" where
  "refused why = Inl (Exn DbErr why)"

definition on_table :: "string \<Rightarrow> (table_def \<Rightarrow> table_def res) \<Rightarrow> schema \<Rightarrow> schema res" where
  "on_table n f S =
     (case map_of S n of
        None \<Rightarrow> refused ''relation does not exist''
      | Some t \<Rightarrow> bind_res (f t) (\<lambda>t'. Inr (dict_set n t' S)))"

definition references :: "string \<Rightarrow> string \<times> table_def \<Rightarrow> bool" where
  "references n e = (case e of (m, t) \<Rightarrow> m \<noteq> n \<and> n \<in> set (map (\<lambda>(_, r, _). r) (td_foreign t)))"

fun apply_op :: "migration_op \<Rightarrow> schema \<Rightarrow> schema res" where
  "apply_op (CreateTable n cols checks foreign pk) S =
     (if n \<in> set (relation_names S) then refused ''relation already exists''
      else if \<not> distinct (map fst cols) \<or> \<not> set pk \<subseteq> set (map fst cols)
        \<or> \<not> set (map (fst \<circ> snd) checks) \<subseteq> set (map fst cols) \<or> \<not> set (map fst foreign) \<subseteq> set (map fst cols)
      then refused ''column does not exist''
      else if \<not> set (map (fst \<circ> snd) foreign) \<subseteq> set (n # map fst S) then refused ''relation does not exist''
      else Inr (S @ [(n, \<lparr>td_columns = serial_columns pk cols, td_primary_key = pk, td_checks = checks,
        td_foreign = foreign, td_indexes = []\<rparr>)]))"
| "apply_op (DropTable n) S =
     (if n \<notin> set (map fst S) then refused ''table does not exist''
      else if \<exists>e \<in> set S. references n e then refused ''other objects depend on it''
      else Inr (filter (\<lambda>(m, _). m \<noteq> n) S))"
| "apply_op (CreateIndex i n cols) S =
     (if i \<in> set (relation_names S) then refused ''relation already exists''
      else on_table n (\<lambda>t.
        if set cols \<subseteq> set (column_names t) then Inr (t\<lparr>td_indexes := td_indexes t @ [(i, cols)]\<rparr>)
        else refused ''column does not exist'') S)"
| "apply_op (DropIndex i n) S =
     on_table n (\<lambda>t.
       if i \<in> set (map fst (td_indexes t)) then Inr (t\<lparr>td_indexes := filter (\<lambda>(j, _). j \<noteq> i) (td_indexes t)\<rparr>)
       else refused ''index does not exist'') S"
| "apply_op (AddColumn n col) S =
     on_table n (\<lambda>t.
       if fst col \<in> set (column_names t) then refused ''column already exists''
       else Inr (t\<lparr>td_columns := td_columns t @ [col]\<rparr>)) S"
| "apply_op (DropColumn n c) S =
     on_table n (\<lambda>t.
       if c \<notin> set (column_names t) then refused ''column does not exist''
       else Inr (t\<lparr>td_columns := filter (\<lambda>(d, _). d \<noteq> c) (td_columns t),
         td_primary_key := (if c \<in> set (td_primary_key t) then [] else td_primary_key t),
         td_checks := filter (\<lambda>(_, d, _). d \<noteq> c) (td_checks t),
         td_foreign := filter (\<lambda>(d, _). d \<noteq> c) (td_foreign t),
         td_indexes := filter (\<lambda>(_, cols). c \<notin> set cols) (td_indexes t)\<rparr>)) S"

fun apply_ops :: "migration_op list \<Rightarrow> schema \<Rightarrow> schema res" where
  "apply_ops [] S = Inr S"
| "apply_ops (op # ops) S = bind_res (apply_op op S) (apply_ops ops)"

section \<open>The revisions\<close>

record migration =
  mg_revision :: string
  mg_down_revision :: "string option"
  mg_upgrade :: "migration_op list"
  mg_downgrade :: "migration_op list"

definition create_audit_entries_upgrade :: "migration_op list" where
  "create_audit_entries_upgrade =
     [CreateTable ''audit_entries''
        [(''id'', TBigInt, False, False), (''trace_id'', TUuid, False, False),
         (''span_id'', TUuid, False, False), (''parent_id'', TBigInt, True, False),
         (''timestamp'', TTimestamp, False, True), (''status'', TText, False, False),
         (''agent_id'', TText, False, False), (''session_id'', TText, False, False),
         (''server'', TText, False, False), (''tool'', TText, False, False),
         (''args_hash'', TText, False, False), (''args_redacted'', TJsonb, False, False),
         (''policies_fired'', TJsonb, False, False), (''decision'', TJsonb, False, False),
         (''latency_ms'', TInteger, True, False), (''tokens'', TJsonb, True, False),
         (''prev_hash'', TText, False, False), (''this_hash'', TText, False, False),
         (''hitl_ticket_id'', TUuid, True, False), (''hitl_reviewer'', TText, True, False),
         (''hitl_decision'', TText, True, False), (''hitl_rationale'', TText, True, False)]
        [(''ck_audit_entries_status'', ''status'', [''INTENT'', ''COMPLETED'', ''DENIED'', ''HELD'', ''UPSTREAM_ERROR''])] [(''parent_id'', ''audit_entries'', ''id'')] [''id''],
      CreateIndex ''idx_audit_agent_time'' ''audit_entries'' [''agent_id'', ''timestamp''],
      CreateIndex ''idx_audit_status_time'' ''audit_entries'' [''status'', ''timestamp''],
      CreateIndex ''idx_audit_trace'' ''audit_entries'' [''trace_id'']]"

definition create_audit_entries_downgrade :: "migration_op list" where
  "create_audit_entries_downgrade =
     [DropIndex ''idx_audit_trace'' ''audit_entries'',
      DropIndex ''idx_audit_status_time'' ''audit_entries'',
      DropIndex ''idx_audit_agent_time'' ''audit_entries'',
      DropTable ''audit_entries'']"

definition create_audit_entries :: migration where
  "create_audit_entries =
     \<lparr>mg_revision = ''04ef9f18fb8f'', mg_down_revision = None,
      mg_upgrade = create_audit_entries_upgrade, mg_downgrade = create_audit_entries_downgrade\<rparr>"

definition add_tags_column_upgrade :: "migration_op list" where
  "add_tags_column_upgrade =
     [AddColumn ''audit_entries'' (''tags'', TJsonb, False, True)]"

definition add_tags_column_downgrade :: "migration_op list" where
  "add_tags_column_downgrade =
     [DropColumn ''audit_entries'' ''tags'']"

definition add_tags_column :: migration where
  "add_tags_column =
     \<lparr>mg_revision = ''1f065f6a585d'', mg_down_revision = Some ''04ef9f18fb8f'',
      mg_upgrade = add_tags_column_upgrade, mg_downgrade = add_tags_column_downgrade\<rparr>"

definition add_synthetic_telemetry_upgrade :: "migration_op list" where
  "add_synthetic_telemetry_upgrade =
     [CreateTable ''agg_aml_pack_daily''
        [(''id'', TBigInt, False, False), (''source'', TText, False, False),
         (''day'', TDate, False, False), (''ofac_calls'', TBigInt, False, False),
         (''sanctions_matches'', TBigInt, False, False),
         (''transaction_graph_calls'', TBigInt, False, False),
         (''structuring_alerts'', TBigInt, False, False),
         (''mark_investigated_denied'', TBigInt, False, False),
         (''mark_investigated_approved'', TBigInt, False, False),
         (''mark_investigated_auto_passed'', TBigInt, False, False)]
        [] [] [''id''],
      CreateIndex ''idx_agg_aml_pack_daily_source_day'' ''agg_aml_pack_daily'' [''source'', ''day''],
      CreateTable ''agg_cost_daily''
        [(''id'', TBigInt, False, False), (''source'', TText, False, False),
         (''day'', TDate, False, False), (''agent_id'', TText, False, False),
         (''provider'', TText, False, False), (''prompt_tokens'', TBigInt, False, False),
         (''completion_tokens'', TBigInt, False, False), (''cost_usd'', TFloat, False, False)]
        [] [] [''id''],
      CreateIndex ''idx_agg_cost_daily_source_day'' ''agg_cost_daily'' [''source'', ''day''],
      CreateTable ''agg_hitl_daily''
        [(''id'', TBigInt, False, False), (''source'', TText, False, False),
         (''day'', TDate, False, False), (''reviewer_group'', TText, False, False),
         (''tickets_created'', TBigInt, False, False), (''approved'', TBigInt, False, False),
         (''denied'', TBigInt, False, False), (''timed_out'', TBigInt, False, False),
         (''median_response_seconds'', TFloat, True, False)]
        [] [] [''id''],
      CreateIndex ''idx_agg_hitl_daily_source_day'' ''agg_hitl_daily'' [''source'', ''day''],
      CreateTable ''agg_policy_fires_daily''
        [(''id'', TBigInt, False, False), (''source'', TText, False, False),
         (''day'', TDate, False, False), (''policy_name'', TText, False, False),
         (''effect_type'', TText, False, False), (''outcome'', TText, False, False),
         (''fire_count'', TBigInt, False, False)]
        [] [] [''id''],
      CreateIndex ''idx_agg_policy_fires_daily_source_day'' ''agg_policy_fires_daily'' [''source'', ''day''],
      CreateTable ''agg_telemetry_hourly''
        [(''id'', TBigInt, False, False), (''source'', TText, False, False),
         (''hour'', TTimestamp, False, False), (''server'', TText, False, False),
         (''tool'', TText, False, False), (''outcome'', TText, False, False),
         (''call_count'', TBigInt, False, False), (''error_count'', TBigInt, False, False),
         (''latency_p50_ms'', TFloat, True, False), (''latency_p95_ms'', TFloat, True, False),
         (''latency_p99_ms'', TFloat, True, False)]
        [] [] [''id''],
      CreateIndex ''idx_agg_telemetry_hourly_source_hour'' ''agg_telemetry_hourly'' [''source'', ''hour''],
      CreateTable ''audit_entries_synthetic''
        [(''id'', TBigInt, False, False), (''trace_id'', TUuid, False, False),
         (''span_id'', TUuid, False, False), (''parent_id'', TBigInt, True, False),
         (''timestamp'', TTimestamp, False, False), (''status'', TText, False, False),
         (''agent_id'', TText, False, False), (''session_id'', TText, False, False),
         (''server'', TText, False, False), (''tool'', TText, False, False),
         (''args_hash'', TText, False, False), (''args_redacted'', TJsonb, False, False),
         (''policies_fired'', TJsonb, False, False), (''decision'', TJsonb, False, False),
         (''latency_ms'', TInteger, True, False), (''tokens'', TJsonb, True, False),
         (''prev_hash'', TText, True, False), (''this_hash'', TText, True, False),
         (''hitl_ticket_id'', TUuid, True, False), (''hitl_reviewer'', TText, True, False),
         (''hitl_decision'', TText, True, False), (''hitl_rationale'', TText, True, False),
         (''tags'', TJsonb, False, True)]
        [] [] [''id''],
      CreateIndex ''idx_audit_synthetic_agent_time'' ''audit_entries_synthetic'' [''agent_id'', ''timestamp''],
      CreateIndex ''idx_audit_synthetic_server_tool_time'' ''audit_entries_synthetic'' [''server'', ''tool'', ''timestamp''],
      CreateIndex ''idx_audit_synthetic_status_time'' ''audit_entries_synthetic'' [''status'', ''timestamp'']]"

definition add_synthetic_telemetry_downgrade :: "migration_op list" where
  "add_synthetic_telemetry_downgrade =
     [DropIndex ''idx_audit_synthetic_status_time'' ''audit_entries_synthetic'',
      DropIndex ''idx_audit_synthetic_server_tool_time'' ''audit_entries_synthetic'',
      DropIndex ''idx_audit_synthetic_agent_time'' ''audit_entries_synthetic'',
      DropTable ''audit_entries_synthetic'',
      DropIndex ''idx_agg_telemetry_hourly_source_hour'' ''agg_telemetry_hourly'',
      DropTable ''agg_telemetry_hourly'',
      DropIndex ''idx_agg_policy_fires_daily_source_day'' ''agg_policy_fires_daily'',
      DropTable ''agg_policy_fires_daily'',
      DropIndex ''idx_agg_hitl_daily_source_day'' ''agg_hitl_daily'',
      DropTable ''agg_hitl_daily'',
      DropIndex ''idx_agg_cost_daily_source_day'' ''agg_cost_daily'',
      DropTable ''agg_cost_daily'',
      DropIndex ''idx_agg_aml_pack_daily_source_day'' ''agg_aml_pack_daily'',
      DropTable ''agg_aml_pack_daily'']"

definition add_synthetic_telemetry :: migration where
  "add_synthetic_telemetry =
     \<lparr>mg_revision = ''d3c3515c3d76'', mg_down_revision = Some ''1f065f6a585d'',
      mg_upgrade = add_synthetic_telemetry_upgrade, mg_downgrade = add_synthetic_telemetry_downgrade\<rparr>"

definition add_control_plane_tables_upgrade :: "migration_op list" where
  "add_control_plane_tables_upgrade =
     [CreateTable ''anomaly_flags''
        [(''id'', TBigInt, False, False), (''created_at'', TTimestamp, False, False),
         (''trace_id'', TUuid, False, False), (''audit_id'', TBigInt, False, False),
         (''agent_id'', TText, False, False), (''session_id'', TText, False, False),
         (''anomaly_type'', TText, False, False), (''severity'', TText, False, False),
         (''evidence'', TJsonb, False, False)]
        [] [] [''id''],
      CreateIndex ''idx_anomaly_flags_agent_time'' ''anomaly_flags'' [''agent_id'', ''created_at''],
      CreateTable ''incidents''
        [(''id'', TUuid, False, False), (''created_at'', TTimestamp, False, False),
         (''trace_id'', TUuid, False, False), (''agent_id'', TText, False, False),
         (''session_id'', TText, False, False), (''promotion_rule'', TText, False, False),
         (''related_events'', TJsonb, False, False), (''severity'', TText, False, False),
         (''narrative'', TText, False, False), (''recommended_response'', TText, False, False)]
        [] [] [''id''],
      CreateIndex ''idx_incidents_agent_time'' ''incidents'' [''agent_id'', ''created_at''],
      CreateTable ''risk_score_snapshots''
        [(''id'', TBigInt, False, False), (''created_at'', TTimestamp, False, False),
         (''trace_id'', TUuid, False, False), (''audit_id'', TBigInt, False, False),
         (''agent_id'', TText, False, False), (''session_id'', TText, False, False),
         (''risk_score'', TFloat, False, False), (''context_features'', TJsonb, False, False)]
        [] [] [''id''],
      CreateIndex ''idx_risk_score_snapshots_agent_time'' ''risk_score_snapshots'' [''agent_id'', ''created_at'']]"

definition add_control_plane_tables_downgrade :: "migration_op list" where
  "add_control_plane_tables_downgrade =
     [DropIndex ''idx_risk_score_snapshots_agent_time'' ''risk_score_snapshots'',
      DropTable ''risk_score_snapshots'',
      DropIndex ''idx_incidents_agent_time'' ''incidents'',
      DropTable ''incidents'',
      DropIndex ''idx_anomaly_flags_agent_time'' ''anomaly_flags'',
      DropTable ''anomaly_flags'']"

definition add_control_plane_tables :: migration where
  "add_control_plane_tables =
     \<lparr>mg_revision = ''2a594d020568'', mg_down_revision = Some ''d3c3515c3d76'',
      mg_upgrade = add_control_plane_tables_upgrade, mg_downgrade = add_control_plane_tables_downgrade\<rparr>"

definition revisions :: "migration list" where
  "revisions = [create_audit_entries, add_tags_column, add_control_plane_tables, add_synthetic_telemetry]"

text \<open>
  Alembic follows \<open>down_revision\<close> from the base to the head; the number of revisions bounds the
  walk. A branch or a missing revision is refused.
\<close>

fun revision_path :: "nat \<Rightarrow> migration list \<Rightarrow> string option \<Rightarrow> migration list res" where
  "revision_path 0 ms cur = Inr []"
| "revision_path (Suc n) ms cur =
     (case filter (\<lambda>m. mg_down_revision m = cur) ms of
        [] \<Rightarrow> Inr []
      | [m] \<Rightarrow> bind_res (revision_path n ms (Some (mg_revision m))) (\<lambda>path. Inr (m # path))
      | _ \<Rightarrow> Inl (Exn RuntimeErr ''Multiple head revisions are present''))"

definition upgrade_head :: "migration list \<Rightarrow> schema \<Rightarrow> schema res" where
  "upgrade_head ms S =
     bind_res (revision_path (length ms) ms None) (\<lambda>path. apply_ops (concat (map mg_upgrade path)) S)"

definition downgrade_base :: "migration list \<Rightarrow> schema \<Rightarrow> schema res" where
  "downgrade_base ms S =
     bind_res (revision_path (length ms) ms None) (\<lambda>path. apply_ops (concat (map mg_downgrade (rev path))) S)"

section \<open>The tables of the models\<close>

definition AuditEntry :: table_columns where
  "AuditEntry =
     [id_column, required ''trace_id'' TUuid, required ''span_id'' TUuid, (''parent_id'', TBigInt, True, False),
      (''timestamp'', TTimestamp, False, True), required ''status'' TText, required ''agent_id'' TText,
      required ''session_id'' TText, required ''server'' TText, required ''tool'' TText,
      required ''args_hash'' TText, required ''args_redacted'' TJsonb, required ''policies_fired'' TJsonb,
      required ''decision'' TJsonb, (''latency_ms'', TInteger, True, False), (''tokens'', TJsonb, True, False),
      required ''prev_hash'' TText, required ''this_hash'' TText, (''hitl_ticket_id'', TUuid, True, False),
      (''hitl_reviewer'', TText, True, False), (''hitl_decision'', TText, True, False),
      (''hitl_rationale'', TText, True, False), (''tags'', TJsonb, False, True)]"

definition AnomalyFlagRecord :: table_columns where
  "AnomalyFlagRecord =
     [id_column, required ''created_at'' TTimestamp, required ''trace_id'' TUuid, required ''audit_id'' TBigInt,
      required ''agent_id'' TText, required ''session_id'' TText, required ''anomaly_type'' TText,
      required ''severity'' TText, required ''evidence'' TJsonb]"

definition IncidentRecord :: table_columns where
  "IncidentRecord =
     [required ''id'' TUuid, required ''created_at'' TTimestamp, required ''trace_id'' TUuid,
      required ''agent_id'' TText, required ''session_id'' TText, required ''promotion_rule'' TText,
      required ''related_events'' TJsonb, required ''severity'' TText, required ''narrative'' TText,
      required ''recommended_response'' TText]"

definition RiskScoreSnapshot :: table_columns where
  "RiskScoreSnapshot =
     [id_column, required ''created_at'' TTimestamp, required ''trace_id'' TUuid, required ''audit_id'' TBigInt,
      required ''agent_id'' TText, required ''session_id'' TText, required ''risk_score'' TFloat,
      required ''context_features'' TJsonb]"

definition model_table :: "table_columns \<Rightarrow> (string \<times> string list) list \<Rightarrow> table_def" where
  "model_table cols indexes =
     \<lparr>td_columns = cols, td_primary_key = [''id''], td_checks = [], td_foreign = [], td_indexes = indexes\<rparr>"

text \<open>The \<open>__table_args__\<close> of the models, and \<open>Base.metadata\<close>.\<close>

definition table_audit_entries :: table_def where
  "table_audit_entries =
     (model_table AuditEntry
        [(''idx_audit_trace'', [''trace_id'']), (''idx_audit_agent_time'', [''agent_id'', ''timestamp'']),
         (''idx_audit_status_time'', [''status'', ''timestamp''])])
       \<lparr>td_checks := [(''ck_audit_entries_status'', ''status'', STATUSES)],
        td_foreign := [(''parent_id'', ''audit_entries'', ''id'')]\<rparr>"

definition table_audit_entries_synthetic :: table_def where
  "table_audit_entries_synthetic =
     model_table AuditEntrySynthetic
      [(''idx_audit_synthetic_agent_time'', [''agent_id'', ''timestamp'']),
       (''idx_audit_synthetic_status_time'', [''status'', ''timestamp'']),
       (''idx_audit_synthetic_server_tool_time'', [''server'', ''tool'', ''timestamp''])]"

definition table_agg_telemetry_hourly :: table_def where
  "table_agg_telemetry_hourly =
     model_table TelemetryHourly
      [(''idx_agg_telemetry_hourly_source_hour'', [''source'', ''hour''])]"

definition table_agg_policy_fires_daily :: table_def where
  "table_agg_policy_fires_daily =
     model_table PolicyFiresDaily
      [(''idx_agg_policy_fires_daily_source_day'', [''source'', ''day''])]"

definition table_agg_hitl_daily :: table_def where
  "table_agg_hitl_daily =
     model_table HitlDaily
      [(''idx_agg_hitl_daily_source_day'', [''source'', ''day''])]"

definition table_agg_aml_pack_daily :: table_def where
  "table_agg_aml_pack_daily =
     model_table AmlPackDaily
      [(''idx_agg_aml_pack_daily_source_day'', [''source'', ''day''])]"

definition table_agg_cost_daily :: table_def where
  "table_agg_cost_daily =
     model_table CostDaily
      [(''idx_agg_cost_daily_source_day'', [''source'', ''day''])]"

definition table_anomaly_flags :: table_def where
  "table_anomaly_flags =
     model_table AnomalyFlagRecord
      [(''idx_anomaly_flags_agent_time'', [''agent_id'', ''created_at''])]"

definition table_incidents :: table_def where
  "table_incidents =
     model_table IncidentRecord
      [(''idx_incidents_agent_time'', [''agent_id'', ''created_at''])]"

definition table_risk_score_snapshots :: table_def where
  "table_risk_score_snapshots =
     model_table RiskScoreSnapshot
      [(''idx_risk_score_snapshots_agent_time'', [''agent_id'', ''created_at''])]"

definition model_tables :: schema where
  "model_tables =
     [(''audit_entries'', table_audit_entries),
      (''audit_entries_synthetic'', table_audit_entries_synthetic),
      (''agg_telemetry_hourly'', table_agg_telemetry_hourly),
      (''agg_policy_fires_daily'', table_agg_policy_fires_daily),
      (''agg_hitl_daily'', table_agg_hitl_daily),
      (''agg_aml_pack_daily'', table_agg_aml_pack_daily),
      (''agg_cost_daily'', table_agg_cost_daily),
      (''anomaly_flags'', table_anomaly_flags),
      (''incidents'', table_incidents),
      (''risk_score_snapshots'', table_risk_score_snapshots)]"

text \<open>Two tables agree when they differ in the order of indexes at most, two schemas in the order of tables too.\<close>

definition same_table :: "table_def \<Rightarrow> table_def \<Rightarrow> bool" where
  "same_table t u \<longleftrightarrow> td_columns t = td_columns u \<and> td_primary_key t = td_primary_key u \<and>
     td_checks t = td_checks u \<and> td_foreign t = td_foreign u \<and>
     length (td_indexes t) = length (td_indexes u) \<and> set (td_indexes t) = set (td_indexes u)"

definition same_schema :: "schema \<Rightarrow> schema \<Rightarrow> bool" where
  "same_schema S T \<longleftrightarrow> length S = length T \<and>
     list_all (\<lambda>(n, t). case map_of T n of None \<Rightarrow> False | Some u \<Rightarrow> same_table t u) S"

lemma revisions_linear:
  "revision_path (length revisions) revisions None =
     Inr [create_audit_entries, add_tags_column, add_synthetic_telemetry, add_control_plane_tables]"
  by (simp add: revisions_def create_audit_entries_def add_tags_column_def add_synthetic_telemetry_def
      add_control_plane_tables_def eval_nat_numeral)

lemma upgrade_matches_models:
  "case upgrade_head revisions [] of Inl e \<Rightarrow> False | Inr S \<Rightarrow> same_schema S model_tables"
  by code_simp

lemma upgrade_audit_columns:
  "upgrade_head revisions [] = Inr S \<Longrightarrow>
    map_option column_names (map_of S ''audit_entries'') = Some (map fst (row_of_entry entry)) \<and>
    map_option td_checks (map_of S ''audit_entries'') = Some [(''ck_audit_entries_status'', ''status'', STATUSES)]"
proof -
  have "case upgrade_head revisions [] of Inl e \<Rightarrow> False | Inr S \<Rightarrow>
      map_option column_names (map_of S ''audit_entries'') =
        Some [''id'', ''trace_id'', ''span_id'', ''parent_id'', ''timestamp'', ''status'', ''agent_id'', ''session_id'',
          ''server'', ''tool'', ''args_hash'', ''args_redacted'', ''policies_fired'', ''decision'', ''latency_ms'',
          ''tokens'', ''prev_hash'', ''this_hash'', ''hitl_ticket_id'', ''hitl_reviewer'', ''hitl_decision'',
          ''hitl_rationale'', ''tags''] \<and>
      map_option td_checks (map_of S ''audit_entries'') = Some [(''ck_audit_entries_status'', ''status'', STATUSES)]"
    by code_simp
  then show "upgrade_head revisions [] = Inr S \<Longrightarrow> ?thesis" by (simp add: row_of_entry_def)
qed

lemma upgrade_spec_columns:
  "case upgrade_head revisions [] of Inl e \<Rightarrow> False | Inr S \<Rightarrow>
     list_all (\<lambda>(table, columns). map_option (set \<circ> column_names) (map_of S table) = Some (insert ''id'' (set columns)))
       TABLE_SPECS"
  by code_simp

end
