(* ===== verification/MigrationsProps.thy ===== *)
theory MigrationsProps
  imports Migrations
begin

text \<open>
  A well-formed schema stays well-formed under every operation, and the operations of an upgrade are
  undone by their inverses, so that every downgrade takes back its upgrade on any schema.
\<close>

section \<open>Well-formed schemas\<close>

definition def_ok :: "string set \<Rightarrow> table_def \<Rightarrow> bool" where
  "def_ok names t \<longleftrightarrow> distinct (column_names t) \<and> set (td_primary_key t) \<subseteq> set (column_names t) \<and>
     (\<forall>(_, c, _) \<in> set (td_checks t). c \<in> set (column_names t)) \<and>
     (\<forall>(c, r, _) \<in> set (td_foreign t). c \<in> set (column_names t) \<and> r \<in> names) \<and>
     (\<forall>(_, cols) \<in> set (td_indexes t). set cols \<subseteq> set (column_names t))"

definition schema_ok :: "schema \<Rightarrow> bool" where
  "schema_ok S \<longleftrightarrow> distinct (relation_names S) \<and> (\<forall>(_, t) \<in> set S. def_ok (fst ` set S) t)"

lemma def_ok_mono: "def_ok A t \<Longrightarrow> A \<subseteq> B \<Longrightarrow> def_ok B t"
  unfolding def_ok_def by blast

lemma schema_ok_distinct: "schema_ok S \<Longrightarrow> distinct (map fst S)"
  by (simp add: schema_ok_def relation_names_def)

lemma schema_ok_table: "schema_ok S \<Longrightarrow> map_of S n = Some t \<Longrightarrow> def_ok (fst ` set S) t"
  by (auto simp: schema_ok_def dest!: map_of_SomeD)

lemma on_table_Inr:
  "on_table n f S = Inr S' \<longleftrightarrow> (\<exists>t t'. map_of S n = Some t \<and> f t = Inr t' \<and> S' = dict_set n t' S)"
  by (auto simp: on_table_def refused_def bind_res_eq_Inr split: option.splits)

lemma dict_set_twice: "dict_set n t (dict_set n t' S) = dict_set n t S"
  by (induction S) auto

lemma dict_set_same: "map_of S n = Some t \<Longrightarrow> dict_set n t S = S"
  by (induction S) (auto split: if_splits)

lemma map_fst_dict_set: "map_of S n = Some t \<Longrightarrow> map fst (dict_set n t' S) = map fst S"
  by (induction S) (auto split: if_splits)

lemma set_dict_set:
  "distinct (map fst S) \<Longrightarrow> map_of S n = Some t \<Longrightarrow> set (dict_set n t' S) = insert (n, t') (set S - {(n, t)})"
proof (induction S)
  case (Cons a S)
  obtain m u where a: "a = (m, u)" by (cases a)
  show ?case
  proof (cases "m = n")
    case True
    have "(n, x) \<notin> set S" for x using Cons.prems a True by (auto simp: image_iff)
    then show ?thesis using Cons.prems a True by auto
  next
    case False
    then show ?thesis using Cons a by auto
  qed
qed simp

section \<open>Undoing an operation\<close>

fun undo :: "migration_op \<Rightarrow> migration_op option" where
  "undo (CreateTable n cols checks foreign pk) = Some (DropTable n)"
| "undo (CreateIndex i n cols) = Some (DropIndex i n)"
| "undo (AddColumn n col) = Some (DropColumn n (fst col))"
| "undo op = None"

lemma filter_other_names: "n \<notin> fst ` set xs \<Longrightarrow> filter (\<lambda>(m, _). m \<noteq> n) xs = xs"
  by (induction xs) auto

lemma not_in_relations: "i \<notin> set (relation_names S) \<Longrightarrow> i \<notin> fst ` set S"
  by (simp add: relation_names_def)

lemma index_not_in_relations:
  "i \<notin> set (relation_names S) \<Longrightarrow> map_of S n = Some t \<Longrightarrow> i \<notin> fst ` set (td_indexes t)"
  by (force simp: relation_names_def dest!: map_of_SomeD)

lemma undo_create_table:
  assumes "schema_ok S" and "apply_op (CreateTable n cols checks foreign pk) S = Inr S'"
  shows "apply_op (DropTable n) S' = Inr S"
proof -
  obtain t where S': "S' = S @ [(n, t)]" and fresh: "n \<notin> fst ` set S"
    using assms(2) not_in_relations [of n S] by (auto simp: refused_def split: if_splits)
  have "\<not> references n e" if "e \<in> set S" for e
    using assms(1) that fresh by (auto simp: references_def schema_ok_def def_ok_def split: prod.splits) blast
  then show ?thesis using fresh by (auto simp: S' references_def filter_other_names)
qed

lemma undo_create_index:
  assumes "apply_op (CreateIndex i n cols) S = Inr S'"
  shows "apply_op (DropIndex i n) S' = Inr S"
proof -
  obtain t where t: "map_of S n = Some t" and fresh: "i \<notin> set (relation_names S)"
    and S': "S' = dict_set n (t\<lparr>td_indexes := td_indexes t @ [(i, cols)]\<rparr>) S"
    using assms by (auto simp: refused_def on_table_Inr split: if_splits)
  have "filter (\<lambda>(j, _). j \<noteq> i) (td_indexes t) = td_indexes t"
    using index_not_in_relations [OF fresh t] by (rule filter_other_names)
  then show ?thesis by (simp add: S' on_table_def dict_set_twice dict_set_same [OF t])
qed

lemma undo_add_column:
  assumes "schema_ok S" and "apply_op (AddColumn n col) S = Inr S'"
  shows "apply_op (DropColumn n (fst col)) S' = Inr S"
proof -
  obtain t where t: "map_of S n = Some t" and fresh: "fst col \<notin> set (column_names t)"
    and S': "S' = dict_set n (t\<lparr>td_columns := td_columns t @ [col]\<rparr>) S"
    using assms(2) by (auto simp: refused_def on_table_Inr split: if_splits)
  have ok: "def_ok (fst ` set S) t" using assms(1) t by (rule schema_ok_table)
  have "filter (\<lambda>(d, _). d \<noteq> fst col) (td_columns t) = td_columns t"
    using fresh by (intro filter_other_names) (simp add: column_names_def)
  moreover have "filter (\<lambda>(d, _). d \<noteq> fst col) (td_foreign t) = td_foreign t"
    using ok fresh by (intro filter_other_names) (auto simp: def_ok_def)
  moreover have "filter (\<lambda>(_, d, _). d \<noteq> fst col) (td_checks t) = td_checks t"
    using ok fresh by (intro filter_True) (auto simp: def_ok_def)
  moreover have "filter (\<lambda>(_, cols). fst col \<notin> set cols) (td_indexes t) = td_indexes t"
    using ok fresh by (intro filter_True) (auto simp: def_ok_def)
  moreover have "fst col \<notin> set (td_primary_key t)" using ok fresh by (auto simp: def_ok_def)
  ultimately show ?thesis
    by (simp add: S' on_table_def dict_set_twice dict_set_same [OF t] column_names_def split: prod.splits)
qed

lemma undo_op:
  "schema_ok S \<Longrightarrow> undo op = Some op' \<Longrightarrow> apply_op op S = Inr S' \<Longrightarrow> apply_op op' S' = Inr S"
  by (cases op)
    (auto simp del: apply_op.simps intro: undo_create_table undo_create_index undo_add_column)

section \<open>Operations keep schemas well-formed\<close>

lemma relation_names_same:
  "map_of S n = Some t \<Longrightarrow> map fst (td_indexes t') = map fst (td_indexes t) \<Longrightarrow>
    relation_names (dict_set n t' S) = relation_names S"
proof -
  assume "map_of S n = Some t" and "map fst (td_indexes t') = map fst (td_indexes t)"
  then have "map (\<lambda>(n, t). map fst (td_indexes t)) (dict_set n t' S) = map (\<lambda>(n, t). map fst (td_indexes t)) S"
    by (induction S) (auto split: if_splits)
  then show ?thesis
    using map_fst_dict_set [OF \<open>map_of S n = Some t\<close>] by (simp add: relation_names_def)
qed

lemma relation_names_new_index:
  assumes "map_of S n = Some t" and "map fst (td_indexes t') = map fst (td_indexes t) @ [i]"
  shows "mset (relation_names (dict_set n t' S)) = add_mset i (mset (relation_names S))"
proof -
  have "mset (concat (map (\<lambda>(n, t). map fst (td_indexes t)) (dict_set n t' S))) =
      add_mset i (mset (concat (map (\<lambda>(n, t). map fst (td_indexes t)) S)))"
    using assms by (induction S) (auto split: if_splits)
  then show ?thesis using map_fst_dict_set [OF assms(1)] by (simp add: relation_names_def)
qed

lemma distinct_add_mset: "mset ys = add_mset x (mset xs) \<Longrightarrow> distinct xs \<Longrightarrow> x \<notin> set xs \<Longrightarrow> distinct ys"
  using mset_eq_imp_distinct_iff [of ys "x # xs"] by simp

lemma schema_ok_dict_set:
  assumes "schema_ok S" and "map_of S n = Some t" and "def_ok (fst ` set S) t'"
    and "distinct (relation_names (dict_set n t' S))"
  shows "schema_ok (dict_set n t' S)"
proof -
  have "fst ` set (dict_set n t' S) = fst ` set S"
    using map_fst_dict_set [OF assms(2), of t'] by (metis list.set_map)
  moreover have "set (dict_set n t' S) \<subseteq> insert (n, t') (set S)"
    using set_dict_set [OF schema_ok_distinct [OF assms(1)] assms(2)] by auto
  moreover have "\<forall>x \<in> set S. def_ok (fst ` set S) (snd x)" using assms(1) by (auto simp: schema_ok_def)
  ultimately show ?thesis
    unfolding schema_ok_def case_prod_beta using assms(3,4) by (metis insert_iff snd_conv subset_iff)
qed

lemma create_table_ok:
  assumes "schema_ok S" and "apply_op (CreateTable n cols checks foreign pk) S = Inr S'"
  shows "schema_ok S'"
proof -
  define t where "t = \<lparr>td_columns = serial_columns pk cols, td_primary_key = pk, td_checks = checks,
    td_foreign = foreign, td_indexes = []\<rparr>"
  have names: "column_names t = map fst cols"
    by (simp add: t_def column_names_def serial_columns_def comp_def case_prod_beta)
  have S': "S' = S @ [(n, t)]" and fresh: "n \<notin> set (relation_names S)"
    and ok: "distinct (map fst cols)" "set pk \<subseteq> set (map fst cols)"
      "set (map (fst \<circ> snd) checks) \<subseteq> set (map fst cols)" "set (map fst foreign) \<subseteq> set (map fst cols)"
      "set (map (fst \<circ> snd) foreign) \<subseteq> set (n # map fst S)"
    using assms(2) by (auto simp: t_def refused_def split: if_splits)
  have "def_ok (fst ` set S') t"
    unfolding def_ok_def names case_prod_beta
  proof (intro conjI)
    show "\<forall>x \<in> set (td_checks t). fst (snd x) \<in> set (map fst cols)" using ok(3) by (auto simp: t_def)
    show "\<forall>x \<in> set (td_foreign t). fst x \<in> set (map fst cols) \<and> fst (snd x) \<in> fst ` set S'"
      using ok(4,5) by (auto simp: t_def S')
  qed (use ok in \<open>simp_all add: t_def\<close>)
  moreover have "def_ok (fst ` set S') u" if "(m, u) \<in> set S" for m u
    using assms(1) that by (auto simp: schema_ok_def S' intro: def_ok_mono)
  moreover have "distinct (relation_names S')"
    using assms(1) fresh by (auto simp: schema_ok_def relation_names_def S' t_def)
  ultimately show ?thesis by (auto simp: schema_ok_def S')
qed

lemma create_index_ok:
  assumes "schema_ok S" and "apply_op (CreateIndex i n cols) S = Inr S'"
  shows "schema_ok S'"
proof -
  obtain t where t: "map_of S n = Some t" and fresh: "i \<notin> set (relation_names S)"
    and cols: "set cols \<subseteq> set (column_names t)"
    and S': "S' = dict_set n (t\<lparr>td_indexes := td_indexes t @ [(i, cols)]\<rparr>) S"
    using assms by (auto simp: refused_def on_table_Inr split: if_splits)
  have "def_ok (fst ` set S) (t\<lparr>td_indexes := td_indexes t @ [(i, cols)]\<rparr>)"
    using schema_ok_table [OF assms(1) t] cols by (auto simp: def_ok_def column_names_def)
  moreover have "distinct (relation_names S')"
    unfolding S' using assms(1) fresh
    by (intro distinct_add_mset [OF relation_names_new_index [OF t]]) (simp_all add: schema_ok_def)
  ultimately show ?thesis unfolding S' by (intro schema_ok_dict_set [OF assms(1) t])
qed

lemma add_column_ok:
  assumes "schema_ok S" and "apply_op (AddColumn n col) S = Inr S'"
  shows "schema_ok S'"
proof -
  obtain t where t: "map_of S n = Some t" and fresh: "fst col \<notin> set (column_names t)"
    and S': "S' = dict_set n (t\<lparr>td_columns := td_columns t @ [col]\<rparr>) S"
    using assms(2) by (auto simp: refused_def on_table_Inr split: if_splits)
  have "def_ok (fst ` set S) (t\<lparr>td_columns := td_columns t @ [col]\<rparr>)"
  proof -
    have "column_names (t\<lparr>td_columns := td_columns t @ [col]\<rparr>) = column_names t @ [fst col]"
      by (simp add: column_names_def)
    then show ?thesis
      using schema_ok_table [OF assms(1) t] fresh unfolding def_ok_def by (simp add: case_prod_beta subset_insertI2)
  qed
  moreover have "distinct (relation_names S')"
    unfolding S' using assms(1) by (subst relation_names_same [OF t]) (simp_all add: schema_ok_def)
  ultimately show ?thesis unfolding S' by (intro schema_ok_dict_set [OF assms(1) t])
qed

lemma undoable_ok:
  "schema_ok S \<Longrightarrow> undo op \<noteq> None \<Longrightarrow> apply_op op S = Inr S' \<Longrightarrow> schema_ok S'"
  by (cases op) (auto simp del: apply_op.simps intro: create_table_ok create_index_ok add_column_ok)

section \<open>Downgrades take back upgrades\<close>

lemma apply_ops_append: "apply_ops (xs @ ys) S = bind_res (apply_ops xs S) (apply_ops ys)"
  by (induction xs arbitrary: S) (auto simp: bind_res_def split: sum.splits)

lemma undo_ops:
  "schema_ok S \<Longrightarrow> list_all2 (\<lambda>op op'. undo op = Some op') ops ops' \<Longrightarrow> apply_ops ops S = Inr S' \<Longrightarrow>
    schema_ok S' \<and> apply_ops (rev ops') S' = Inr S"
proof (induction ops arbitrary: ops' S)
  case (Cons op ops)
  obtain op' rest where ops': "ops' = op' # rest" and undo: "undo op = Some op'"
    and rest: "list_all2 (\<lambda>op op'. undo op = Some op') ops rest"
    using Cons.prems(2) by (auto simp: list_all2_Cons1)
  obtain T where T: "apply_op op S = Inr T" "apply_ops ops T = Inr S'"
    using Cons.prems(3) by (auto simp: bind_res_eq_Inr simp del: apply_op.simps)
  have "schema_ok T" using undoable_ok [OF Cons.prems(1) _ T(1)] undo by simp
  from Cons.IH [OF this rest T(2)] undo_op [OF Cons.prems(1) undo T(1)] show ?case
    by (simp add: ops' apply_ops_append del: apply_op.simps)
qed (auto simp: list_all2_Nil)

definition reverts :: "migration \<Rightarrow> bool" where
  "reverts m \<longleftrightarrow> list_all2 (\<lambda>op op'. undo op = Some op') (mg_upgrade m) (rev (mg_downgrade m))"

lemma revisions_revert: "list_all reverts revisions"
  by (simp add: revisions_def reverts_def create_audit_entries_def add_tags_column_def
      add_synthetic_telemetry_def add_control_plane_tables_def create_audit_entries_upgrade_def
      create_audit_entries_downgrade_def add_tags_column_upgrade_def add_tags_column_downgrade_def
      add_synthetic_telemetry_upgrade_def add_synthetic_telemetry_downgrade_def
      add_control_plane_tables_upgrade_def add_control_plane_tables_downgrade_def)

lemma revert_migration:
  "reverts m \<Longrightarrow> schema_ok S \<Longrightarrow> apply_ops (mg_upgrade m) S = Inr S' \<Longrightarrow>
    schema_ok S' \<and> apply_ops (mg_downgrade m) S' = Inr S"
  using undo_ops [of S "mg_upgrade m" "rev (mg_downgrade m)" S'] by (simp add: reverts_def)

lemma revert_path:
  "\<forall>m \<in> set ms. reverts m \<Longrightarrow> schema_ok S \<Longrightarrow> apply_ops (concat (map mg_upgrade ms)) S = Inr S' \<Longrightarrow>
    schema_ok S' \<and> apply_ops (concat (map mg_downgrade (rev ms))) S' = Inr S"
proof (induction ms arbitrary: S)
  case (Cons m ms)
  obtain T where T: "apply_ops (mg_upgrade m) S = Inr T" "apply_ops (concat (map mg_upgrade ms)) T = Inr S'"
    using Cons.prems(3) by (auto simp: apply_ops_append bind_res_eq_Inr)
  from revert_migration [OF _ Cons.prems(2) T(1)] Cons.prems(1)
  have "schema_ok T" "apply_ops (mg_downgrade m) T = Inr S" by auto
  with Cons.IH [OF _ \<open>schema_ok T\<close> T(2)] Cons.prems(1) show ?case by (simp add: apply_ops_append)
qed simp

lemma upgrade_then_downgrade:
  assumes "schema_ok S" and "upgrade_head revisions S = Inr S'"
  shows "schema_ok S' \<and> downgrade_base revisions S' = Inr S"
proof -
  have "\<forall>m \<in> set [create_audit_entries, add_tags_column, add_synthetic_telemetry, add_control_plane_tables]. reverts m"
    using revisions_revert by (simp add: revisions_def)
  from revert_path [OF this assms(1)] assms(2) show ?thesis
    unfolding upgrade_head_def downgrade_base_def revisions_linear bind_res_simps by blast
qed

lemma empty_schema_ok: "schema_ok []"
  by (simp add: schema_ok_def relation_names_def)

end
