(* ===== verification/Services.thy ===== *)
theory Services
  imports TransactionGraph OfacSanctions
begin

text \<open>
  The two MCP servers as services: what each does when it starts (the lifespan of
  \<open>src/mcp-servers/*/src/server.py\<close> with the settings of \<open>config.py\<close>) and which query each of its
  tools answers with. The transport and the validation of arguments are FastMCP's. The report of
  the adversarial scenarios (\<open>src/scripts/run_eval_report.py\<close>) is at the end.
\<close>

section \<open>The transaction-graph server\<close>

record graph_settings =
  gt_transactions_source :: string
  gt_accounts_source :: string
  gt_small_deposit_threshold :: rat
  gt_min_structuring_deposits :: int
  gt_max_hops :: int
  gt_host :: string
  gt_port :: int

definition default_graph_settings :: "string \<Rightarrow> graph_settings" where
  "default_graph_settings home =
     \<lparr>gt_transactions_source = home @ ''/.interpose/data/ibm-aml/transactions'',
      gt_accounts_source = home @ ''/.interpose/data/ibm-aml/accounts'', gt_small_deposit_threshold = 10000,
      gt_min_structuring_deposits = 3, gt_max_hops = 3, gt_host = ''127.0.0.1'', gt_port = 9003\<rparr>"

text \<open>\<open>_table_expr\<close>: how a source is read, by the suffix of its last component.\<close>

definition path_suffix :: "string \<Rightarrow> string" where
  "path_suffix source =
     (let name = rev (takeWhile (\<lambda>c. c \<noteq> CHR ''/'') (dropWhile (\<lambda>c. c = CHR ''/'') (rev source)));
          after = rev (takeWhile (\<lambda>c. c \<noteq> CHR ''.'') (rev name));
          before = rev (drop (Suc (length after)) (rev name))
      in if CHR ''.'' \<in> set name \<and> before \<noteq> [] \<and> after \<noteq> [] then CHR ''.'' # after else [])"

definition table_expr :: "string \<Rightarrow> string" where
  "table_expr source =
     (let suffix = lower (path_suffix source); q = char_of (39 :: nat) in
      if suffix = ''.csv'' then ''read_csv_auto('' @ [q] @ source @ [q] @ '', header=true)''
      else if suffix = ''.parquet'' then ''read_parquet('' @ [q] @ source @ [q] @ '')''
      else ''read_parquet('' @ [q] @ source @ ''/**/*.parquet'' @ [q] @ '')'')"

text \<open>
  What the database gives for a table expression, the order of its groups, and the printing of
  numbers are the parameters of the store.
\<close>

record duckdb =
  db_transactions :: "string \<Rightarrow> txn_row list res"
  db_accounts :: "string \<Rightarrow> account_row list res"
  db_group_order :: "string list \<Rightarrow> string list"
  db_edge_order :: "(string \<times> string) list \<Rightarrow> (string \<times> string) list"
  db_format :: "nat \<Rightarrow> rat \<Rightarrow> string"

definition start_graph_server :: "duckdb \<Rightarrow> graph_settings \<Rightarrow> graph_store res" where
  "start_graph_server D st =
     bind_res (db_transactions D (table_expr (gt_transactions_source st))) (\<lambda>transactions.
     bind_res (db_accounts D (table_expr (gt_accounts_source st))) (\<lambda>accounts.
       Inr (build_store transactions accounts (gt_small_deposit_threshold st) (gt_min_structuring_deposits st)
         (gt_max_hops st) (db_group_order D) (db_edge_order D) (db_format D))))"

text \<open>The calls of the tools, an argument that was left out being \<open>None\<close>.\<close>

datatype graph_call =
    QueryTransactions string int int
  | GetAccount string
  | Neighbors string "int option" "rat option"
  | Subgraph "string list" "int option"
  | StructuringCheck string "int option"
  | MarkInvestigated string string string

datatype graph_reply =
    Transactions "transaction list" | Account account_record | Links "account_link list"
  | Graph graph_response | Signal structuring_signal | Written write_result

definition with_default :: "'a \<Rightarrow> 'a option \<Rightarrow> 'a" where
  "with_default d x = (case x of None \<Rightarrow> d | Some v \<Rightarrow> v)"

fun graph_tool :: "int \<Rightarrow> graph_call \<Rightarrow> graph_store \<Rightarrow> graph_reply res \<times> graph_store" where
  "graph_tool now (QueryTransactions account_id from_date to_date) s =
     (bind_res (query_transactions s account_id from_date to_date) (\<lambda>r. Inr (Transactions r)), s)"
| "graph_tool now (GetAccount account_id) s =
     (bind_res (get_account_tool s account_id) (\<lambda>r. Inr (Account r)), s)"
| "graph_tool now (Neighbors account_id hops min_amount) s =
     (Inr (Links (neighbors s account_id (with_default 1 hops) (with_default 0 min_amount))), s)"
| "graph_tool now (Subgraph account_ids max_edges) s =
     (bind_res (subgraph s account_ids (with_default 500 max_edges)) (\<lambda>r. Inr (Graph r)), s)"
| "graph_tool now (StructuringCheck account_id window_days) s =
     (Inr (Signal (structuring_check s account_id (with_default 30 window_days))), s)"
| "graph_tool now (MarkInvestigated account_id disposition rationale) s =
     (case mark_investigated_tool now s account_id disposition rationale of
        (r, s') \<Rightarrow> (bind_res r (\<lambda>w. Inr (Written w)), s'))"

text \<open>A run of the server: the calls one after another, each with its time.\<close>

fun graph_session :: "(int \<times> graph_call) list \<Rightarrow> graph_store \<Rightarrow> graph_reply res list \<times> graph_store" where
  "graph_session [] s = ([], s)"
| "graph_session ((now, c) # cs) s =
     (case graph_tool now c s of (r, s') \<Rightarrow> (case graph_session cs s' of (rs, s'') \<Rightarrow> (r # rs, s'')))"

text \<open>
  The one write tool writes the one table: every other field of the store stays as it was at
  the start, and the table holds exactly the last valid disposition of each account.
\<close>

fun recorded :: "(int \<times> graph_call) list \<Rightarrow> (string, string \<times> string \<times> int) dict \<Rightarrow> (string, string \<times> string \<times> int) dict" where
  "recorded [] d = d"
| "recorded ((now, MarkInvestigated a disposition rationale) # cs) d =
     recorded cs (if disposition \<in> set VALID_DISPOSITIONS then dict_set a (disposition, rationale, now) d else d)"
| "recorded (_ # cs) d = recorded cs d"

lemma graph_tool_store:
  "snd (graph_tool now c s) = s\<lparr>gs_investigated := recorded [(now, c)] (gs_investigated s)\<rparr>"
  by (cases c) (auto simp: mark_investigated_tool_def mark_investigated_def split: prod.splits)

lemma recorded_Cons: "recorded (c # cs) d = recorded cs (recorded [c] d)"
  by (cases c; cases "snd c") auto

lemma graph_session_store:
  "snd (graph_session cs s) = s\<lparr>gs_investigated := recorded cs (gs_investigated s)\<rparr>"
proof (induction cs arbitrary: s)
  case (Cons c cs)
  obtain now call where c: "c = (now, call)" by (cases c)
  show ?case
    using Cons.IH [of "snd (graph_tool now call s)"] recorded_Cons [of c cs]
    by (simp add: c graph_tool_store case_prod_beta)
qed simp

section \<open>The sanctions server\<close>

record ofac_settings =
  os_sdn_source :: string
  os_alt_source :: string
  os_match_threshold :: rat
  os_host :: string
  os_port :: int

definition SDN_URL :: string where
  "SDN_URL = ''https://sanctionslistservice.ofac.treas.gov/api/PublicationPreview/exports/SDN.CSV''"

definition ALT_URL :: string where
  "ALT_URL = ''https://sanctionslistservice.ofac.treas.gov/api/PublicationPreview/exports/alt.csv''"

definition DEFAULT_MATCH_THRESHOLD :: rat where "DEFAULT_MATCH_THRESHOLD = 70"

definition default_ofac_settings :: ofac_settings where
  "default_ofac_settings =
     \<lparr>os_sdn_source = SDN_URL, os_alt_source = ALT_URL, os_match_threshold = DEFAULT_MATCH_THRESHOLD,
      os_host = ''127.0.0.1'', os_port = 9002\<rparr>"

record app_context =
  ap_index :: sanctions_index
  ap_match_threshold :: rat

definition start_ofac_server ::
    "(string \<Rightarrow> string res) \<Rightarrow> (string \<Rightarrow> string res) \<Rightarrow> ofac_settings \<Rightarrow> app_context res" where
  "start_ofac_server fetch_text read_text st =
     bind_res (load_source fetch_text read_text (os_sdn_source st)) (\<lambda>sdn_text.
     bind_res (load_source fetch_text read_text (os_alt_source st)) (\<lambda>alt_text.
     bind_res (build_index sdn_text alt_text) (\<lambda>index.
       Inr \<lparr>ap_index = index, ap_match_threshold = os_match_threshold st\<rparr>)))"

datatype ofac_call = CheckEntity string "string option" | CheckAlias string | GetEntityDetail string

datatype ofac_reply = Match "sanctions_match option" | Matches "sanctions_match list" | Entry sdn_entry

fun ofac_tool :: "matcher \<Rightarrow> app_context \<Rightarrow> ofac_call \<Rightarrow> ofac_reply res" where
  "ofac_tool fz app (CheckEntity name entity_type) =
     bind_res (check_entity fz (ap_index app) (ap_match_threshold app) name (with_default ''individual'' entity_type))
       (\<lambda>m. Inr (Match m))"
| "ofac_tool fz app (CheckAlias name) =
     bind_res (check_alias fz (ap_index app) (ap_match_threshold app) name) (\<lambda>ms. Inr (Matches ms))"
| "ofac_tool fz app (GetEntityDetail sdn_entry_id) =
     bind_res (get_entity_detail (ap_index app) sdn_entry_id) (\<lambda>e. Inr (Entry e))"

section \<open>The evaluation report\<close>

record eval_entry =
  ee_id :: string
  ee_attack_class :: string
  ee_description :: string
  ee_passed :: bool
  ee_error :: "string option"

record eval_scenario =
  es_id :: string
  es_description :: string

text \<open>
  Running a scenario and checking its result may raise; a failed assertion is recorded, any
  other exception ends the report.
\<close>

fun run_class :: "(eval_scenario \<Rightarrow> unit res) \<Rightarrow> string \<Rightarrow> eval_scenario list \<Rightarrow> eval_entry list res" where
  "run_class run_scenario attack_class [] = Inr []"
| "run_class run_scenario attack_class (s # ss) =
     (let entry = (\<lambda>passed error. \<lparr>ee_id = es_id s, ee_attack_class = attack_class,
            ee_description = es_description s, ee_passed = passed, ee_error = error\<rparr>)
      in bind_res
        (case run_scenario s of
           Inr _ \<Rightarrow> Inr (entry True None)
         | Inl e \<Rightarrow> if exn_kind e = AssertionErr then Inr (entry False (Some (exn_text e))) else Inl e)
        (\<lambda>x. bind_res (run_class run_scenario attack_class ss) (\<lambda>xs. Inr (x # xs))))"

record eval_summary =
  ev_total :: nat
  ev_passed :: nat
  ev_failed :: int
  ev_attack_classes_covered :: nat

definition run_all ::
    "(string \<Rightarrow> eval_scenario \<Rightarrow> unit res) \<Rightarrow> (string \<times> eval_scenario list) list \<Rightarrow> (eval_summary \<times> eval_entry list) res" where
  "run_all run_scenario classes =
     bind_res (map_res (\<lambda>(c, ss). run_class (run_scenario c) c ss) classes) (\<lambda>rs.
       let all_results = concat rs;
           passed = length (filter ee_passed all_results)
       in Inr (\<lparr>ev_total = length all_results, ev_passed = passed,
                ev_failed = int (length all_results) - int passed,
                ev_attack_classes_covered = length classes\<rparr>, all_results))"

definition eval_exit_code :: "eval_summary \<Rightarrow> int" where
  "eval_exit_code summary = (if ev_failed summary = 0 then 0 else 1)"

lemma run_class_results:
  "run_class f c ss = Inr rs \<Longrightarrow> list_all2 (\<lambda>s r. ee_id r = es_id s \<and> (ee_passed r \<longleftrightarrow> f s = Inr ())) ss rs"
proof (induction ss arbitrary: rs)
  case (Cons s ss)
  then show ?case
    by (cases "f s") (auto simp: Let_def bind_res_eq_Inr split: if_splits)
qed simp

lemma eval_exit_code_zero:
  assumes "run_all f classes = Inr (summary, rs)"
  shows "eval_exit_code summary = 0 \<longleftrightarrow> (\<forall>(c, ss) \<in> set classes. \<forall>s \<in> set ss. f c s = Inr ())"
proof -
  obtain rss where rss: "map_res (\<lambda>(c, ss). run_class (f c) c ss) classes = Inr rss"
    and rs: "rs = concat rss" and failed: "ev_failed summary = int (length rs) - int (length (filter ee_passed rs))"
    using assms by (auto simp: run_all_def Let_def bind_res_eq_Inr)
  have "length (filter ee_passed rs) = length rs \<longleftrightarrow> (\<forall>r \<in> set rs. ee_passed r)"
    using sum_length_filter_compl [of ee_passed rs] by (auto simp: filter_empty_conv)
  then have zero: "eval_exit_code summary = 0 \<longleftrightarrow> (\<forall>r \<in> set rs. ee_passed r)"
    by (auto simp: eval_exit_code_def failed)
  have "list_all2 (\<lambda>(c, ss) xs. list_all2 (\<lambda>s r. ee_passed r \<longleftrightarrow> f c s = Inr ()) ss xs) classes rss"
    using rss unfolding map_res_Inr_iff
    by (rule list_all2_mono) (auto dest!: run_class_results elim: list_all2_mono)
  then have "(\<forall>r \<in> set (concat rss). ee_passed r) \<longleftrightarrow> (\<forall>(c, ss) \<in> set classes. \<forall>s \<in> set ss. f c s = Inr ())"
  proof (induction rule: list_all2_induct)
    case (Cons x classes xs rss)
    obtain c ss where x: "x = (c, ss)" by (cases x)
    have "list_all2 (\<lambda>s r. ee_passed r \<longleftrightarrow> f c s = Inr ()) ss xs" using Cons.hyps(1) x by simp
    then have "(\<forall>r \<in> set xs. ee_passed r) \<longleftrightarrow> (\<forall>s \<in> set ss. f c s = Inr ())"
      by (induction rule: list_all2_induct) auto
    then show ?case using Cons x by auto
  qed simp
  with zero rs show ?thesis by simp
qed

end
