(* ===== verification/EventBus.thy ===== *)
theory EventBus
  imports ControlPlane Interfaces
begin

text \<open>
  The event bus (\<open>control_plane/bus.py\<close>) between the tasks of the gateway, which publish, and the
  one task of \<open>run_forever\<close>, which consumes: an unbounded queue. A run is any interleaving of the two;
  consuming from an empty queue is not a step, the consumer waits.
\<close>

record event_bus =
  eb_queue :: "decision_event list"

definition empty_bus :: event_bus where
  "empty_bus = \<lparr>eb_queue = []\<rparr>"

definition bus_publish :: "decision_event \<Rightarrow> event_bus \<Rightarrow> event_bus" where
  "bus_publish ev b = b\<lparr>eb_queue := eb_queue b @ [ev]\<rparr>"

definition bus_consume :: "event_bus \<Rightarrow> (decision_event \<times> event_bus) option" where
  "bus_consume b = (case eb_queue b of [] \<Rightarrow> None | ev # rest \<Rightarrow> Some (ev, b\<lparr>eb_queue := rest\<rparr>))"

text \<open>
  The system of publishers and consumer: the bus, what was published so far, and the world of the control
  plane, in which every consumed event has been processed.
\<close>

record 's bus_system =
  by_bus :: event_bus
  by_published :: "decision_event list"
  by_consumed :: "decision_event list"
  by_world :: "'s cp_world"

inductive bus_step :: "'s cp_env \<Rightarrow> 's bus_system \<Rightarrow> 's bus_system \<Rightarrow> bool" for E where
  publish: "bus_step E y (y\<lparr>by_bus := bus_publish ev (by_bus y), by_published := by_published y @ [ev]\<rparr>)"
| consume: "bus_consume (by_bus y) = Some (ev, b) \<Longrightarrow>
    bus_step E y (y\<lparr>by_bus := b, by_consumed := by_consumed y @ [ev], by_world := run_events E [ev] (by_world y)\<rparr>)"

inductive bus_reachable :: "'s cp_env \<Rightarrow> 's cp_world \<Rightarrow> 's bus_system \<Rightarrow> bool" for E w where
  start: "bus_reachable E w \<lparr>by_bus = empty_bus, by_published = [], by_consumed = [], by_world = w\<rparr>"
| step: "bus_reachable E w y \<Longrightarrow> bus_step E y z \<Longrightarrow> bus_reachable E w z"

inductive_cases bus_stepE: "bus_step E y z"

lemma run_events_append: "run_events E (evs @ evs') w = run_events E evs' (run_events E evs w)"
  by (induction evs arbitrary: w) (auto split: prod.splits sum.splits)

interpretation eb: fifo_queue bus_publish bus_consume eb_queue empty_bus
proof (standard, goal_cases)
  case 1 show ?case by (simp add: empty_bus_def)
next
  case 2 show ?case by (simp add: bus_publish_def)
next
  case (3 q) then show ?case by (simp add: bus_consume_def split: list.splits)
next
  case (4 q x q') then show ?case by (auto simp: bus_consume_def split: list.splits)
qed

text \<open>A run of the system is a run of its queue, and its world is where the consumed events lead.\<close>

lemma bus_reachable_run:
  "bus_reachable E w y \<Longrightarrow>
    fifo_run bus_publish bus_consume empty_bus (by_published y) (by_consumed y) (by_bus y) \<and>
    by_world y = run_events E (by_consumed y) w"
proof (induction rule: bus_reachable.induct)
  case start
  then show ?case by (simp add: fifo_start)
next
  case (step y z)
  from step.hyps(2) show ?case
  proof (cases rule: bus_step.cases)
    case (publish ev)
    then show ?thesis using step.IH by (simp add: fifo_put)
  next
    case (consume ev b)
    then show ?thesis
      using step.IH fifo_take by (fastforce simp: run_events_append simp del: run_events.simps)
  qed
qed

text \<open>
  Nothing is lost, doubled or reordered: the consumed events and the waiting ones are the published
  ones in order, and the control plane is where processing the consumed events one by one leads.
\<close>

lemma bus_invariant:
  "bus_reachable E w y \<Longrightarrow>
    by_consumed y @ eb_queue (by_bus y) = by_published y \<and> by_world y = run_events E (by_consumed y) w"
  using bus_reachable_run eb.in_order by blast

text \<open>The consumer is never blocked while an event waits.\<close>

lemma waiting_event_consumed:
  assumes "bus_reachable E w y" and "by_consumed y \<noteq> by_published y"
  obtains z where "bus_step E y z" and "length (by_consumed z) = Suc (length (by_consumed y))"
    and "by_published z = by_published y"
proof -
  have "fifo_run bus_publish bus_consume empty_bus (by_published y) (by_consumed y) (by_bus y)"
    using bus_reachable_run [OF assms(1)] by simp
  then obtain ev b where "bus_consume (by_bus y) = Some (ev, b)" using assms(2) by (rule eb.waiting_taken)
  from bus_step.consume [OF this] show thesis by (rule that) simp_all
qed

end
