(* ===== verification/CallVerdict.thy ===== *)
theory CallVerdict
  imports CallSafety GatewayProps
begin

text \<open>
  A call and its decision: whatever the engine decides, an exception of it included, is what happens
  to the call at the endpoint.
\<close>

definition refused_with :: "policy_decision \<Rightarrow> call \<Rightarrow> 's world \<Rightarrow> reply res \<Rightarrow> 's world \<Rightarrow> bool" where
  "refused_with d c w r w' \<longleftrightarrow> sends w w' = [] \<and> replies (\<lambda>x. x = Replied (policy_denied_response (cl_rpc_id c) d)) r"

definition forwarded_after :: "string \<Rightarrow> call \<Rightarrow> 's world \<Rightarrow> 's world \<Rightarrow> bool" where
  "forwarded_after status c w w' \<longleftrightarrow>
     (\<forall>us req vs. wd_trace w' = wd_trace w @ us @ Sent req # vs \<longrightarrow>
        (\<exists>e. rows_of us = [e] \<and> ae_status e = status \<and> (status = ''HELD'' \<longrightarrow> approved_in us)))"

lemma cleared_with:
  assumes "cleared i us" and "\<forall>e \<in> set (rows_of us). ae_status e \<in> S" and "status \<in> {''INTENT'', ''HELD''}"
    and "S \<inter> {''INTENT'', ''HELD''} \<subseteq> {status}"
  shows "\<exists>e. rows_of us = [e] \<and> ae_status e = status \<and> (status = ''HELD'' \<longrightarrow> approved_in us)"
  using assms by (auto simp: trace_defs)

text \<open>
  A denied call is refused with its decision; a held one is forwarded only after its HELD row and an
  approval; a passed one only after its INTENT row.
\<close>

definition obeys :: "policy_decision \<Rightarrow> call \<Rightarrow> 's world \<Rightarrow> reply res \<Rightarrow> 's world \<Rightarrow> bool" where
  "obeys d c w r w' \<longleftrightarrow>
     (case pd_outcome d of
        ODeny \<Rightarrow> refused_with d c w r w'
      | OHold \<Rightarrow> forwarded_after ''HELD'' c w w'
      | OPass \<Rightarrow> forwarded_after ''INTENT'' c w w')"

lemma forwarded_by_outcome:
  assumes h: "handle_tool_call E c w = (r, w')" and v: "verdict E c w = Inr d"
    and o: "pd_outcome d = OHold \<and> status = ''HELD'' \<or> pd_outcome d = OPass \<and> status = ''INTENT''"
  shows "forwarded_after status c w w'"
  unfolding forwarded_after_def
proof (intro allI impI)
  fix us req vs
  assume tr: "wd_trace w' = wd_trace w @ us @ Sent req # vs"
  obtain i where i: "cleared i us" using handle_tool_call_mediated [OF h tr] by blast
  show "\<exists>e. rows_of us = [e] \<and> ae_status e = status \<and> (status = ''HELD'' \<longrightarrow> approved_in us)"
    using handled_rows [OF h tr v] o
    by (intro cleared_with [OF i, where S = "if status = ''HELD'' then hold_statuses else pass_statuses"])
      (auto simp: hold_statuses_def pass_statuses_def)
qed

lemma call_obeys_decision:
  assumes h: "handle_tool_call E c w = (r, w')"
  shows "obeys (final_decision (verdict E c w)) c w r w'"
proof (cases "denial (verdict E c w)")
  case (Some d)
  then have "d = final_decision (verdict E c w)" "pd_outcome d = ODeny"
    by (auto simp: denial_def final_decision_def split: sum.splits if_splits)
  then show ?thesis using denied_call [OF Some h] by (auto simp: obeys_def refused_with_def)
next
  case None
  then obtain d where "verdict E c w = Inr d" "pd_outcome d \<noteq> ODeny"
    by (auto simp: denial_def split: sum.splits if_splits)
  then show ?thesis
    using forwarded_by_outcome [OF h] by (auto simp: obeys_def final_decision_def split: outcome.split)
qed

end
