(* ===== verification/AmlPack.thy ===== *)
theory AmlPack
  imports PackLoader CallVerdict ResponseStage AmlInvestigator
begin

text \<open>
  The AML policy pack (\<open>src/policies/packs/aml/*.yaml\<close>) as the loader reads it, what the engine decides
  under it for every server and tool, what that means at the gateway's endpoint, and the
  investigator agent run under it.
\<close>

section \<open>The pack\<close>

definition aml_audit_tagging :: policy where
  "aml_audit_tagging =
     \<lparr>pol_name = ''aml-audit-tagging'',
      pol_description = ''Tags every AML-pack-governed call for filtered compliance reporting.'',
      pol_applies = \<lparr>at_server = ''*'', at_tools = [''*'']\<rparr>, pol_effect = TagOnlyEffect,
      pol_audit = \<lparr>am_severity = SevLow, am_tag = [''pack:aml'', ''regulation:BSA'']\<rparr>\<rparr>"

definition aml_pii_redaction :: policy where
  "aml_pii_redaction =
     \<lparr>pol_name = ''aml-pii-redaction'',
      pol_description = ''Redacts SSN patterns, credit card numbers, and full bank routing/account number '' @
        ''combinations from tool responses before they reach the investigating agent.'' @ [CHR 0x0A],
      pol_applies = \<lparr>at_server = ''*'', at_tools = [''*'']\<rparr>,
      pol_effect = PiiRedactionEffect [''ssn'', ''credit_card'', ''bank_account''],
      pol_audit = \<lparr>am_severity = SevLow, am_tag = [''aml'', ''pii-redaction'']\<rparr>\<rparr>"

definition aml_rate_limit_sanctions :: policy where
  "aml_rate_limit_sanctions =
     \<lparr>pol_name = ''aml-rate-limit-sanctions'',
      pol_description = ''Prevents runaway agent behavior against the sanctions-screening API.'',
      pol_applies = \<lparr>at_server = ''ofac-sanctions'', at_tools = [''check_entity'']\<rparr>,
      pol_effect = RateLimitEffect 60 60,
      pol_audit = \<lparr>am_severity = SevLow, am_tag = [''aml'', ''rate-limit'']\<rparr>\<rparr>"

definition aml_sanctions_required_policy :: policy where
  "aml_sanctions_required_policy =
     \<lparr>pol_name = ''aml-sanctions-required'',
      pol_description = ''Reflects a real-world compliance workflow expectation: an analyst screens an '' @
        ''account against sanctions lists before investigating its transaction activity, '' @
        ''not after.'' @ [CHR 0x0A],
      pol_applies = \<lparr>at_server = ''transaction-graph'',
        at_tools = [''query_transactions'', ''neighbors'', ''subgraph'', ''structuring_check'', ''mark_investigated'']\<rparr>,
      pol_effect = CustomEffect ''aml_sanctions_required'' RequestStage [],
      pol_audit = \<lparr>am_severity = SevMedium, am_tag = [''aml'', ''sanctions-precondition'']\<rparr>\<rparr>"

definition aml_structuring_alert_policy :: policy where
  "aml_structuring_alert_policy =
     \<lparr>pol_name = ''aml-structuring-alert'',
      pol_description = ''Elevated risk (a structuring signature) requires elevated oversight -- tags the '' @
        ''audit entry as a high-severity incident and records the signal for the session.'' @ [CHR 0x0A],
      pol_applies = \<lparr>at_server = ''transaction-graph'', at_tools = [''structuring_check'']\<rparr>,
      pol_effect = CustomEffect ''aml_structuring_alert'' ResponseStage [],
      pol_audit = \<lparr>am_severity = SevHigh, am_tag = [''aml'', ''structuring-alert'']\<rparr>\<rparr>"

definition aml_write_hitl_gate :: policy where
  "aml_write_hitl_gate =
     \<lparr>pol_name = ''aml-write-hitl-gate'',
      pol_description = ''Mutating actions in an AML investigation require documented human authorization '' @
        ''before they take effect.'' @ [CHR 0x0A],
      pol_applies = \<lparr>at_server = ''transaction-graph'', at_tools = [''mark_investigated'']\<rparr>,
      pol_effect = HitlGateEffect ''aml-analysts'' 3600,
      pol_audit = \<lparr>am_severity = SevHigh, am_tag = [''aml'', ''write'', ''hitl'']\<rparr>\<rparr>"

definition aml_manifest :: pack_manifest where
  "aml_manifest =
     \<lparr>pm_name = ''aml'', pm_version = ''0.1.0'',
      pm_description = ''FinCEN/BSA-aligned policy pack for agentic AML investigations.'',
      pm_maintainer = ''Kousik'',
      pm_regulation_references = [''BSA (31 U.S.C. Section 5311 et seq.)'', ''FinCEN 2026 SAR filing guidance'',
        ''OFAC SDN list (public)''],
      pm_tags = [''aml'', ''bsa'', ''fincen'', ''financial-crime''],
      pm_policies = [''aml-sanctions-required'', ''aml-write-hitl-gate'', ''aml-pii-redaction'',
        ''aml-rate-limit-sanctions'', ''aml-structuring-alert'', ''aml-audit-tagging'']\<rparr>"

text \<open>The policies in the order of their file names.\<close>

definition aml_policies :: "policy list" where
  "aml_policies = [aml_audit_tagging, aml_pii_redaction, aml_rate_limit_sanctions,
     aml_sanctions_required_policy, aml_structuring_alert_policy, aml_write_hitl_gate]"

lemmas aml_pack_defs = aml_policies_def aml_audit_tagging_def aml_pii_redaction_def
  aml_rate_limit_sanctions_def aml_sanctions_required_policy_def aml_structuring_alert_policy_def
  aml_write_hitl_gate_def

lemma aml_policies_valid: "\<forall>p \<in> set aml_policies. effect_ok (pol_effect p)"
  by (simp add: aml_pack_defs)

lemma aml_policies_listed: "set (pm_policies aml_manifest) = pol_name ` set aml_policies"
  by (simp add: aml_pack_defs aml_manifest_def insert_commute)

text \<open>A directory with the pack's files, in any order, loads as \<open>aml_policies\<close>.\<close>

definition aml_file :: "policy \<Rightarrow> string" where
  "aml_file p = pol_name p @ ''.yaml''"

lemma aml_files_sorted: "sorted_wrt (<) (map aml_file aml_policies)"
  by (simp add: aml_file_def aml_pack_defs)

lemma aml_pack_loads:
  assumes dir: "distinct (map fst dir)" "set dir = insert (MANIFEST_FILENAME, mt) ((\<lambda>p. (aml_file p, txt p)) ` set aml_policies)"
    and parse: "\<forall>p \<in> set aml_policies. parse_policy (txt p) = Inr p" "parse_manifest mt = Inr aml_manifest"
  shows "load_policy_pack parse_policy parse_manifest path dir = Inr aml_policies"
proof -
  let ?fs = "map (\<lambda>p. (aml_file p, txt p)) aml_policies"
  have "policy_files dir = ?fs"
  proof (rule policy_files_listed [OF dir(1)])
    show "set dir = {(MANIFEST_FILENAME, mt)} \<union> set ?fs" using dir(2) by auto
    show "MANIFEST_FILENAME \<notin> fst ` set ?fs" by (simp add: aml_file_def aml_pack_defs MANIFEST_FILENAME_def)
    show "sorted_wrt (<) (map fst ?fs)" using aml_files_sorted by (simp add: comp_def)
  qed simp
  moreover have "map_of dir MANIFEST_FILENAME = Some mt"
    using dir by (intro map_of_is_SomeI) simp_all
  then have "load_pack_manifest parse_manifest dir = Inr (Some aml_manifest)"
    using parse(2) by (simp add: load_pack_manifest_def)
  moreover have "distinct (map pol_name aml_policies)" by (simp add: aml_pack_defs)
  ultimately show ?thesis
    using parse(1) aml_policies_listed
    by (intro load_policy_pack_complete [where mf = "Some aml_manifest"])
      (auto simp: list_all2_map1 list_all2_same)
qed

section \<open>What the engine decides\<close>

definition aml_gated_tools :: "string list" where
  "aml_gated_tools = [''query_transactions'', ''neighbors'', ''subgraph'', ''structuring_check'', ''mark_investigated'']"

definition unscreened_reason :: string where
  "unscreened_reason = ''no prior OFAC sanctions check (check_entity/check_alias) found for '' @
     ''this agent before a transaction-graph call''"

definition unscreened :: policy_decision where
  "unscreened = decision ODeny (Some ''aml-sanctions-required'') unscreened_reason"

definition write_held :: policy_decision where
  "write_held = \<lparr>pd_outcome = OHold, pd_fired_policy = Some ''aml-write-hitl-gate'', pd_reason = Some ''hitl_required'',
     pd_reviewer_group = Some ''aml-analysts'', pd_timeout_seconds = Some 3600\<rparr>"

definition screened :: "string \<Rightarrow> audit_entry list \<Rightarrow> bool" where
  "screened agent rows \<longleftrightarrow> (\<exists>e \<in> set rows. sanctions_check_row agent e)"

text \<open>The pack as one decision: screening before the graph, a reviewer before a write, 60 screenings a minute.\<close>

definition aml_verdict ::
    "(nat \<Rightarrow> rat) \<Rightarrow> string \<Rightarrow> string \<Rightarrow> string \<Rightarrow> audit_entry list \<Rightarrow> limiter \<Rightarrow> policy_decision \<times> limiter" where
  "aml_verdict clock srv tool agent rows lm =
     (if srv = ''transaction-graph'' \<and> tool \<in> set aml_gated_tools then
        (if \<not> screened agent rows then unscreened
         else if tool = ''mark_investigated'' then write_held else pass_decision, lm)
      else if srv = ''ofac-sanctions'' \<and> tool = ''check_entity'' then
        (case check_and_increment clock (''aml-rate-limit-sanctions'', agent) 60 60 lm of
           (ok, lm') \<Rightarrow>
             (if ok then pass_decision
              else decision ODeny (Some ''aml-rate-limit-sanctions'') ''rate_limit_exceeded'', lm'))
      else (pass_decision, lm))"

lemma aml_effects [simp]:
  "pol_effect aml_audit_tagging = TagOnlyEffect"
  "pol_effect aml_pii_redaction = PiiRedactionEffect [''ssn'', ''credit_card'', ''bank_account'']"
  "pol_effect aml_rate_limit_sanctions = RateLimitEffect 60 60" "pol_name aml_rate_limit_sanctions = ''aml-rate-limit-sanctions''"
  "pol_effect aml_sanctions_required_policy = CustomEffect ''aml_sanctions_required'' RequestStage []"
  "pol_name aml_sanctions_required_policy = ''aml-sanctions-required''"
  "pol_effect aml_structuring_alert_policy = CustomEffect ''aml_structuring_alert'' ResponseStage []"
  "pol_effect aml_write_hitl_gate = HitlGateEffect ''aml-analysts'' 3600" "pol_name aml_write_hitl_gate = ''aml-write-hitl-gate''"
  by (simp_all add: aml_pack_defs)

lemma aml_applies [simp]:
  "pol_applies aml_audit_tagging = \<lparr>at_server = ''*'', at_tools = [''*'']\<rparr>"
  "pol_applies aml_pii_redaction = \<lparr>at_server = ''*'', at_tools = [''*'']\<rparr>"
  "pol_applies aml_rate_limit_sanctions = \<lparr>at_server = ''ofac-sanctions'', at_tools = [''check_entity'']\<rparr>"
  "pol_applies aml_sanctions_required_policy = \<lparr>at_server = ''transaction-graph'', at_tools = aml_gated_tools\<rparr>"
  "pol_applies aml_structuring_alert_policy = \<lparr>at_server = ''transaction-graph'', at_tools = [''structuring_check'']\<rparr>"
  "pol_applies aml_write_hitl_gate = \<lparr>at_server = ''transaction-graph'', at_tools = [''mark_investigated'']\<rparr>"
  by (simp_all add: aml_pack_defs aml_gated_tools_def)

lemma aml_compiled:
  "ps_policies (compiled aml_policies srv tool) =
     [aml_audit_tagging] @
     (if srv = ''ofac-sanctions'' \<and> tool = ''check_entity'' then [aml_rate_limit_sanctions] else []) @
     (if srv = ''transaction-graph'' \<and> tool \<in> set aml_gated_tools then [aml_sanctions_required_policy] else []) @
     (if srv = ''transaction-graph'' \<and> tool = ''structuring_check'' then [aml_structuring_alert_policy] else []) @
     (if srv = ''transaction-graph'' \<and> tool = ''mark_investigated'' then [aml_write_hitl_gate] else []) @
     [aml_pii_redaction]"
  and aml_no_allowlist: "\<not> ps_server_has_allowlist (compiled aml_policies srv tool)"
proof -
  have star: "''*'' \<notin> set aml_gated_tools" by (simp add: aml_gated_tools_def)
  show "ps_policies (compiled aml_policies srv tool) =
     [aml_audit_tagging] @
     (if srv = ''ofac-sanctions'' \<and> tool = ''check_entity'' then [aml_rate_limit_sanctions] else []) @
     (if srv = ''transaction-graph'' \<and> tool \<in> set aml_gated_tools then [aml_sanctions_required_policy] else []) @
     (if srv = ''transaction-graph'' \<and> tool = ''structuring_check'' then [aml_structuring_alert_policy] else []) @
     (if srv = ''transaction-graph'' \<and> tool = ''mark_investigated'' then [aml_write_hitl_gate] else []) @
     [aml_pii_redaction]"
    using star by (simp add: compiled_def compile_fresh_def aml_policies_def applies_matches_def)
  show "\<not> ps_server_has_allowlist (compiled aml_policies srv tool)"
    by (simp add: compiled_def compile_fresh_def aml_policies_def compute_server_allowlist_flags_def)
qed

lemma aml_sanctions_required_screened:
  "aml_sanctions_required pol ctx =
     bind_res (rc_session_factory ctx) (\<lambda>rows.
       Inr (if screened (rc_agent_id ctx) rows then None else Some unscreened_reason))"
proof -
  have "(case find (sanctions_check_row a) rows of None \<Rightarrow> Inr (Some unscreened_reason) | Some e \<Rightarrow> Inr None) =
      (Inr (if screened a rows then None else Some unscreened_reason) :: string option res)" for a rows
    using find_None_all [of "sanctions_check_row a" rows]
    by (cases "find (sanctions_check_row a) rows") (auto simp: screened_def dest: find_SomeD)
  then show ?thesis
    unfolding aml_sanctions_required_def unscreened_reason_def [symmetric] by presburger
qed

text \<open>What each stage of the evaluation finds in the compiled pack.\<close>

lemma aml_finds:
  "find (\<lambda>p. is_allowlist (pol_effect p)) (ps_policies (compiled aml_policies srv tool)) = None"
  "find (\<lambda>p. is_denylist (pol_effect p)) (ps_policies (compiled aml_policies srv tool)) = None"
  "find (\<lambda>p. is_cost_cap (pol_effect p)) (ps_policies (compiled aml_policies srv tool)) = None"
  unfolding aml_compiled by (simp_all split: if_split)

lemma aml_rate_loop:
  "rate_loop clock agent (ps_policies (compiled aml_policies srv tool)) lm =
     (if srv = ''ofac-sanctions'' \<and> tool = ''check_entity'' then
        (case check_and_increment clock (''aml-rate-limit-sanctions'', agent) 60 60 lm of
           (ok, lm') \<Rightarrow> (if ok then None
                        else Some (decision ODeny (Some ''aml-rate-limit-sanctions'') ''rate_limit_exceeded''), lm'))
      else (None, lm))"
  unfolding aml_compiled by (simp split: if_split prod.split)

lemma aml_custom_loop:
  assumes "REQUEST_POLICIES = Inr reg"
  shows "custom_loop reg (Some ctx) (ps_policies (compiled aml_policies srv tool)) =
     (if srv = ''transaction-graph'' \<and> tool \<in> set aml_gated_tools
      then bind_res (rc_session_factory ctx) (\<lambda>rows. Inr (if screened (rc_agent_id ctx) rows then None else Some unscreened))
      else Inr None)"
proof -
  have "map_of reg ''aml_sanctions_required'' = Some aml_sanctions_required"
    using assms by (auto simp: REQUEST_POLICIES_eq)
  then show ?thesis
    unfolding aml_compiled
    by (cases "rc_session_factory ctx")
      (simp_all add: aml_sanctions_required_screened unscreened_def split: if_split)
qed

lemma aml_hitl_loop:
  "hitl_loop (ps_policies (compiled aml_policies srv tool)) =
     (if srv = ''transaction-graph'' \<and> tool = ''mark_investigated'' then Some write_held else None)"
  unfolding aml_compiled by (simp add: write_held_def split: if_split)

lemmas aml_stages = aml_finds aml_rate_loop aml_hitl_loop

lemma aml_pack_decides:
  assumes reg: "REQUEST_POLICIES = Inr reg" and rows: "rc_session_factory ctx = Inr rows" "rc_agent_id ctx = agent"
  shows "evaluate reg clock (compiled aml_policies srv tool) agent (Some ctx) lm =
    (case aml_verdict clock srv tool agent rows lm of (d, lm') \<Rightarrow> (Inr d, lm'))"
  unfolding evaluate_def aml_verdict_def aml_stages aml_custom_loop [OF reg]
  using rows by (auto simp: aml_no_allowlist aml_gated_tools_def split: prod.splits)


section \<open>At the endpoint\<close>

text \<open>What a custom policy of the call sees of the audit table.\<close>

definition rows_seen :: "'s env \<Rightarrow> call \<Rightarrow> 's world \<Rightarrow> audit_entry list res" where
  "rows_seen E c w =
     (let w1 = await E (snd (run_compile c w))
      in case ev_db E (wd_n w1) of Some e \<Rightarrow> Inl e | None \<Rightarrow> Inr (tb_rows (sh_table (wd_shared w1))))"

definition graph_verdict :: "call \<Rightarrow> audit_entry list \<Rightarrow> policy_decision" where
  "graph_verdict c rows =
     (if \<not> screened (subject_of c) rows then unscreened
      else if cl_tool c = ''mark_investigated'' then write_held else pass_decision)"

lemma aml_graph_evaluate:
  assumes reg: "REQUEST_POLICIES = Inr reg" and a: "rc_agent_id ctx = agent" and t: "tool \<in> set aml_gated_tools"
  shows "fst (evaluate reg clock (compiled aml_policies ''transaction-graph'' tool) agent (Some ctx) lm) =
    bind_res (rc_session_factory ctx) (\<lambda>rows.
      Inr (if \<not> screened agent rows then unscreened
           else if tool = ''mark_investigated'' then write_held else pass_decision))"
  unfolding evaluate_def aml_stages aml_custom_loop [OF reg]
  using a t by (cases "rc_session_factory ctx") (auto simp: aml_no_allowlist aml_gated_tools_def)

lemma aml_graph_verdict:
  assumes eng: "engine_ok aml_policies (sh_engine (wd_shared w))"
    and reg: "REQUEST_POLICIES = Inr (ev_request_policies E)"
    and c: "cl_server c = ''transaction-graph''" "cl_tool c \<in> set aml_gated_tools"
  shows "verdict E c w = bind_res (rows_seen E c w) (\<lambda>rows. Inr (graph_verdict c rows))"
proof -
  let ?w1 = "await E (snd (run_compile c w))"
  have "call_set c w = compiled aml_policies ''transaction-graph'' (cl_tool c)"
    unfolding call_set_def c(1) [symmetric] by (rule compile_ok(1) [OF eng])
  then show ?thesis
    using c(2)
    by (simp add: verdict_def run_evaluate_def Let_def case_prod_beta' aml_graph_evaluate [OF reg] rows_seen_def
        graph_verdict_def)
qed

text \<open>
  A call of the transaction graph other than \<open>get_account\<close>: without a screening of the agent, or
  when the table cannot be read, it is refused; a write is forwarded only after an approval; any
  other call is forwarded as its own INTENT row says.
\<close>

lemma aml_graph_call:
  assumes eng: "engine_ok aml_policies (sh_engine (wd_shared w))"
    and reg: "REQUEST_POLICIES = Inr (ev_request_policies E)"
    and c: "cl_server c = ''transaction-graph''" "cl_tool c \<in> set aml_gated_tools"
    and h: "handle_tool_call E c w = (r, w')"
  shows "case rows_seen E c w of
      Inl e \<Rightarrow> refused_with (decision ODeny None ''policy_engine_error'') c w r w'
    | Inr rows \<Rightarrow>
        if \<not> screened (subject_of c) rows then refused_with unscreened c w r w'
        else forwarded_after (if cl_tool c = ''mark_investigated'' then ''HELD'' else ''INTENT'') c w w'"
proof -
  have "obeys (final_decision (bind_res (rows_seen E c w) (\<lambda>rows. Inr (graph_verdict c rows)))) c w r w'"
    using call_obeys_decision [OF h] aml_graph_verdict [OF eng reg c] by simp
  then show ?thesis
    by (cases "rows_seen E c w") (auto simp: obeys_def final_decision_def graph_verdict_def unscreened_def write_held_def)
qed


text \<open>
  What counts as a screening: any answer of the sanctions server, a JSON-RPC error and a failed
  tool result too, since a forwarded call that was answered is recorded as COMPLETED.
\<close>

lemma error_answer_passes:
  assumes "decode_mcp_body (ev_json_float E) raw ct = Inr parsed" and "result_of parsed = None"
  shows "stage8 E c ps raw ct w = (Inr (raw, []), w)"
  using assms
  by (auto simp: stage8_def result_of_def bind_act_def lift_res_def ret_def split: json.splits)

lemma answered_call_is_screening:
  assumes a: "run_forward E c ps (tick w) = (Inr (resp, tags), w2)"
    and f: "forward_and_record E c ps t f d i h w = (Inr x, w')"
    and c: "cl_server c = ''ofac-sanctions''" "cl_tool c \<in> set SANCTIONS_CHECK_TOOLS"
  shows "\<exists>e vs. wd_trace w' = vs @ [Wrote e] \<and> sanctions_check_row (subject_of c) e"
proof -
  obtain e k status p l tgs w3 w4 where wr: "write_call_row E c t f ''COMPLETED'' k p l h tgs w3 = (Inr e, w')"
    using f a
    by (auto simp: forward_and_record_def attempt_def draw_def measure_metric_def ret_def throw_def bind_act_def
        split: prod.splits sum.splits if_splits)
  have "emits (about_in {''COMPLETED''} c t) (write_call_row E c t f ''COMPLETED'' k p l h tgs)"
    by (rule emits_write_call_row) simp
  have "\<exists>vs. wd_trace w' = vs @ [Wrote e] \<and> row_about c t e \<and> ae_status e = ''COMPLETED''"
    using wr write_entry_about
    by (fastforce simp: write_call_row_def bind_act_def draw_def write_row_def Let_def log_effect_def tick_def
        split: prod.splits sum.splits)
  then show ?thesis using c by (auto simp: sanctions_check_row_def row_about_def)
qed

text \<open>
  A screening lasts: the table only grows, through the writes of any call and of all others, so once
  the row of a screening is stored no graph call of that agent is refused for want of one.
\<close>

lemma screening_stays_in_table:
  assumes "table_ok tb" and "write_entry fault now a tb = (Inr e, tb')" and "sanctions_check_row agent e"
  shows "screened agent (tb_rows (foldl (\<lambda>tb (fault, now, a). snd (write_entry fault now a tb)) tb' later))"
  using al.written_stays [of tb "(fault, now, a)" e tb' later] assms by (auto simp: screened_def case_prod_beta')

lemma stored_screening_seen:
  assumes E: "others_ok policies E" and row: "e \<in> set (tb_rows (sh_table (wd_shared w)))"
    and e: "sanctions_check_row agent e" and seen: "rows_seen E c w = Inr rows"
  shows "screened agent rows"
proof -
  let ?w1 = "snd (run_compile c w)"
  have "grows policies (wd_shared w) (wd_shared ?w1)"
    using keepsD [OF keeps_run_compile [of policies c]] by (metis prod.collapse)
  with await_grows [OF E, of ?w1] have "e \<in> set (tb_rows (sh_table (wd_shared (await E ?w1))))"
    using row grows_rows by blast
  then show ?thesis
    using seen e by (auto simp: rows_seen_def Let_def screened_def split: option.splits)
qed

lemma screening_opens_graph:
  assumes eng: "engine_ok aml_policies (sh_engine (wd_shared w))"
    and reg: "REQUEST_POLICIES = Inr (ev_request_policies E)" and E: "others_ok aml_policies E"
    and c: "cl_server c = ''transaction-graph''" "cl_tool c \<in> set aml_gated_tools"
    and row: "e \<in> set (tb_rows (sh_table (wd_shared w)))" "sanctions_check_row (subject_of c) e"
    and seen: "rows_seen E c w = Inr rows" and h: "handle_tool_call E c w = (r, w')"
  shows "forwarded_after (if cl_tool c = ''mark_investigated'' then ''HELD'' else ''INTENT'') c w w'"
  using aml_graph_call [OF eng reg c h] stored_screening_seen [OF E row seen] by (simp add: seen)

section \<open>The investigator under the pack\<close>

definition window_open :: "string \<Rightarrow> limiter \<Rightarrow> bool" where
  "window_open agent lm \<longleftrightarrow>
     (case map_of (rl_windows lm) (''aml-rate-limit-sanctions'', agent) of None \<Rightarrow> True | Some (n, s) \<Rightarrow> n < 60)"

lemma window_open_admits: "window_open agent lm \<Longrightarrow> fst (check_and_increment clock (''aml-rate-limit-sanctions'', agent) 60 60 lm)"
  by (auto simp: window_open_def check_and_increment_def Let_def split: option.splits prod.splits)

text \<open>
  \<open>served_before\<close>: when call \<open>k\<close> is evaluated, each earlier call of the agent has its COMPLETED row.
\<close>

definition served_before :: "string \<Rightarrow> (string \<times> string) list \<Rightarrow> nat \<Rightarrow> audit_entry list \<Rightarrow> bool" where
  "served_before agent calls k rows \<longleftrightarrow>
     (\<forall>(srv, tool) \<in> set (take k calls). \<exists>e \<in> set rows.
        ae_agent_id e = agent \<and> ae_server e = srv \<and> ae_tool e = tool \<and> ae_status e = ''COMPLETED'')"

lemma served_screening:
  "served_before agent calls k rows \<Longrightarrow> (OFAC_ROUTE, ''check_entity'') \<in> set (take k calls) \<Longrightarrow> screened agent rows"
  by (fastforce simp: served_before_def screened_def sanctions_check_row_def SANCTIONS_CHECK_TOOLS_def OFAC_ROUTE_def)

definition gated_call :: "string \<times> string \<Rightarrow> bool" where
  "gated_call cl \<longleftrightarrow> fst cl = ''transaction-graph'' \<and> snd cl \<in> set aml_gated_tools"

text \<open>The order of the investigator: no gated call before the screening, one write.\<close>

lemma screened_before_gated:
  assumes "calls = (TRANSACTION_GRAPH_ROUTE, ''get_account'') # (OFAC_ROUTE, ''check_entity'') # rest"
    and "k < length calls" and "gated_call (calls ! k)"
  shows "(OFAC_ROUTE, ''check_entity'') \<in> set (take k calls)"
proof -
  have "\<not> gated_call (TRANSACTION_GRAPH_ROUTE, ''get_account'')" "\<not> gated_call (OFAC_ROUTE, ''check_entity'')"
    by (simp_all add: gated_call_def aml_gated_tools_def TRANSACTION_GRAPH_ROUTE_def OFAC_ROUTE_def)
  with assms(3) have "k \<noteq> 0" "k \<noteq> Suc 0" using assms(1) by (metis nth_Cons_0, metis nth_Cons_0 nth_Cons_Suc)
  then obtain j where "k = Suc (Suc j)" by (metis not0_implies_Suc)
  then show ?thesis using assms(1) by simp
qed

lemma investigation_under_pack:
  assumes reg: "REQUEST_POLICIES = Inr reg"
    and run: "run_investigation E al w = (Inr st, w')" and calls: "tools_of w' = tools_of w @ calls"
    and k: "k < length calls"
    and ctx: "rc_session_factory ctx = Inr rows" "rc_agent_id ctx = agent"
    and served: "served_before agent calls k rows" and room: "window_open agent lm"
  shows "fst (evaluate reg clock (compiled aml_policies (fst (calls ! k)) (snd (calls ! k))) agent (Some ctx) lm) =
    Inr (if k = length calls - 1 then write_held else pass_decision)"
proof -
  obtain more where cs: "calls = (TRANSACTION_GRAPH_ROUTE, ''get_account'') # (OFAC_ROUTE, ''check_entity'') #
       [(TRANSACTION_GRAPH_ROUTE, ''query_transactions''), (TRANSACTION_GRAPH_ROUTE, ''neighbors''),
       (TRANSACTION_GRAPH_ROUTE, ''subgraph''), (TRANSACTION_GRAPH_ROUTE, ''structuring_check'')] @
       more @ [(TRANSACTION_GRAPH_ROUTE, ''mark_investigated'')]"
    and more: "set more \<subseteq> {(OFAC_ROUTE, ''get_entity_detail'')}"
  proof -
    obtain d :: discovery_findings where "calls = [(TRANSACTION_GRAPH_ROUTE, ''get_account''), (OFAC_ROUTE, ''check_entity''),
        (TRANSACTION_GRAPH_ROUTE, ''query_transactions''), (TRANSACTION_GRAPH_ROUTE, ''neighbors''),
        (TRANSACTION_GRAPH_ROUTE, ''subgraph''), (TRANSACTION_GRAPH_ROUTE, ''structuring_check'')] @
        (if hit_matched (df_sanctions_hit d) then [(OFAC_ROUTE, ''get_entity_detail'')] else []) @
        [(TRANSACTION_GRAPH_ROUTE, ''mark_investigated'')]"
      using investigation_calls [OF run] unfolding calls same_append_eq by blast
    then show thesis
      by (intro that [of "if hit_matched (df_sanctions_hit d) then [(OFAC_ROUTE, ''get_entity_detail'')] else []"])
        (simp_all only: append_Cons append_Nil, auto)
  qed
  have scr: "screened agent rows" if "gated_call (calls ! k)"
    by (rule served_screening [OF served screened_before_gated [OF cs k that]])
  have route: "fst (calls ! (length calls - 1)) = ''transaction-graph''"
    by (simp add: cs nth_append TRANSACTION_GRAPH_ROUTE_def)
  have last: "snd (calls ! k) = ''mark_investigated'' \<longleftrightarrow> k = length calls - 1"
  proof
    assume "k = length calls - 1"
    then show "snd (calls ! k) = ''mark_investigated''" by (simp add: cs nth_append)
  next
    assume m: "snd (calls ! k) = ''mark_investigated''"
    show "k = length calls - 1"
    proof (rule ccontr)
      assume "k \<noteq> length calls - 1"
      then have "k < length (butlast calls)" using k by simp
      then have "calls ! k \<in> set (butlast calls)" by (metis nth_butlast nth_mem)
      then show False using m more by (auto simp: cs butlast_append)
    qed
  qed
  show ?thesis
    using window_open_admits [OF room, of clock] last scr route
    by (auto simp: aml_pack_decides [OF reg ctx] aml_verdict_def gated_call_def aml_gated_tools_def split: prod.splits)
qed

end
