(* ===== verification/DemoCommand.thy ===== *)
theory DemoCommand
  imports ReviewCli AmlInvestigator
begin

text \<open>
  \<open>cli/demo.py\<close>: the command \<open>interpose demo aml\<close>, which provisions the stack, drives an investigation
  and verifies the audit trail, each as a process of its own or a read of the table; and \<open>run.py\<close> of
  the investigator, the program the second step starts. The processes and the database are the
  environment; the processes started and the lines printed are kept in the state.
\<close>

section \<open>The environment\<close>

record process =
  pr_argv :: "string list"
  pr_cwd :: string
  pr_extra_env :: "(string \<times> string) list"

record 's demo_env =
  dm_root :: string
  dm_python :: string
  dm_subprocess :: "process \<Rightarrow> 's \<Rightarrow> int res \<times> 's"
  dm_table :: "'s \<Rightarrow> audit_table res"

record 's demo_state =
  ds_out :: "string list"
  ds_started :: "process list"
  ds_world :: 's

text \<open>A command returns, ends the program with a code (\<open>typer.Exit\<close>), or fails.\<close>

datatype ending = Returned | Exited int | Crashed exn

type_synonym 's demo_act = "'s demo_state \<Rightarrow> ending \<times> 's demo_state"

definition echo_line :: "string \<Rightarrow> 's demo_state \<Rightarrow> 's demo_state" where
  "echo_line t st = st\<lparr>ds_out := ds_out st @ [t]\<rparr>"

definition run_process :: "'s demo_env \<Rightarrow> process \<Rightarrow> 's demo_state \<Rightarrow> int res \<times> 's demo_state" where
  "run_process E p st =
     (case dm_subprocess E p (ds_world st) of
        (r, s') \<Rightarrow> (r, st\<lparr>ds_started := ds_started st @ [p], ds_world := s'\<rparr>))"

definition DEV_UP_SCRIPT :: "'s demo_env \<Rightarrow> string" where
  "DEV_UP_SCRIPT E = dm_root E @ ''/scripts/dev-up.sh''"

definition INVESTIGATOR_SCRIPT :: "'s demo_env \<Rightarrow> string" where
  "INVESTIGATOR_SCRIPT E = dm_root E @ ''/agents/aml-investigator/run_investigation.py''"

section \<open>Setting up\<close>

definition setup_process :: "'s demo_env \<Rightarrow> process" where
  "setup_process E = \<lparr>pr_argv = [DEV_UP_SCRIPT E], pr_cwd = dm_root E, pr_extra_env = [(''POLICY_PACK'', ''aml'')]\<rparr>"

definition run_setup :: "'s demo_env \<Rightarrow> 's demo_act" where
  "run_setup E st =
     (let st = echo_line ''==> interpose demo aml --setup: provisioning the local kind stack'' st;
          st = echo_line (''    Provisions the gateway plus all three dev fixture MCP servers '' @
            ''(hello-echo, ofac-sanctions, transaction-graph) in-cluster via '' @
            ''scripts/dev-up.sh -- kind.yaml mounts $IBM_AML_DATA_DIR '' @
            ''(default ~/.interpose/data/ibm-aml) into the cluster for transaction-graph, '' @
            ''and the gateway loads the real AML policy pack '' @
            ''(charts/interpose/files/policies-aml/, POLICY_PACK=aml). --run against this '' @
            ''cluster's gateway (--gateway-url http://127.0.0.1:8000, the default) '' @
            ''exercises the real AML pack end to end.'') st
      in case run_process E (setup_process E) st of
           (Inl e, st) \<Rightarrow> (Crashed e, st)
         | (Inr code, st) \<Rightarrow> (if code \<noteq> 0 then Exited code else Returned, st))"

section \<open>Running\<close>

definition investigation_process :: "'s demo_env \<Rightarrow> string option \<Rightarrow> string \<Rightarrow> process" where
  "investigation_process E account_id gateway_url =
     \<lparr>pr_argv = [dm_python E, INVESTIGATOR_SCRIPT E, ''--gateway-url'', gateway_url] @
        (case account_id of None \<Rightarrow> [] | Some a \<Rightarrow> if a = [] then [] else [''--account-id'', a]),
      pr_cwd = dm_root E, pr_extra_env = []\<rparr>"

text \<open>The second half of \<open>_run_investigation\<close>, once the investigator has ended with 0.\<close>

definition verify_trail :: "audit_entry list \<Rightarrow> 's demo_act" where
  "verify_trail entries st =
     (if entries = [] then (Exited 1, echo_line ''No audit entries found.'' st)
      else case verify_chain entries of
             Inl e \<Rightarrow> (Crashed e, st)
           | Inr r \<Rightarrow>
               if \<not> vr_valid r then
                 (Exited 1, echo_line (''FAILED: chain integrity broken at entry id='' @
                    (case vr_first_mismatch_id r of None \<Rightarrow> ''None'' | Some i \<Rightarrow> show_int i) @ ''.'') st)
               else
                 (Exited 0,
                  echo_line (''==> Grafana dashboards (Section 12.4): '' @
                    ''kubectl port-forward -n interpose-system svc/interpose-grafana 3000:3000, '' @
                    ''then http://localhost:3000'')
                  (echo_line (''OK: chain intact. '' @ show_nat (vr_checked r) @
                    '' entries verified from genesis.'') st)))"

definition run_demo_investigation :: "'s demo_env \<Rightarrow> string option \<Rightarrow> string \<Rightarrow> 's demo_act" where
  "run_demo_investigation E account_id gateway_url st =
     (let st = echo_line (''==> interpose demo aml --run: investigating against '' @ gateway_url) st
      in case run_process E (investigation_process E account_id gateway_url) st of
           (Inl e, st) \<Rightarrow> (Crashed e, st)
         | (Inr code, st) \<Rightarrow>
             if code \<noteq> 0 then
               (Exited code, echo_line ''Investigation run failed; skipping audit verification.'' st)
             else
               (let st = echo_line ''==> verifying the audit trail (same check as `interpose verify-audit`)'' st
                in case dm_table E (ds_world st) of
                     Inl e \<Rightarrow> (Crashed e, st)
                   | Inr tb \<Rightarrow> verify_trail (fetch_all_entries tb) st))"

definition demo_aml :: "'s demo_env \<Rightarrow> bool \<Rightarrow> bool \<Rightarrow> string option \<Rightarrow> string \<Rightarrow> 's demo_act" where
  "demo_aml E do_setup run account_id gateway_url st =
     (if \<not> do_setup \<and> \<not> run then
        (Exited 2, echo_line ''Specify --setup, --run, or both. See `interpose demo aml --help`.'' st)
      else
        (case (if do_setup then run_setup E st else (Returned, st)) of
           (Returned, st) \<Rightarrow> if run then run_demo_investigation E account_id gateway_url st else (Returned, st)
         | (e, st) \<Rightarrow> (e, st)))"

section \<open>The program it runs\<close>

text \<open>\<open>_main\<close> of \<open>run.py\<close>: the alert is the account asked for, or a seeded one.\<close>

definition alert_of :: "string option \<Rightarrow> alert res \<Rightarrow> alert res" where
  "alert_of account_id seeded =
     (case account_id of
        None \<Rightarrow> seeded
      | Some a \<Rightarrow> if a = [] then seeded
          else Inr \<lparr>at_account_id = a, at_alert_type = ''SUSPICIOUS_WIRE'', at_narrative_hint = None\<rparr>)"

text \<open>The counts \<open>run_investigation\<close> logs: all calls, those that went well, those that did not.\<close>

definition log_counts :: "inv_world \<Rightarrow> nat \<times> nat \<times> nat" where
  "log_counts w = (length (iw_call_log w), length (filter tc_ok (iw_call_log w)),
     length (filter (\<lambda>c. \<not> tc_ok c) (iw_call_log w)))"

definition investigator_main ::
    "inv_env \<Rightarrow> string option \<Rightarrow> alert res \<Rightarrow> (alert \<times> investigation_state) inv_act" where
  "investigator_main E account_id seeded =
     cbind (clift (alert_of account_id seeded)) (\<lambda>a.
     cbind (run_investigation E a) (\<lambda>st. cret (a, st)))"

section \<open>What its exit code says\<close>

lemma echo_line_simps [simp]:
  "ds_started (echo_line t st) = ds_started st" "ds_world (echo_line t st) = ds_world st"
  by (simp_all add: echo_line_def)

lemma verify_trail_exit:
  "\<exists>st'. verify_trail entries st = (Exited (if entries \<noteq> [] \<and> audit_linked GENESIS_HASH entries then 0 else 1), st') \<and>
     ds_started st' = ds_started st \<and> ds_world st' = ds_world st"
proof (cases "audit_linked GENESIS_HASH entries")
  case True
  then show ?thesis
    using verify_from_valid [OF True, of 0] by (simp add: verify_trail_def verify_chain_def)
next
  case False
  then show ?thesis
    using verify_from_invalid [OF False, of 0] by (auto simp: verify_trail_def verify_chain_def)
qed

text \<open>\<open>--run\<close> exits with 0 exactly when every step did and the table is a non-empty intact chain.\<close>

definition demo_went_well :: "'s demo_env \<Rightarrow> bool \<Rightarrow> string option \<Rightarrow> string \<Rightarrow> 's \<Rightarrow> 's \<Rightarrow> bool" where
  "demo_went_well E do_setup account_id gateway_url s s' \<longleftrightarrow>
     (\<exists>s1 tb. (if do_setup then dm_subprocess E (setup_process E) s = (Inr 0, s1) else s1 = s) \<and>
        dm_subprocess E (investigation_process E account_id gateway_url) s1 = (Inr 0, s') \<and>
        dm_table E s' = Inr tb \<and> fetch_all_entries tb \<noteq> [] \<and> audit_linked GENESIS_HASH (fetch_all_entries tb))"

text \<open>How the second step ends, as one case distinction.\<close>

definition investigation_ending :: "'s demo_env \<Rightarrow> int res \<Rightarrow> 's \<Rightarrow> ending" where
  "investigation_ending E r s =
     (case r of
        Inl e \<Rightarrow> Crashed e
      | Inr code \<Rightarrow>
          if code \<noteq> 0 then Exited code
          else (case dm_table E s of
                  Inl e \<Rightarrow> Crashed e
                | Inr tb \<Rightarrow>
                    Exited (if fetch_all_entries tb \<noteq> [] \<and> audit_linked GENESIS_HASH (fetch_all_entries tb) then 0 else 1)))"

lemma demo_investigation_ends:
  assumes s: "dm_subprocess E (investigation_process E account_id gateway_url) (ds_world st) = (r, s')"
  shows "\<exists>st'. run_demo_investigation E account_id gateway_url st = (investigation_ending E r s', st') \<and>
    ds_started st' = ds_started st @ [investigation_process E account_id gateway_url] \<and> ds_world st' = s'"
proof (cases r)
  case (Inl e)
  then show ?thesis
    using s by (simp add: run_demo_investigation_def run_process_def investigation_ending_def Let_def)
next
  case (Inr code)
  note run = run_demo_investigation_def run_process_def investigation_ending_def Let_def
  show ?thesis
  proof (cases "code \<noteq> 0 \<or> (\<exists>e. dm_table E s' = Inl e)")
    case True
    then show ?thesis using s Inr by (auto simp: run)
  next
    case False
    then obtain tb where tb: "code = 0" "dm_table E s' = Inr tb" by (cases "dm_table E s'") auto
    let ?st = "echo_line ''==> verifying the audit trail (same check as `interpose verify-audit`)''
      ((echo_line (''==> interpose demo aml --run: investigating against '' @ gateway_url) st)
        \<lparr>ds_started := ds_started st @ [investigation_process E account_id gateway_url], ds_world := s'\<rparr>)"
    from verify_trail_exit [of "fetch_all_entries tb" ?st] s Inr tb show ?thesis by (auto simp: run)
  qed
qed

lemma demo_setup_ends:
  assumes s: "dm_subprocess E (setup_process E) (ds_world st) = (r, s')"
  shows "\<exists>st'. run_setup E st =
      (case r of Inl e \<Rightarrow> Crashed e | Inr code \<Rightarrow> if code \<noteq> 0 then Exited code else Returned, st') \<and>
    ds_started st' = ds_started st @ [setup_process E] \<and> ds_world st' = s'"
  using s by (cases r) (auto simp: run_setup_def run_process_def Let_def)

lemma demo_run_exit:
  assumes "demo_aml E do_setup True account_id gateway_url st = (e, st')"
  shows "e = Exited 0 \<longleftrightarrow> demo_went_well E do_setup account_id gateway_url (ds_world st) (ds_world st')"
proof (cases do_setup)
  case False
  obtain r s' where s: "dm_subprocess E (investigation_process E account_id gateway_url) (ds_world st) = (r, s')"
    by fastforce
  from demo_investigation_ends [OF s] assms False s show ?thesis
    by (auto simp: demo_aml_def demo_went_well_def investigation_ending_def split: sum.splits if_splits)
next
  case True
  obtain r1 s1 where s1: "dm_subprocess E (setup_process E) (ds_world st) = (r1, s1)" by fastforce
  obtain st1 where st1: "run_setup E st =
      (case r1 of Inl e \<Rightarrow> Crashed e | Inr code \<Rightarrow> if code \<noteq> 0 then Exited code else Returned, st1)" "ds_world st1 = s1"
    using demo_setup_ends [OF s1] by blast
  obtain r s' where s: "dm_subprocess E (investigation_process E account_id gateway_url) s1 = (r, s')" by fastforce
  show ?thesis
  proof (cases "r1 = Inr 0")
    case r1: True
    with demo_investigation_ends [of E account_id gateway_url st1, unfolded st1(2), OF s] assms True s1 st1 s
    show ?thesis
      by (auto simp: demo_aml_def demo_went_well_def investigation_ending_def split: sum.splits if_splits)
  next
    case r1: False
    then show ?thesis using assms True s1 st1
      by (auto simp: demo_aml_def demo_went_well_def split: sum.splits if_splits)
  qed
qed

text \<open>An empty table: the demo fails, the command whose check it says it repeats succeeds.\<close>

lemma empty_table_differs:
  "report_audit d [] = Inr ([''No audit entries found.''], 0)"
  "fst (verify_trail [] st) = Exited 1"
  by (simp_all add: report_audit_def verify_trail_def)

lemma log_counts_add: "log_counts w = (n, ok, failed) \<Longrightarrow> n = ok + failed"
  using sum_length_filter_compl [of tc_ok "iw_call_log w"] by (auto simp: log_counts_def)

end
