(* ===== verification/SampleAml.thy ===== *)
theory SampleAml
  imports AmlPack DemoCommand SampleCalls SampleServers
begin

text \<open>Inputs of the AML deployment: a world under the pack, the rows of served calls, the demo's processes.\<close>

definition sample_graph_call :: "string \<Rightarrow> call" where
  "sample_graph_call tool = sample_call\<lparr>cl_server := ''transaction-graph'', cl_tool := tool\<rparr>"

lemma sample_graph_call_simps [simp]:
  "cl_server (sample_graph_call tool) = ''transaction-graph''" "cl_tool (sample_graph_call tool) = tool"
  by (simp_all add: sample_graph_call_def)

lemma sample_registry: "REQUEST_POLICIES = Inr (ev_request_policies sample_env)"
  by (simp add: REQUEST_POLICIES_eq sample_env_def)

lemma sample_unscreened: "rows_seen sample_env (sample_graph_call tool) (sample_world policies) = Inr []"
  by (simp add: rows_seen_def run_compile_def await_def sample_env_def sample_world_def tick_def Let_def case_prod_beta' empty_table_def)

definition served_rows :: "string \<Rightarrow> (string \<times> string) list \<Rightarrow> audit_entry list" where
  "served_rows agent calls = map (\<lambda>(srv, tool). sample_row\<lparr>ae_agent_id := agent, ae_server := srv,
     ae_tool := tool, ae_status := ''COMPLETED''\<rparr>) calls"

lemma served_rows_served: "served_before agent calls k (served_rows agent calls)"
  by (force simp: served_before_def served_rows_def dest: in_set_takeD)

definition sample_ctx :: "string \<Rightarrow> audit_entry list \<Rightarrow> request_ctx" where
  "sample_ctx agent rows = \<lparr>rc_session_id = ''session-1'', rc_agent_id = agent, rc_server = [], rc_tool = [],
     rc_arguments = JObj [], rc_session_factory = Inr rows\<rparr>"

lemma sample_ctx_simps [simp]:
  "rc_session_factory (sample_ctx agent rows) = Inr rows" "rc_agent_id (sample_ctx agent rows) = agent"
  by (simp_all add: sample_ctx_def)

text \<open>Processes that end with 0 over a table with one sealed row; the world is whether they ran.\<close>

definition sample_demo :: "bool demo_env" where
  "sample_demo = \<lparr>dm_root = ''/repo'', dm_python = ''python'', dm_subprocess = (\<lambda>p s. (Inr 0, True)),
     dm_table = (\<lambda>s. Inr \<lparr>tb_rows = [sample_row], tb_seq = 1\<rparr>)\<rparr>"

end
