(* ===== verification/EchoPack.thy ===== *)
theory EchoPack
  imports PackLoader CallVerdict CallRuns
begin

text \<open>
  The demonstration deployment: the tools of the echo servers (\<open>examples/hello-mcp-echo/server.py\<close>,
  \<open>examples/hello-mcp-http-echo/server.py\<close>), the four policies the gateway loads by default
  (\<open>config/policies/*.yaml\<close>, the same files as in the Helm chart), what the engine decides under them,
  and which of the tools can be reached through the gateway.
\<close>

section \<open>The servers\<close>

definition echo :: "string \<Rightarrow> string" where
  "echo text_arg = text_arg"

definition dangerous_tool :: string where
  "dangerous_tool = ''should never be reached''"

definition throttled_tool :: string where
  "throttled_tool = ''called''"

definition hitl_tool :: string where
  "hitl_tool = ''approved and executed''"

definition hitl_timeout_tool :: string where
  "hitl_timeout_tool = ''should never be reached (nobody approves this one in the tests)''"

definition echo_untrusted :: "string \<Rightarrow> string" where
  "echo_untrusted text_arg = text_arg"

definition leaky_echo :: "string \<Rightarrow> string" where
  "leaky_echo text_arg = text_arg"

text \<open>The registered tools, each a function of the argument \<open>text\<close> it may have.\<close>

definition http_echo_tools :: "(string, string \<Rightarrow> string) dict" where
  "http_echo_tools =
     [(''echo'', echo), (''dangerous_tool'', \<lambda>_. dangerous_tool), (''throttled_tool'', \<lambda>_. throttled_tool),
      (''hitl_tool'', \<lambda>_. hitl_tool), (''hitl_timeout_tool'', \<lambda>_. hitl_timeout_tool),
      (''echo_untrusted'', echo_untrusted), (''leaky_echo'', leaky_echo)]"

section \<open>The policies\<close>

definition echo_audit :: "severity \<Rightarrow> audit_meta" where
  "echo_audit s = \<lparr>am_severity = s, am_tag = [''demo'']\<rparr>"

definition no_dangerous_tool :: policy where
  "no_dangerous_tool =
     \<lparr>pol_name = ''hello-echo-no-dangerous-tool'',
      pol_description = ''Local dev/demo policy -- denies the dangerous_tool test tool on hello-echo.'',
      pol_applies = \<lparr>at_server = ''hello-echo'', at_tools = [''dangerous_tool'']\<rparr>,
      pol_effect = DenylistEffect ''dangerous_tool is denylisted for this local demo'',
      pol_audit = echo_audit SevHigh\<rparr>"

definition hitl_timeout_test_tool :: policy where
  "hitl_timeout_test_tool =
     \<lparr>pol_name = ''hello-echo-hitl-timeout-test-tool'',
      pol_description = ''Local dev/demo policy -- holds hitl_timeout_tool with a 2s timeout.'',
      pol_applies = \<lparr>at_server = ''hello-echo'', at_tools = [''hitl_timeout_tool'']\<rparr>,
      pol_effect = HitlGateEffect ''test-reviewers'' 2,
      pol_audit = echo_audit SevMedium\<rparr>"

definition hitl_test_tool :: policy where
  "hitl_test_tool =
     \<lparr>pol_name = ''hello-echo-hitl-test-tool'',
      pol_description = ''Local dev/demo policy -- holds hitl_tool for human review.'',
      pol_applies = \<lparr>at_server = ''hello-echo'', at_tools = [''hitl_tool'']\<rparr>,
      pol_effect = HitlGateEffect ''test-reviewers'' 30,
      pol_audit = echo_audit SevMedium\<rparr>"

definition throttle_test_tool :: policy where
  "throttle_test_tool =
     \<lparr>pol_name = ''hello-echo-throttle-test-tool'',
      pol_description = ''Local dev/demo policy -- limits throttled_tool to 1 call per window.'',
      pol_applies = \<lparr>at_server = ''hello-echo'', at_tools = [''throttled_tool'']\<rparr>,
      pol_effect = RateLimitEffect 1 60,
      pol_audit = echo_audit SevLow\<rparr>"

text \<open>The files, in the order of their names; there is no manifest.\<close>

definition echo_files :: "(string \<times> policy) list" where
  "echo_files =
     [(''hello-echo-denylist.yaml'', no_dangerous_tool),
      (''hello-echo-hitl-timeout.yaml'', hitl_timeout_test_tool),
      (''hello-echo-hitl.yaml'', hitl_test_tool),
      (''hello-echo-throttle.yaml'', throttle_test_tool)]"

definition echo_policies :: "policy list" where
  "echo_policies = map snd echo_files"

lemmas echo_pack_defs = echo_policies_def echo_files_def no_dangerous_tool_def hitl_timeout_test_tool_def
  hitl_test_tool_def throttle_test_tool_def

lemma echo_policies_valid: "\<forall>p \<in> set echo_policies. effect_ok (pol_effect p)"
  by (simp add: echo_pack_defs)

lemma echo_pack_loads:
  assumes dir: "distinct (map fst dir)" "set dir = (\<lambda>(f, p). (f, txt p)) ` set echo_files"
    and parse: "\<forall>p \<in> set echo_policies. parse_policy (txt p) = Inr p"
  shows "load_policy_pack parse_policy parse_manifest path dir = Inr echo_policies"
proof -
  let ?fs = "map (\<lambda>(f, p). (f, txt p)) echo_files"
  have "policy_files dir = ?fs"
  proof (rule policy_files_listed [OF dir(1)])
    show "set dir = {} \<union> set ?fs" using dir(2) by simp
    show "MANIFEST_FILENAME \<notin> fst ` set ?fs" by (simp add: echo_files_def MANIFEST_FILENAME_def)
    show "sorted_wrt (<) (map fst ?fs)" by (simp add: echo_files_def)
  qed simp
  moreover have "map_of dir MANIFEST_FILENAME = None"
    by (auto simp: map_of_eq_None_iff dir(2) echo_files_def MANIFEST_FILENAME_def)
  then have "load_pack_manifest parse_manifest dir = Inr None" by (simp add: load_pack_manifest_def)
  moreover have "distinct (map pol_name echo_policies)" by (simp add: echo_pack_defs)
  ultimately show ?thesis
    using parse by (intro load_policy_pack_complete [where mf = None]) (auto simp: echo_policies_def list_all2_map1
        list_all2_map2 list_all2_same)
qed

section \<open>What the engine decides\<close>

definition echo_held :: "string \<Rightarrow> int \<Rightarrow> policy_decision" where
  "echo_held name timeout = \<lparr>pd_outcome = OHold, pd_fired_policy = Some name, pd_reason = Some ''hitl_required'',
     pd_reviewer_group = Some ''test-reviewers'', pd_timeout_seconds = Some timeout\<rparr>"

definition echo_verdict ::
    "(nat \<Rightarrow> rat) \<Rightarrow> string \<Rightarrow> string \<Rightarrow> string \<Rightarrow> limiter \<Rightarrow> policy_decision \<times> limiter" where
  "echo_verdict clock srv tool agent lm =
     (if srv \<noteq> ''hello-echo'' then (pass_decision, lm)
      else if tool = ''dangerous_tool'' then
        (decision ODeny (Some ''hello-echo-no-dangerous-tool'') ''dangerous_tool is denylisted for this local demo'', lm)
      else if tool = ''hitl_tool'' then (echo_held ''hello-echo-hitl-test-tool'' 30, lm)
      else if tool = ''hitl_timeout_tool'' then (echo_held ''hello-echo-hitl-timeout-test-tool'' 2, lm)
      else if tool = ''throttled_tool'' then
        (case check_and_increment clock (''hello-echo-throttle-test-tool'', agent) 1 60 lm of
           (ok, lm') \<Rightarrow>
             (if ok then pass_decision
              else decision ODeny (Some ''hello-echo-throttle-test-tool'') ''rate_limit_exceeded'', lm'))
      else (pass_decision, lm))"

lemma echo_compiled:
  "ps_policies (compiled echo_policies srv tool) =
     (if srv = ''hello-echo'' \<and> tool = ''dangerous_tool'' then [no_dangerous_tool]
      else if srv = ''hello-echo'' \<and> tool = ''hitl_timeout_tool'' then [hitl_timeout_test_tool]
      else if srv = ''hello-echo'' \<and> tool = ''hitl_tool'' then [hitl_test_tool]
      else if srv = ''hello-echo'' \<and> tool = ''throttled_tool'' then [throttle_test_tool]
      else [])"
  and echo_no_allowlist: "\<not> ps_server_has_allowlist (compiled echo_policies srv tool)"
  by (auto simp: compiled_def compile_fresh_def echo_pack_defs applies_matches_def
      compute_server_allowlist_flags_def)

lemma echo_pack_decides:
  "evaluate reg clock (compiled echo_policies srv tool) agent ctx lm =
    (case echo_verdict clock srv tool agent lm of (d, lm') \<Rightarrow> (Inr d, lm'))"
  by (auto simp: evaluate_def echo_compiled echo_no_allowlist echo_verdict_def echo_held_def no_dangerous_tool_def
      hitl_timeout_test_tool_def hitl_test_tool_def throttle_test_tool_def split: prod.splits)

text \<open>Within the window of an admitted call, the same agent's next call of the throttled tool is denied.\<close>

lemma throttled_once:
  assumes "echo_verdict clock ''hello-echo'' ''throttled_tool'' agent lm = (d, lm1)"
    and "map_of (rl_windows lm1) (''hello-echo-throttle-test-tool'', agent) = Some (n, opened)"
    and "case map_of (rl_windows lm) (''hello-echo-throttle-test-tool'', agent) of None \<Rightarrow> True | Some (k, s) \<Rightarrow> 0 \<le> k"
    and "clock (rl_reads lm1) - opened < 60"
  shows "fst (echo_verdict clock ''hello-echo'' ''throttled_tool'' agent lm1) =
    decision ODeny (Some ''hello-echo-throttle-test-tool'') ''rate_limit_exceeded''"
proof -
  have "1 \<le> n"
    using assms(1-3)
    by (auto simp: echo_verdict_def check_and_increment_def Let_def split: prod.splits option.splits if_splits)
  then have "\<not> fst (check_and_increment clock (''hello-echo-throttle-test-tool'', agent) 1 60 lm1)"
    using assms(2,4) by (simp add: check_and_increment_def Let_def)
  then show ?thesis by (auto simp: echo_verdict_def split: prod.splits)
qed

section \<open>At the endpoint\<close>

definition limiter_at :: "'s env \<Rightarrow> call \<Rightarrow> 's world \<Rightarrow> limiter" where
  "limiter_at E c w = sh_limiter (wd_shared (await E (snd (run_compile c w))))"

lemma echo_call_set:
  "engine_ok echo_policies (sh_engine (wd_shared w)) \<Longrightarrow>
    call_set c w = compiled echo_policies (cl_server c) (cl_tool c)"
  unfolding call_set_def by (rule compile_ok(1))

lemma echo_call_verdict:
  assumes "engine_ok echo_policies (sh_engine (wd_shared w))"
  shows "verdict E c w =
    Inr (fst (echo_verdict (ev_limiter_clock E) (cl_server c) (cl_tool c) (subject_of c) (limiter_at E c w)))"
  by (simp add: verdict_def echo_call_set [OF assms] run_evaluate_def Let_def case_prod_beta' echo_pack_decides
      limiter_at_def)

lemma echo_call_obeys:
  assumes eng: "engine_ok echo_policies (sh_engine (wd_shared w))" and h: "handle_tool_call E c w = (r, w')"
  shows "obeys (fst (echo_verdict (ev_limiter_clock E) (cl_server c) (cl_tool c) (subject_of c) (limiter_at E c w))) c w r w'"
  using call_obeys_decision [OF h] by (simp add: echo_call_verdict [OF eng] final_decision_def)

text \<open>
  The tools that answer \<open>should never be reached\<close> are the denylisted one, which is never called, and
  the one nobody approves, which is called only after an approval.
\<close>

lemma unreachable_tools:
  assumes eng: "engine_ok echo_policies (sh_engine (wd_shared w))" and h: "handle_tool_call E c w = (r, w')"
    and c: "cl_server c = ''hello-echo''" "map_of http_echo_tools (cl_tool c) = Some f"
    and body: "f [] = ''should never be reached'' @ rest"
  shows "cl_tool c = ''dangerous_tool'' \<and> sends w w' = [] \<or>
    cl_tool c = ''hitl_timeout_tool'' \<and> forwarded_after ''HELD'' c w w'"
proof -
  have t: "cl_tool c = ''dangerous_tool'' \<or> cl_tool c = ''hitl_timeout_tool''"
    using c(2) body
    by (auto simp: http_echo_tools_def echo_def throttled_tool_def hitl_tool_def echo_untrusted_def leaky_echo_def
        split: if_splits)
  then show ?thesis
    using echo_call_obeys [OF eng h] c(1)
    by (auto simp: echo_verdict_def obeys_def refused_with_def echo_held_def)
qed

text \<open>A call of an ungoverned tool is served, when database and upstream work.\<close>

lemma echo_call_served:
  assumes "engine_ok echo_policies (sh_engine (wd_shared w))" and "quiet_env E"
    and "table_ok (sh_table (wd_shared w))" and "cl_tool c \<in> {''echo'', ''echo_untrusted'', ''leaky_echo''}"
    and "\<And>n. ev_send E n (call_request c) = Inr up"
  shows "\<exists>intent ev compl w'. reaches (handle_tool_call E c) w (Replied (streamed up))
    [Wrote intent, Published ev, Sent (call_request c), Wrote compl] w'"
proof -
  have "verdict E c w = Inr pass_decision"
    using assms(4) by (auto simp: echo_call_verdict [OF assms(1)] echo_verdict_def)
  moreover have "\<not> has_response_side_policies (call_set c w)"
    using assms(4) by (auto simp: echo_call_set [OF assms(1)] echo_compiled has_response_side_policies_def)
  ultimately show ?thesis
    using handle_tool_call_passes [OF assms(2,3) _ _ _ assms(5), of pass_decision] by fastforce
qed

end
