(* ===== verification/InvestigatorSession.thy ===== *)
theory InvestigatorSession
  imports AmlInvestigator
begin

text \<open>
  The context manager around an investigation (\<open>InvestigationClient\<close> in \<open>gateway_client.py\<close>): one HTTP
  client, then for each route a transport and an MCP session, entered on an exit stack that the end of
  the block unwinds. What entering, initializing or leaving raises is the environment's choice.
\<close>

section \<open>Opening and closing\<close>

text \<open>A resource on the exit stack: the HTTP client with its Authorization header, a transport to a URL, a session.\<close>

datatype resource = HttpClient string | Transport string | McpSession string

datatype opening_step = Enter resource | Initialize string

record session_env =
  se_open :: "opening_step \<Rightarrow> exn option"
  se_close :: "resource \<Rightarrow> exn option"

text \<open>\<open>base_url.rstrip("/")\<close>\<close>

definition base_of :: "string \<Rightarrow> string" where
  "base_of gateway_base_url = rev (dropWhile (\<lambda>c. c = CHR ''/'') (rev gateway_base_url))"

definition ROUTES :: "string list" where
  "ROUTES = [TRANSACTION_GRAPH_ROUTE, OFAC_ROUTE]"

definition new_agent_id :: "string \<Rightarrow> string" where
  "new_agent_id uuid4 = ''investigation-'' @ uuid4"

definition opening_steps :: "string \<Rightarrow> string \<Rightarrow> opening_step list" where
  "opening_steps gateway_base_url agent_id =
     Enter (HttpClient (''Bearer '' @ agent_id)) #
     concat (map (\<lambda>route. [Enter (Transport (base_of gateway_base_url @ ''/mcp/'' @ route)),
       Enter (McpSession route), Initialize route]) ROUTES)"

text \<open>The exit stack, newest first, and the routes with an initialized session.\<close>

record exit_state =
  xs_stack :: "resource list"
  xs_sessions :: "string list"

fun open_step :: "opening_step \<Rightarrow> exit_state \<Rightarrow> exit_state" where
  "open_step (Enter r) x = x\<lparr>xs_stack := r # xs_stack x\<rparr>"
| "open_step (Initialize route) x = x\<lparr>xs_sessions := xs_sessions x @ [route]\<rparr>"

text \<open>\<open>__aenter__\<close>: the first exception ends it, with the stack as it is then.\<close>

fun aenter :: "session_env \<Rightarrow> opening_step list \<Rightarrow> exit_state \<Rightarrow> unit res \<times> exit_state" where
  "aenter E [] x = (Inr (), x)"
| "aenter E (s # ss) x = (case se_open E s of Some e \<Rightarrow> (Inl e, x) | None \<Rightarrow> aenter E ss (open_step s x))"

text \<open>\<open>aclose\<close>: every resource is left, also when leaving one raises; the last exception is raised.\<close>

fun aclose :: "session_env \<Rightarrow> resource list \<Rightarrow> exn option \<Rightarrow> exn option" where
  "aclose E [] pending = pending"
| "aclose E (r # rs) pending =
     aclose E rs (case se_close E r of Some e \<Rightarrow> Some e | None \<Rightarrow> pending)"

text \<open>
  \<open>async with InvestigationClient(url) as client\<close> around the block: its result, the world, and the
  resources entered and left. \<open>__aexit__\<close> runs only when \<open>__aenter__\<close> has returned.
\<close>

record 'a session_run =
  sr_result :: "'a res"
  sr_world :: inv_world
  sr_entered :: "resource list"
  sr_left :: "resource list"

definition with_client ::
    "session_env \<Rightarrow> string \<Rightarrow> string \<Rightarrow> 'a inv_act \<Rightarrow> inv_world \<Rightarrow> 'a session_run" where
  "with_client E gateway_url agent_id block w =
     (case aenter E (opening_steps gateway_url agent_id) \<lparr>xs_stack = [], xs_sessions = []\<rparr> of
        (Inl e, x) \<Rightarrow> \<lparr>sr_result = Inl e, sr_world = w, sr_entered = rev (xs_stack x), sr_left = []\<rparr>
      | (Inr _, x) \<Rightarrow>
          (case block w of (r, w') \<Rightarrow>
             \<lparr>sr_result = (case aclose E (xs_stack x) None of Some e \<Rightarrow> Inl e | None \<Rightarrow> r),
              sr_world = w', sr_entered = rev (xs_stack x), sr_left = xs_stack x\<rparr>))"

definition investigation_session ::
    "session_env \<Rightarrow> string \<Rightarrow> string \<Rightarrow> inv_env \<Rightarrow> alert \<Rightarrow> inv_world \<Rightarrow> investigation_state session_run" where
  "investigation_session S gateway_url uuid4 E al w =
     with_client S gateway_url (new_agent_id uuid4) (run_investigation E al) w"

section \<open>What is left open\<close>

fun entered :: "opening_step list \<Rightarrow> resource list" where
  "entered [] = []"
| "entered (Enter r # ss) = r # entered ss"
| "entered (Initialize route # ss) = entered ss"

fun initialized :: "opening_step list \<Rightarrow> string list" where
  "initialized [] = []"
| "initialized (Enter r # ss) = initialized ss"
| "initialized (Initialize route # ss) = route # initialized ss"

lemma aenter_opened:
  "aenter E ss x = (Inr u, x') \<Longrightarrow> xs_stack x' = rev (entered ss) @ xs_stack x \<and>
    xs_sessions x' = xs_sessions x @ initialized ss"
  by (induction ss arbitrary: x rule: entered.induct) (auto split: option.splits)

lemma aenter_failed:
  "aenter E ss x = (Inl e, x') \<Longrightarrow>
    \<exists>us s vs. ss = us @ s # vs \<and> se_open E s = Some e \<and> (\<forall>u \<in> set us. se_open E u = None) \<and>
      xs_stack x' = rev (entered us) @ xs_stack x"
proof (induction ss arbitrary: x)
  case (Cons s ss)
  show ?case
  proof (cases "se_open E s")
    case (Some f)
    then show ?thesis using Cons.prems by (intro exI [of _ "[]"] exI [of _ s] exI [of _ ss]) simp
  next
    case None
    then obtain us s' vs where "ss = us @ s' # vs" "se_open E s' = Some e" "\<forall>u \<in> set us. se_open E u = None"
      "xs_stack x' = rev (entered us) @ xs_stack (open_step s x)"
      using Cons by fastforce
    then show ?thesis
      using None by (intro exI [of _ "s # us"] exI [of _ s'] exI [of _ vs]) (cases s; simp)
  qed
qed simp

lemma opening_steps_parts:
  "entered (opening_steps url agent) =
    [HttpClient (''Bearer '' @ agent),
     Transport (base_of url @ ''/mcp/transaction-graph''), McpSession TRANSACTION_GRAPH_ROUTE,
     Transport (base_of url @ ''/mcp/ofac-sanctions''), McpSession OFAC_ROUTE]"
  "initialized (opening_steps url agent) = ROUTES"
  by (simp_all add: opening_steps_def ROUTES_def TRANSACTION_GRAPH_ROUTE_def OFAC_ROUTE_def)

text \<open>
  Once the client is open, the block runs with a session for every route, and everything entered is
  left again in reverse order, however the block ends and whatever leaving raises.
\<close>

lemma opened_is_closed:
  assumes "\<forall>s \<in> set (opening_steps url agent). se_open E s = None"
  shows "sr_entered (with_client E url agent block w) = entered (opening_steps url agent)"
    and "sr_left (with_client E url agent block w) = rev (entered (opening_steps url agent))"
    and "sr_world (with_client E url agent block w) = snd (block w)"
    and "(\<forall>r. se_close E r = None) \<Longrightarrow> sr_result (with_client E url agent block w) = fst (block w)"
proof -
  let ?x0 = "\<lparr>xs_stack = [], xs_sessions = []\<rparr>"
  obtain r x where a: "aenter E (opening_steps url agent) ?x0 = (r, x)" by fastforce
  have r: "r = Inr ()"
  proof (cases r)
    case (Inl e)
    then show ?thesis using aenter_failed [of E _ ?x0 e x] a assms by fastforce
  qed simp
  have "xs_stack x = rev (entered (opening_steps url agent))" using aenter_opened [of E _ ?x0] a r by simp
  moreover have "(\<forall>r. se_close E r = None) \<Longrightarrow> aclose E rs p = p" for rs p
    by (induction rs arbitrary: p) simp_all
  ultimately show "sr_entered (with_client E url agent block w) = entered (opening_steps url agent)"
    and "sr_left (with_client E url agent block w) = rev (entered (opening_steps url agent))"
    and "sr_world (with_client E url agent block w) = snd (block w)"
    and "(\<forall>r. se_close E r = None) \<Longrightarrow> sr_result (with_client E url agent block w) = fst (block w)"
    using a r by (simp_all add: with_client_def split: prod.split)
qed

text \<open>
  When opening fails after the first resource, \<open>async with\<close> does not call \<open>__aexit__\<close> and nothing else
  unwinds the stack: what was entered stays open.
\<close>

lemma failed_opening_leaks:
  assumes "opening_steps url agent = us @ s # vs" and "\<forall>u \<in> set us. se_open E u = None" and "se_open E s = Some e"
  shows "with_client E url agent block w =
    \<lparr>sr_result = Inl e, sr_world = w, sr_entered = entered us, sr_left = []\<rparr>"
proof -
  have "aenter E (us @ s # vs) x = (Inl e, foldl (\<lambda>x u. open_step u x) x us)" for x
    using assms(2,3) by (induction us arbitrary: x) auto
  moreover have "xs_stack (foldl (\<lambda>x u. open_step u x) x us) = rev (entered us) @ xs_stack x" for x
    by (induction us arbitrary: x rule: entered.induct) auto
  ultimately show ?thesis by (simp add: with_client_def assms(1))
qed

text \<open>So an unknown second route leaves the HTTP client and the whole first session open.\<close>

lemma second_route_leaks:
  assumes "\<And>s. se_open E s = (if s = Initialize OFAC_ROUTE then Some e else None)"
  shows "sr_left (investigation_session E url u IE al w) = []"
    and "sr_entered (investigation_session E url u IE al w) = entered (opening_steps url (new_agent_id u))"
proof -
  let ?us = "butlast (opening_steps url (new_agent_id u))"
  have steps: "opening_steps url (new_agent_id u) = ?us @ Initialize OFAC_ROUTE # []"
    and us: "\<forall>u \<in> set ?us. se_open E u = None"
    by (simp_all add: opening_steps_def ROUTES_def assms TRANSACTION_GRAPH_ROUTE_def OFAC_ROUTE_def)
  have "entered ?us = entered (opening_steps url (new_agent_id u))"
    by (simp add: opening_steps_def ROUTES_def)
  moreover have fault: "se_open E (Initialize OFAC_ROUTE) = Some e" by (simp add: assms)
  ultimately show "sr_left (investigation_session E url u IE al w) = []"
    and "sr_entered (investigation_session E url u IE al w) = entered (opening_steps url (new_agent_id u))"
    using failed_opening_leaks [OF steps us fault, where block = "run_investigation IE al"] by (simp_all add: investigation_session_def)
qed

end
