(* ===== verification/Connections.thy ===== *)
theory Connections
  imports Lifecycle "HOL-Library.Sublist"
begin

text \<open>
  What the processes need before they work: the tracing set-up inside \<open>create_app\<close>
  (\<open>observability/tracing.py\<close>, \<open>observability/metrics.py\<close>), the options the connections are opened with (\<open>audit/db.py\<close>,
  \<open>session/redis_client.py\<close>), the Java home the Spark jobs look for (\<open>analytics/spark_env.py\<close>) and the
  server the gateway process runs (\<open>gateway/__main__.py\<close>).
\<close>

section \<open>Tracing and metrics\<close>

text \<open>
  The steps of \<open>setup_tracing\<close> and \<open>setup_metrics\<close>, and the event tracing must not miss: the first ASGI event of the
  application, the start of its lifespan, at which the middleware stack is built and cached.
\<close>

datatype telemetry_step =
    NewProvider string | AddExporter string | SetGlobalProvider | InstrumentFastApi | InstrumentHttpx
  | InstrumentSqlAlchemy | NewMeterProvider string string int | SetGlobalMeterProvider

definition SERVICE_NAME :: string where
  "SERVICE_NAME = ''interpose-gateway''"

definition TRACER_NAME :: string where
  "TRACER_NAME = ''interpose.gateway''"

definition setup_tracing :: "string \<Rightarrow> telemetry_step list" where
  "setup_tracing otlp_endpoint =
     [NewProvider SERVICE_NAME, AddExporter otlp_endpoint, SetGlobalProvider, InstrumentFastApi, InstrumentHttpx]"

definition instrument_sqlalchemy_engine :: "telemetry_step list" where
  "instrument_sqlalchemy_engine = [InstrumentSqlAlchemy]"

definition EXPORT_INTERVAL_MILLIS :: int where
  "EXPORT_INTERVAL_MILLIS = 5000"

definition setup_metrics :: "string \<Rightarrow> telemetry_step list" where
  "setup_metrics otlp_endpoint =
     [NewMeterProvider SERVICE_NAME otlp_endpoint EXPORT_INTERVAL_MILLIS, SetGlobalMeterProvider]"

text \<open>The telemetry steps behind a step of the process life.\<close>

fun telemetry_of :: "lifecycle_step \<Rightarrow> telemetry_step list" where
  "telemetry_of (SetupTracing e) = setup_tracing e"
| "telemetry_of (SetupMetrics e) = setup_metrics e"
| "telemetry_of InstrumentEngine = instrument_sqlalchemy_engine"
| "telemetry_of s = []"

text \<open>Everything \<open>create_app\<close> does itself comes before the lifespan, which starts with the routing table.\<close>

definition before_lifespan :: "lifecycle_step list \<Rightarrow> lifecycle_step list" where
  "before_lifespan past = takeWhile (\<lambda>s. \<forall>p. s \<noteq> LoadRouting p) past"

lemma run_app_steps:
  assumes "run_app faults a st = (r, past)"
  obtains rest where "(create_app_steps st @ startup_steps a st) @ shutdown_steps st = past @ rest"
proof (cases "run_steps faults (create_app_steps st @ startup_steps a st)")
  case (Pair r1 past1)
  show ?thesis
  proof (cases r1)
    case (Inl e)
    then have "past = past1" using assms Pair by (simp add: run_app_def)
    moreover obtain rest where "create_app_steps st @ startup_steps a st = past1 @ rest"
      using run_steps_prefix [OF Pair] by blast
    ultimately show ?thesis using that [of "rest @ shutdown_steps st"] by simp
  next
    case (Inr u)
    then obtain r2 ended where "run_steps faults (shutdown_steps st) = (r2, ended)" "past = past1 @ ended"
      using assms Pair by (auto simp: run_app_def split: prod.splits)
    moreover have "past1 = create_app_steps st @ startup_steps a st" using Pair Inr by (intro run_steps_done) simp
    moreover obtain rest where "shutdown_steps st = ended @ rest"
      using run_steps_prefix [OF calculation(1)] by blast
    ultimately show ?thesis using that [of rest] by simp
  qed
qed

text \<open>
  FastAPI is instrumented before the lifespan or not at all, exactly when an endpoint is configured and
  \<open>create_app\<close> returned; the SQLAlchemy engine only inside the lifespan, when it exists.
\<close>

lemma fastapi_instrumented_in_time:
  assumes "run_app faults a st = (r, past)"
  shows "InstrumentFastApi \<in> set (concat (map telemetry_of past)) \<longleftrightarrow>
      InstrumentFastApi \<in> set (concat (map telemetry_of (before_lifespan past)))"
    and "InstrumentSqlAlchemy \<notin> set (concat (map telemetry_of (before_lifespan past)))"
proof -
  let ?late = "\<lambda>s. \<forall>e. s \<noteq> SetupTracing e"
  obtain rest where "(create_app_steps st @ startup_steps a st) @ shutdown_steps st = past @ rest"
    using run_app_steps [OF assms] .
  then have "prefix past (create_app_steps st @ startup_steps a st @ shutdown_steps st)" by (simp add: prefix_def)
  then consider "prefix past (create_app_steps st)"
    | tl where "past = create_app_steps st @ tl" "prefix tl (startup_steps a st @ shutdown_steps st)"
    by (auto simp: prefix_append)
  then have split: "\<exists>hd tl. past = hd @ tl \<and> before_lifespan past = hd \<and> list_all ?late tl \<and>
      set hd \<subseteq> set (create_app_steps st)"
  proof cases
    case 1
    then have s: "set past \<subseteq> set (create_app_steps st)" by (rule set_mono_prefix)
    then have "before_lifespan past = past"
      by (auto simp: before_lifespan_def create_app_steps_def takeWhile_eq_all_conv split: option.splits)
    then show ?thesis using s by (intro exI [of _ past] exI [of _ "[]"]) simp
  next
    case (2 tl)
    have "before_lifespan past = create_app_steps st"
      using 2 by (cases tl) (auto simp: before_lifespan_def create_app_steps_def startup_steps_def split: option.splits)
    moreover have "list_all ?late tl"
      using set_mono_prefix [OF 2(2)]
      by (auto simp: list_all_iff startup_steps_def shutdown_steps_def split: option.splits if_splits)
    ultimately show ?thesis using 2(1) by blast
  qed
  then obtain hd tl where p: "past = hd @ tl" "before_lifespan past = hd" "list_all ?late tl"
    "set hd \<subseteq> set (create_app_steps st)" by blast
  have "InstrumentFastApi \<notin> set (telemetry_of s)" if "?late s" for s
    using that by (cases s) (auto simp: instrument_sqlalchemy_engine_def setup_metrics_def)
  then show "InstrumentFastApi \<in> set (concat (map telemetry_of past)) \<longleftrightarrow>
      InstrumentFastApi \<in> set (concat (map telemetry_of (before_lifespan past)))"
    using p by (auto simp: list_all_iff)
  show "InstrumentSqlAlchemy \<notin> set (concat (map telemetry_of (before_lifespan past)))"
    using p(2,4) by (auto simp: create_app_steps_def setup_tracing_def split: option.splits)
qed

section \<open>Connections\<close>

record connection =
  cn_url :: string
  cn_decode_responses :: bool
  cn_async :: bool

definition create_async_redis :: "string \<Rightarrow> connection" where
  "create_async_redis redis_url = \<lparr>cn_url = redis_url, cn_decode_responses = True, cn_async = True\<rparr>"

definition create_sync_redis :: "string \<Rightarrow> connection" where
  "create_sync_redis redis_url = \<lparr>cn_url = redis_url, cn_decode_responses = True, cn_async = False\<rparr>"

record session_options =
  so_engine_url :: string
  so_expire_on_commit :: bool

definition create_engine :: "string \<Rightarrow> string" where
  "create_engine database_url = database_url"

definition create_session_factory :: "string \<Rightarrow> session_options" where
  "create_session_factory engine = \<lparr>so_engine_url = engine, so_expire_on_commit = False\<rparr>"

section \<open>The Java home of the Spark jobs\<close>

definition BREW_JDK17_HOME :: string where
  "BREW_JDK17_HOME = ''/opt/homebrew/opt/openjdk@17/libexec/openjdk.jdk/Contents/Home''"

text \<open>The environment of the process and the paths that exist.\<close>

definition ensure_java_home :: "(string \<Rightarrow> bool) \<Rightarrow> (string, string) dict \<Rightarrow> unit res \<times> (string, string) dict" where
  "ensure_java_home exists_path environ =
     (if ''JAVA_HOME'' \<in> fst ` set environ then (Inr (), environ)
      else if \<not> exists_path BREW_JDK17_HOME
      then (Inl (Exn RuntimeErr (''JAVA_HOME is not set and the expected Homebrew openjdk@17 install '' @
              ''was not found at '' @ BREW_JDK17_HOME @ ''. Install it with '' @
              ''`brew install openjdk@17`, or set JAVA_HOME yourself.'')), environ)
      else (Inr (), dict_set ''JAVA_HOME'' BREW_JDK17_HOME environ))"

lemma ensure_java_home_sets:
  assumes "ensure_java_home ex env = (Inr (), env')"
  shows "map_of env' ''JAVA_HOME'' \<noteq> None" and "map_of env ''JAVA_HOME'' \<noteq> None \<Longrightarrow> env' = env"
    and "ensure_java_home ex env' = (Inr (), env')"
proof -
  have m: "k \<in> fst ` set d \<longleftrightarrow> map_of d k \<noteq> None" for k and d :: "(string, string) dict"
    by (simp add: map_of_eq_None_iff)
  show "map_of env' ''JAVA_HOME'' \<noteq> None" and "map_of env ''JAVA_HOME'' \<noteq> None \<Longrightarrow> env' = env"
    and "ensure_java_home ex env' = (Inr (), env')"
    using assms unfolding ensure_java_home_def m by (auto split: if_splits)
qed

section \<open>The gateway process\<close>

record server_options =
  sv_app :: string
  sv_factory :: bool
  sv_host :: string
  sv_port :: int

definition gateway_main :: "settings \<Rightarrow> server_options" where
  "gateway_main st = \<lparr>sv_app = ''interpose.gateway.app:create_app'', sv_factory = True,
     sv_host = st_gateway_host st, sv_port = st_gateway_port st\<rparr>"

end
