(* ===== verification/SparkJobs.thy ===== *)
theory SparkJobs
  imports Connections Subsample AggregationProps
begin

text \<open>
  The main programs of the three Spark jobs (\<open>analytics/subsample_aml.py\<close>,
  \<open>generate_synthetic_telemetry.py\<close>, \<open>aggregate_telemetry.py\<close>) around the work modelled in \<open>Subsample\<close>,
  \<open>Telemetry\<close> and \<open>Aggregation\<close>: each needs a Java home, opens one session, and stops it in a \<open>finally\<close>
  block; and the way of the generated calls through the Parquet files to the dashboards.
\<close>

section \<open>Sessions\<close>

record session_config =
  sc_app_name :: string
  sc_master :: string
  sc_options :: "(string, string) dict"

definition session_config_of :: "string \<Rightarrow> string \<Rightarrow> session_config" where
  "session_config_of app_name partitions =
     \<lparr>sc_app_name = app_name, sc_master = ''local[*]'',
      sc_options = [(''spark.driver.memory'', ''6g''), (''spark.sql.shuffle.partitions'', partitions)]\<rparr>"

definition subsample_session :: session_config where
  "subsample_session = session_config_of ''interpose-aml-subsample'' ''16''"

definition generate_session :: session_config where
  "generate_session = session_config_of ''interpose-synthetic-telemetry'' ''64''"

definition aggregate_session :: session_config where
  "aggregate_session = session_config_of ''interpose-aggregate-telemetry'' ''32''"

datatype session_event = Started session_config | Stopped

text \<open>The process a job runs in: its environment variables and what it did to the Spark session.\<close>

record job_process =
  jp_environ :: "(string, string) dict"
  jp_sessions :: "session_event list"

text \<open>
  \<open>build_spark()\<close>, then the work in \<open>try\<close> with \<open>spark.stop()\<close> in \<open>finally\<close>. \<open>opened\<close> is the exception the
  session raises when it is built, if any.
\<close>

definition build_spark ::
    "(string \<Rightarrow> bool) \<Rightarrow> exn option \<Rightarrow> session_config \<Rightarrow> job_process \<Rightarrow> unit res \<times> job_process" where
  "build_spark exists_path opened config p =
     (case ensure_java_home exists_path (jp_environ p) of
        (Inl e, environ) \<Rightarrow> (Inl e, p\<lparr>jp_environ := environ\<rparr>)
      | (Inr _, environ) \<Rightarrow>
          (case opened of
             Some e \<Rightarrow> (Inl e, p\<lparr>jp_environ := environ\<rparr>)
           | None \<Rightarrow> (Inr (), \<lparr>jp_environ = environ, jp_sessions = jp_sessions p @ [Started config]\<rparr>)))"

text \<open>\<open>before_try\<close> is the exception of a statement between the two, if any: then nothing is stopped.\<close>

definition run_job ::
    "(string \<Rightarrow> bool) \<Rightarrow> exn option \<Rightarrow> exn option \<Rightarrow> session_config \<Rightarrow> ('w \<Rightarrow> unit res \<times> 'w) \<Rightarrow> job_process \<Rightarrow> 'w \<Rightarrow>
     unit res \<times> job_process \<times> 'w" where
  "run_job exists_path opened before_try config work p w =
     (case build_spark exists_path opened config p of
        (Inl e, p') \<Rightarrow> (Inl e, p', w)
      | (Inr _, p') \<Rightarrow>
          (case before_try of
             Some e \<Rightarrow> (Inl e, p', w)
           | None \<Rightarrow> (case work w of (r, w') \<Rightarrow> (r, p'\<lparr>jp_sessions := jp_sessions p' @ [Stopped]\<rparr>, w'))))"

section \<open>The jobs\<close>

definition subsample_main ::
    "(string \<Rightarrow> bool) \<Rightarrow> exn option \<Rightarrow> spark \<Rightarrow> raw_txn list \<Rightarrow> string list \<Rightarrow> raw_account list \<Rightarrow> job_process \<Rightarrow>
     out_dir \<Rightarrow> unit res \<times> job_process \<times> out_dir" where
  "subsample_main ex opened S trans_csv patterns_txt accounts_csv =
     run_job ex opened None subsample_session (run_subsample S trans_csv patterns_txt accounts_csv)"

type_synonym telemetry_files = "(int \<times> telemetry_row) list"

definition generate_main ::
    "(string \<Rightarrow> bool) \<Rightarrow> exn option \<Rightarrow> column_fns \<Rightarrow> (int \<Rightarrow> int) \<Rightarrow> job_process \<Rightarrow> telemetry_files \<Rightarrow>
     unit res \<times> job_process \<times> telemetry_files" where
  "generate_main ex opened C to_date =
     run_job ex opened None generate_session (\<lambda>files. (Inr (), write_parquet to_date (generated_rows C) files))"

text \<open>\<open>spark.read.parquet\<close>: the rows of all files, in the order \<open>scan\<close> Spark reads them in.\<close>

definition load_raw :: "(telemetry_files \<Rightarrow> telemetry_files) \<Rightarrow> telemetry_files \<Rightarrow> telemetry_row list" where
  "load_raw scan files = map snd (scan files)"

text \<open>The aggregation reads the settings after it has opened its session and before \<open>try\<close>.\<close>

definition aggregate_main ::
    "(string \<Rightarrow> bool) \<Rightarrow> exn option \<Rightarrow> settings res \<Rightarrow> session_fns \<Rightarrow> (telemetry_files \<Rightarrow> telemetry_files) \<Rightarrow> telemetry_files \<Rightarrow> job_process \<Rightarrow>
     database \<Rightarrow> unit res \<times> job_process \<times> database" where
  "aggregate_main ex opened get_settings F scan files =
     run_job ex opened (case get_settings of Inl e \<Rightarrow> Some e | Inr _ \<Rightarrow> None) aggregate_session
       (run_aggregation F (load_raw scan files))"

section \<open>What they guarantee\<close>

text \<open>
  A session that was opened is stopped, whatever the work does, and without one no work is done; but one
  whose job fails before \<open>try\<close> stays open.
\<close>

lemma run_job_sessions:
  assumes "run_job ex opened before_try config work p w = (r, p', w')"
  shows "jp_sessions p' = jp_sessions p \<and> w' = w \<and> (\<exists>e. r = Inl e) \<or>
    jp_sessions p' = jp_sessions p @ [Started config] \<and> w' = w \<and> (\<exists>e. r = Inl e \<and> before_try = Some e) \<or>
    jp_sessions p' = jp_sessions p @ [Started config, Stopped] \<and> work w = (r, w')"
  using assms by (auto simp: run_job_def build_spark_def split: prod.splits sum.splits option.splits)

text \<open>The only exceptions of the set-up are the missing Java home and those of the session itself.\<close>

lemma job_not_started:
  assumes "run_job ex opened before_try config work p w = (Inl e, p', w')" and "jp_sessions p' = jp_sessions p"
  shows "opened = Some e \<or> exn_kind e = RuntimeErr \<and> map_of (jp_environ p) ''JAVA_HOME'' = None \<and> \<not> ex BREW_JDK17_HOME"
  using assms
  by (auto simp: run_job_def build_spark_def ensure_java_home_def map_of_eq_None_iff
      split: prod.splits sum.splits option.splits if_splits)

text \<open>
  From the generator through the files to the dashboards: whatever the old files and the order they
  are read in, the hourly table counts every generated call once, and every upstream error.
\<close>

lemma generated_calls_reach_the_dashboard:
  assumes scan: "\<And>xs. mset (scan xs) = mset xs"
    and gen: "generate_main ex None C to_date p old = (Inr (), p', files)"
  shows "column_sum ''call_count'' (aggregate_telemetry_hourly F (load_raw scan files)) = int (length (generated_rows C))"
    and "column_sum ''error_count'' (aggregate_telemetry_hourly F (load_raw scan files)) =
      int (length (filter (\<lambda>r. tl_status r = ''UPSTREAM_ERROR'') (generated_rows C)))"
proof -
  have files: "files = write_parquet to_date (generated_rows C) old"
    using gen by (auto simp: generate_main_def run_job_def split: prod.splits sum.splits)
  have m: "mset (load_raw scan files) = mset (generated_rows C)"
    unfolding load_raw_def mset_map scan by (simp add: files write_parquet_def multiset.map_comp comp_def flip: mset_map)
  show "column_sum ''call_count'' (aggregate_telemetry_hourly F (load_raw scan files)) = int (length (generated_rows C))"
    using mset_eq_length [OF m] by (simp add: hourly_calls)
  have "length (filter P (load_raw scan files)) = length (filter P (generated_rows C))" for P
    by (metis m mset_filter size_mset)
  then show "column_sum ''error_count'' (aggregate_telemetry_hourly F (load_raw scan files)) =
      int (length (filter (\<lambda>r. tl_status r = ''UPSTREAM_ERROR'') (generated_rows C)))"
    by (simp add: hourly_errors)
qed

end
