(* ===== verification/Spec2Isabelle.thy ===== *)
theory Spec2Isabelle
  imports PyJsonProps PackLoader SampleControl SampleServers ReviewCli AggregationProps SampleAnalytics MigrationsProps Lifecycle Services EventBus AmlPack SampleAml EchoPack InvestigatorSession SparkJobs
begin

text \<open>
  Interpose is a governing proxy between agents and MCP servers. An agent posts JSON-RPC to
  \<open>/mcp/<server>\<close>; the gateway picks out tool calls, compiles the policies that apply, evaluates them
  to PASS, DENY or HOLD, writes the decision to a hash-chained audit table before anything is
  forwarded, announces it on an event bus, waits for a reviewer on a HOLD, forwards, filters the
  response, and writes the outcome. A control plane consumes the events in the background and
  records risk scores, anomalies, review packets and incidents. Two MCP servers (a transaction graph
  and a sanctions list) and an investigator agent form the AML demonstration around it.

  \<^bold>\<open>Theories and code.\<close> Paths are relative to \<open>src/src/interpose\<close> unless they start with \<open>src/\<close>.

  \<^item> \<open>Prelude\<close>, \<open>PyText\<close>, \<open>PyJson\<close>, \<open>PyJsonProps\<close>, \<open>PyRegex\<close>, \<open>PyCsv\<close>, \<open>Sha256\<close>, \<open>TimeArith\<close>: what the code uses
    of Python: exceptions as values, dictionaries with insertion order, \<open>repr\<close>, \<open>int\<close>, \<open>json\<close>, \<open>re\<close>,
    \<open>csv\<close>, \<open>hashlib.sha256\<close> on 32-bit words, instants of aware datetimes.
  \<^item> \<open>Interfaces\<close>: the contracts that recur, as locales, each interpreted where its provider is modelled:
    codecs (integers \<open>int_text\<close>, JSON texts \<open>js\<close> and \<open>cj\<close>, message bodies \<open>mb\<close>, tickets \<open>tk\<close>), memo tables (the compile
    cache \<open>pc\<close>, the instruments \<open>gi\<close>), append-only logs (the audit table \<open>al\<close>), queues (the event bus \<open>eb\<close>) and
    scrubbers (redaction of texts \<open>rt\<close> and of JSON values \<open>rj\<close>).
  \<^item> \<open>PolicySchema\<close>, \<open>PackLoader\<close>, \<open>Redaction\<close>, \<open>CustomPolicies\<close>, \<open>PolicySet\<close>: \<open>policies/schema.py\<close>, \<open>loader.py\<close>,
    \<open>redaction.py\<close>, \<open>custom.py\<close> with \<open>packs/aml.py\<close> and \<open>packs/demo.py\<close>, and \<open>policyset.py\<close> (rate limiter,
    evaluation of requests and responses, the compile cache). \<open>PolicySetProps\<close>: their properties.
  \<^item> \<open>AuditChain\<close>, \<open>AuditStore\<close>: \<open>audit/chain.py\<close>, \<open>models.py\<close>, \<open>store.py\<close>. \<open>HashChain\<close> is a locale of hash chains,
    interpreted in \<open>AuditVerify\<close> on the audit rows (\<open>ac\<close>); \<open>AuditVerify\<close> has what verification protects.
  \<^item> \<open>RedisIface\<close>, \<open>HitlQueue\<close>, \<open>HitlProps\<close>: \<open>session/hitl.py\<close> over a Redis with documented laws.
  \<^item> \<open>GatewayBase\<close>, \<open>Gateway\<close>, \<open>McpBody\<close>: \<open>gateway/app.py\<close> and \<open>routing.py\<close>, \<open>control_plane/bus.py\<close>,
    \<open>observability/metrics.py\<close>. The handlers are actions over a world: the shared state (engine, limiter,
    table, Redis, bus) and the trace of effects so far, a history variable. \<open>TraceMachine\<close> is a locale of
    state machines over effects; \<open>CallProtocol\<close> is the abstract protocol of a call, an inductive step
    relation the handlers refine; \<open>CallSafety\<close> has its invariants by rule induction, \<open>CallIdentity\<close>
    what the effects are about, \<open>GatewayInv\<close> the invariants of the shared state under interference,
    \<open>GatewayProps\<close>, \<open>CallVerdict\<close> and \<open>ResponseStage\<close> the endpoint, \<open>CallRuns\<close> that calls are served.
  \<^item> \<open>ResAction\<close>, \<open>ControlPlane\<close>, \<open>ControlPlaneProps\<close>, \<open>ControlPlaneScores\<close>: \<open>control_plane/state.py\<close>, \<open>models.py\<close>,
    the five agents, \<open>graph.py\<close> and \<open>runner.py\<close>. \<open>LlmClient\<close>: \<open>control_plane/llm.py\<close>.
    \<open>EventBus\<close>: \<open>control_plane/bus.py\<close> with its publishers and its one consumer, an inductive step relation.
  \<^item> \<open>AmlPack\<close>: the AML policy pack of \<open>src/policies/packs/aml\<close>, what the engine and the endpoint do under it,
    and the investigator under it. \<open>EchoPack\<close>: the same for the policies of \<open>src/config/policies\<close> and the tools of
    \<open>src/examples/hello-mcp-http-echo/server.py\<close>. \<open>DemoCommand\<close>: \<open>cli/demo.py\<close> and the main program of the investigator.
  \<^item> \<open>Lifecycle\<close>: \<open>config.py\<close>, \<open>create_app\<close>, the lifespan and the probes of \<open>gateway/app.py\<close>, the instruments of
    \<open>observability/metrics.py\<close>. \<open>Connections\<close>: \<open>observability/tracing.py\<close>, the set-up of \<open>metrics.py\<close>, \<open>audit/db.py\<close>,
    \<open>session/redis_client.py\<close>, \<open>analytics/spark_env.py\<close>, \<open>gateway/__main__.py\<close>. \<open>Services\<close>: the lifespans and the
    tool dispatch of the two servers, \<open>src/scripts/run_eval_report.py\<close>.
  \<^item> \<open>Migrations\<close>, \<open>MigrationsProps\<close>: \<open>src/alembic/versions\<close> and \<open>run_migrations_*\<close> of \<open>src/alembic/env.py\<close>, as
    operations on a catalogue of tables, columns, constraints and indexes.
  \<^item> \<open>ReviewCli\<close>: \<open>cli/main.py\<close> and \<open>cli/_audit_query.py\<close>.
  \<^item> \<open>TransactionGraph\<close>, \<open>TransactionGraphProps\<close>: \<open>src/mcp-servers/transaction-graph/src\<close>. \<open>OfacSanctions\<close>,
    \<open>OfacProps\<close>: \<open>src/mcp-servers/ofac-sanctions/src\<close>. \<open>AmlInvestigator\<close>: \<open>src/agents/aml-investigator\<close>, and
    \<open>InvestigatorSession\<close> the opening and closing of its sessions.
  \<^item> \<open>Subsample\<close>: \<open>analytics/subsample_aml.py\<close>. \<open>Telemetry\<close>, \<open>TelemetryProps\<close>: \<open>analytics/generate_synthetic_telemetry.py\<close>.
    \<open>Aggregation\<close>, \<open>AggregationProps\<close>: \<open>analytics/aggregate_telemetry.py\<close>, \<open>models.py\<close> and
    \<open>load_synthetic_telemetry.py\<close>. A data frame is a list of rows, a \<open>groupBy\<close> the list of its groups.
    \<open>SparkJobs\<close>: the main programs of these three and their Spark sessions.
  \<^item> \<open>Samples\<close>, \<open>SampleCalls\<close>, \<open>SampleControl\<close>, \<open>SampleServers\<close>, \<open>SampleAnalytics\<close>, \<open>SampleAml\<close>: the inputs at which the properties below are
    applied, with Redis, the matcher and the model of each service instantiated by functions.

  \<^bold>\<open>Modelling choices.\<close>

  \<^item> Strings are lists of code points below 256; bytes are characters. UUIDs are strings. Floats are
    their printed text in JSON, rational numbers in clocks and amounts, real numbers in the scores
    of the control plane, so rounding is not modelled. Python integers are \<open>int\<close>.
  \<^item> Exceptions are values of \<open>exn\<close> (a kind and a text); a result is \<open>exn + 'a\<close>. The texts of exceptions
    raised inside libraries are abbreviated.
  \<^item> The audit table is a list of rows and an id sequence; a write is one transaction, so writers
    interleave between writes only. JSONB columns give back the value stored.
  \<^item> Everything outside the code is a field of an environment: clocks, fresh ids, database faults,
    the upstream, the parser of the MCP library, the language model. Readings are indexed by a step
    counter of the world, so no two need agree. At every await of the gateway other tasks may change
    the shared state; \<open>others_ok\<close> says they keep to the bounds the theorems give for one task.
    Policy evaluation is atomic, over the table as it was when evaluation began.
  \<^item> The poll loop of a hold has fuel; \<open>wait_for_decision_ends\<close> shows that one more round than the
    number of poll intervals in the timeout suffices. JSON parsing has the length of its input as
    fuel, and the round-trip lemma shows it to be enough. The control-plane graph has LangGraph's
    recursion limit of 25; \<open>graph_ends_within_four_agents\<close> shows that four steps suffice.
  \<^item> A prompt of the language model is replaced by the data it is made of. The order in which
    DuckDB returns groups is a parameter; so is the fuzzy matcher, assumed to answer with one of the
    names it is given, and so are Spark's casts, draws, hashes, percentiles and time zone.

  \<^bold>\<open>What the properties show.\<close> A call is forwarded only after its decision was written and announced, at
  most once, and an approval precedes a held one; every call is handled as it was decided, so denials and engine failures never reach the
  upstream; a tool outside an allowlist is denied; replies of the buffered stage hold no PII of
  the configured kinds; the audit table stays an intact chain under interference, and two logs with
  the same last digest agree unless SHA-256 collides. Policy evaluation, the rate limiter, the cache,
  the loader and redaction meet their specifications. Tickets survive Redis, a decision is applied
  once, but two concurrent decisions overwrite each other. The control plane follows the decision,
  ends, isolates failures and never meets the guards of its evidence composer; its z-score test is an
  integer inequality. The servers' queries compute distances, the largest edges, justified flags and
  complete screenings; the investigator screens before it reads. Under the AML pack the endpoint forwards no call of the
  transaction graph before a screening and no write before an approval, and the investigator is
  never denied; the exit codes of the review
  commands are their verdicts. The subsampling keeps every laundering transaction; the dashboards account
  for every generated call, and refreshing them is atomic per table, idempotent and confined to
  the synthetic rows. The migrations build the tables the models declare, and downgrading takes back
  what upgrading did. Events leave the bus in the order they entered, each is processed once, and a
  waiting event can always be consumed. The theorems after the properties are further facts about the same code.

  \<^bold>\<open>Not modelled.\<close> What Redis, the database and OpenTelemetry do with a connection, the connection
  set-up of \<open>src/alembic/env.py\<close>, reading YAML and validating it with pydantic, what Spark does inside a session,
  the stdio example and its client, the dashboard, and the parsing of parameters by the MCP servers'
  framework: they hold no decision of the system's own, or act on external data. Argument widths
  of the database (overflow of its interval arithmetic, field size limits of \<open>csv\<close>) are left out.
\<close>

text \<open>
  C1: Complete mediation. In every run of a tool call, whatever the other tasks and the
  environment do, a request reaches the upstream only after exactly one row and one decision
  event of this call, the event naming the row, and that row is an INTENT row or a HELD row
  whose ticket was approved. The request is the client's own, and nothing was sent before it.
\<close>

theorem sent_only_after_clearance:
  assumes run: "handle_tool_call E c w = (r, w')" and tr: "wd_trace w' = wd_trace w @ us @ Sent req # vs"
  shows "req = call_request c \<and> sent_of us = [] \<and>
    (\<exists>e ev. rows_of us = [e] \<and> events_of us = [ev] \<and> de_audit_id ev = ae_id e \<and> ae_parent_id e = None \<and>
       (ae_status e = ''INTENT'' \<or> ae_status e = ''HELD'' \<and> approved_in us))"
proof -
  obtain i where i: "cleared i us" "sent_of us = []" using handle_tool_call_mediated [OF run tr] by blast
  obtain t where "\<forall>x \<in> set (us @ Sent req # vs). about c t x" using handle_tool_call_about [OF run tr] by blast
  then have "req = call_request c" by simp
  with i show ?thesis by (auto simp: trace_defs)
qed

theorem sent_only_after_clearance_witness:
  "\<exists>us. sent_of us = [] \<and>
    (\<exists>e ev. rows_of us = [e] \<and> events_of us = [ev] \<and> de_audit_id ev = ae_id e \<and> ae_parent_id e = None \<and>
       (ae_status e = ''INTENT'' \<or> ae_status e = ''HELD'' \<and> approved_in us))"
proof -
  obtain us vs w' where run: "handle_tool_call sample_env sample_call (sample_world []) =
      (Inr (Replied (streamed sample_up)), w')"
    and tr: "wd_trace w' = us @ Sent (call_request sample_call) # vs"
    by (rule sample_pass_sent)
  from tr have "wd_trace w' = wd_trace (sample_world []) @ us @ Sent (call_request sample_call) # vs" by simp
  from sent_only_after_clearance [OF run this] show ?thesis by blast
qed

text \<open>
  C2: Two audit logs that \<open>verify_chain\<close> accepts and that end in the same digest have
  the same contents, row by row (ids aside, JSON columns up to key order), unless two
  rows exhibit a SHA-256 collision or a row's digest is the genesis value.
\<close>

theorem verified_logs_with_same_tip_agree:
  assumes "audit_valid es" and "audit_valid fs"
    and "audit_tip GENESIS_HASH es = audit_tip GENESIS_HASH fs"
    and "\<forall>e \<in> set es. entry_ok fr e" and "\<forall>f \<in> set fs. entry_ok fr f"
  shows "map entry_content es = map entry_content fs \<or>
    (\<exists>e \<in> set es. \<exists>f \<in> set fs. sha_clash (ae_prev_hash e) e (ae_prev_hash f) f) \<or>
    (\<exists>e \<in> set es \<union> set fs. ae_this_hash e = GENESIS_HASH)"
  using assms by (rule audit_same_tip)

theorem verified_logs_with_same_tip_agree_witness:
  "map entry_content [sample_row] = map entry_content [sample_row\<lparr>ae_id := 7\<rparr>] \<or>
    (\<exists>e \<in> set [sample_row]. \<exists>f \<in> set [sample_row\<lparr>ae_id := 7\<rparr>].
       sha_clash (ae_prev_hash e) e (ae_prev_hash f) f) \<or>
    (\<exists>e \<in> set [sample_row] \<union> set [sample_row\<lparr>ae_id := 7\<rparr>]. ae_this_hash e = GENESIS_HASH)"
  by (rule verified_logs_with_same_tip_agree [where fr = "\<lambda>t. t"])
    (simp_all add: sample_row_valid sample_row_ok sample_row_renumbered)



text \<open>
  C4: Every tool call that is answered leaves one of three trails: one DENIED row, announced, and
  nothing sent; a HELD row and a DENIED row that names it as its parent, and nothing sent; or an
  INTENT row, or an approved HELD row, and one COMPLETED or UPSTREAM_ERROR row with it as its
  parent, around exactly one request sent. The handlers refine the abstract protocol of a call.
\<close>

theorem answered_call_leaves_a_trail:
  assumes "handle_tool_call E c w = (Inr (Replied x), w')" and "wd_trace w' = wd_trace w @ tr"
  shows "ended_denied tr \<or> ended_refused tr \<or> ended_forwarded tr"
  using assms by (rule handle_tool_call_trail)

theorem answered_call_leaves_a_trail_witness:
  "\<exists>x w'. handle_tool_call sample_env sample_call (sample_world []) = (Inr (Replied x), w') \<and>
     (ended_denied (wd_trace w') \<or> ended_refused (wd_trace w') \<or> ended_forwarded (wd_trace w'))"
proof -
  obtain intent ev compl w' where run: "handle_tool_call sample_env sample_call (sample_world []) =
      (Inr (Replied (streamed sample_up)), w')"
    by (rule sample_pass_run)
  have "wd_trace w' = wd_trace (sample_world []) @ wd_trace w'" by simp
  from answered_call_leaves_a_trail [OF run this] run show ?thesis by blast
qed

text \<open>
  C5: The decision is what happens. A call whose evaluation denies it, or raises any exception at all (an
  unknown custom policy, a database failure in one, an unsupported cost cap), is not sent to the
  upstream, and the only reply it can get is the policy-denied error, with the reason
  \<open>policy_engine_error\<close> in the second case; a held call is sent only when the one row before it is HELD
  and a reviewer has approved; a passed call only when the one row before it is its INTENT.
\<close>

theorem decision_is_final:
  assumes "handle_tool_call E c w = (r, w')"
  shows "let d = (case verdict E c w of Inl e \<Rightarrow> decision ODeny None ''policy_engine_error'' | Inr d \<Rightarrow> d) in
    (case pd_outcome d of
       ODeny \<Rightarrow> sends w w' = [] \<and> replies (\<lambda>x. x = Replied (policy_denied_response (cl_rpc_id c) d)) r
     | OHold \<Rightarrow> forwarded_after ''HELD'' c w w'
     | OPass \<Rightarrow> forwarded_after ''INTENT'' c w w')"
  using call_obeys_decision [OF assms] unfolding obeys_def final_decision_def refused_with_def Let_def .

theorem decision_is_final_witness:
  "sends (sample_world [sample_policy ''cap'' ''echo'' (CostCapEffect 1 1)])
      (snd (handle_tool_call sample_env sample_call (sample_world [sample_policy ''cap'' ''echo'' (CostCapEffect 1 1)]))) = []"
proof -
  let ?w = "sample_world [sample_policy ''cap'' ''echo'' (CostCapEffect 1 1)]"
  have set: "call_set sample_call ?w = \<lparr>ps_policies = [sample_policy ''cap'' ''echo'' (CostCapEffect 1 1)],
      ps_server_has_allowlist = False\<rparr>"
    by (simp add: call_set_def compile_def new_engine_def compile_fresh_def
        compute_server_allowlist_flags_def Let_def applies_matches_def)
  have d: "\<exists>e. verdict sample_env sample_call ?w = Inl e"
    unfolding verdict_def set
    by (simp add: run_evaluate_def Let_def case_prod_beta' evaluate_def)
  obtain r w' where h: "handle_tool_call sample_env sample_call ?w = (r, w')" by (rule prod.exhaust)
  from decision_is_final [OF h] d h show ?thesis by auto
qed

text \<open>
  C6: Default deny at the endpoint. On a server for which some allowlist policy is loaded, a call of
  a tool that no allowlist policy covers is never forwarded, whatever other policies are loaded,
  whatever the cache and limiter hold, and is answered with \<open>not_on_allowlist\<close>.
\<close>

theorem unlisted_tool_denied:
  assumes "engine_ok policies (sh_engine (wd_shared w))"
    and "\<exists>p \<in> set policies. is_allowlist (pol_effect p) \<and> at_server (pol_applies p) = cl_server c"
    and "\<forall>p \<in> set policies. is_allowlist (pol_effect p) \<longrightarrow>
      \<not> applies_matches (pol_applies p) (cl_server c) (cl_tool c)"
    and "handle_tool_call E c w = (r, w')"
  shows "sends w w' = [] \<and>
    replies (\<lambda>x. x = Replied (policy_denied_response (cl_rpc_id c) (decision ODeny None ''not_on_allowlist''))) r"
  using denied_call [OF denied_by_default [OF assms(1,2,3)] assms(4)] by simp

theorem unlisted_tool_denied_witness:
  "sends (sample_world [sample_policy ''allow-add'' ''add'' AllowlistEffect])
      (snd (handle_tool_call sample_env sample_call (sample_world [sample_policy ''allow-add'' ''add'' AllowlistEffect]))) = []"
proof -
  let ?ps = "[sample_policy ''allow-add'' ''add'' AllowlistEffect]"
  have eng: "engine_ok ?ps (sh_engine (wd_shared (sample_world ?ps)))" by (simp add: engine_ok_new)
  have allow: "\<exists>p \<in> set ?ps. is_allowlist (pol_effect p) \<and> at_server (pol_applies p) = cl_server sample_call"
    by simp
  have unlisted: "\<forall>p \<in> set ?ps. is_allowlist (pol_effect p) \<longrightarrow>
      \<not> applies_matches (pol_applies p) (cl_server sample_call) (cl_tool sample_call)"
    by (simp add: applies_matches_def)
  obtain r w' where h: "handle_tool_call sample_env sample_call (sample_world ?ps) = (r, w')" by (rule prod.exhaust)
  from unlisted_tool_denied [OF eng allow unlisted h] h show ?thesis by simp
qed

text \<open>
  C7: The AML procedure is enforced at the endpoint. Under the pack, a call of a gated
  transaction-graph tool by an agent that no audit row shows as screened is answered with the
  denial of \<open>aml-sanctions-required\<close> and not forwarded, nor is it when the table cannot be read. From a
  screened agent, \<open>mark_investigated\<close> is forwarded only after a HELD row and an approval, any other
  of these calls only after its INTENT row.
\<close>

theorem aml_procedure_enforced:
  assumes "engine_ok aml_policies (sh_engine (wd_shared w))"
    and "REQUEST_POLICIES = Inr (ev_request_policies E)"
    and "cl_server c = ''transaction-graph''"
    and "cl_tool c \<in> {''query_transactions'', ''neighbors'', ''subgraph'', ''structuring_check'', ''mark_investigated''}"
    and "handle_tool_call E c w = (r, w')"
  shows "case rows_seen E c w of
      Inl e \<Rightarrow> refused_with (decision ODeny None ''policy_engine_error'') c w r w'
    | Inr rows \<Rightarrow>
        if \<not> screened (subject_of c) rows then refused_with unscreened c w r w'
        else forwarded_after (if cl_tool c = ''mark_investigated'' then ''HELD'' else ''INTENT'') c w w'"
  using assms(4) by (intro aml_graph_call [OF assms(1,2,3) _ assms(5)]) (simp add: aml_gated_tools_def)

theorem aml_procedure_enforced_witness:
  "sends (sample_world aml_policies)
      (snd (handle_tool_call sample_env (sample_graph_call ''mark_investigated'') (sample_world aml_policies))) = []"
proof -
  let ?c = "sample_graph_call ''mark_investigated''" and ?w = "sample_world aml_policies"
  have eng: "engine_ok aml_policies (sh_engine (wd_shared ?w))" by (simp add: engine_ok_new)
  have gated: "cl_tool ?c \<in> {''query_transactions'', ''neighbors'', ''subgraph'', ''structuring_check'', ''mark_investigated''}"
    by simp
  obtain r w' where h: "handle_tool_call sample_env ?c ?w = (r, w')" by (rule prod.exhaust)
  from aml_procedure_enforced [OF eng sample_registry sample_graph_call_simps(1) gated h] h show ?thesis
    by (simp add: sample_unscreened screened_def refused_with_def)
qed

text \<open>
  C8: A call that policy passes is served: with a database and an upstream that work and no
  response-side policy, the call writes its INTENT row, announces it, sends the client's
  request, writes the COMPLETED row linked to the first, and returns the upstream's response as
  a stream; the table has grown by exactly those two rows.
\<close>

theorem passed_call_is_served:
  assumes "quiet_env E" and "table_ok (sh_table (wd_shared w))"
    and "verdict E c w = Inr d" and "pd_outcome d = OPass"
    and "\<not> has_response_side_policies (call_set c w)"
    and "\<And>n. ev_send E n (call_request c) = Inr up"
  shows "\<exists>intent ev compl w'.
    reaches (handle_tool_call E c) w (Replied (streamed up))
      [Wrote intent, Published ev, Sent (call_request c), Wrote compl] w' \<and>
    ae_status intent = ''INTENT'' \<and> ae_status compl = ''COMPLETED'' \<and>
    ae_parent_id compl = Some (ae_id intent) \<and> de_audit_id ev = ae_id intent \<and>
    tb_rows (sh_table (wd_shared w')) = tb_rows (sh_table (wd_shared w)) @ [intent, compl]"
  using assms by (rule handle_tool_call_passes)

theorem passed_call_is_served_witness:
  "\<exists>intent ev compl w'. reaches (handle_tool_call sample_env sample_call) (sample_world [])
     (Replied (streamed sample_up))
     [Wrote intent, Published ev, Sent (call_request sample_call), Wrote compl] w' \<and>
     tb_rows (sh_table (wd_shared w')) = [intent, compl]"
proof -
  have ok: "table_ok (sh_table (wd_shared (sample_world [])))" by simp
  have p: "pd_outcome pass_decision = OPass" by simp
  from passed_call_is_served [OF sample_quiet ok sample_verdict p sample_unbuffered sample_send]
  show ?thesis by (simp add: empty_table_def) blast
qed

text \<open>
  C9: Everything one call does is about that call: its rows, its decision event and its ticket carry
  one trace id and the call's agent, session, server, tool and arguments (or their hash), the event
  names a ticket exactly when the call is held, its
  counters the call's server and tool, and the request it sends is the client's.
\<close>

theorem effects_are_about_the_call:
  assumes "handle_tool_call E c w = (r, w')" and "wd_trace w' = wd_trace w @ tr"
  shows "\<exists>t. list_all (about c t) tr"
  using handle_tool_call_about [OF assms] by (simp add: list_all_iff)

theorem effects_are_about_the_call_witness:
  "\<exists>t us vs. list_all (about sample_call t) (us @ Sent (call_request sample_call) # vs)"
proof -
  obtain us vs w' where run: "handle_tool_call sample_env sample_call (sample_world []) =
      (Inr (Replied (streamed sample_up)), w')"
    and tr: "wd_trace w' = us @ Sent (call_request sample_call) # vs"
    by (rule sample_pass_sent)
  have "wd_trace w' = wd_trace (sample_world []) @ wd_trace w'" by simp
  from effects_are_about_the_call [OF run this] obtain t where "list_all (about sample_call t) (wd_trace w')" ..
  with tr show ?thesis by metis
qed

text \<open>
  C10: No unredacted response. When a buffered call returns a reply, its bytes either decode to the
  upstream's message with the same shape and a result whose strings match none of the patterns
  the call's policies redact, or they are the upstream's own bytes because that message has no
  result object to govern.
\<close>

theorem buffered_reply_is_redacted:
  assumes "forward_buffered E c ps w = (Inr (resp, tags), w')"
    and "\<And>n up raw. ev_send E n (call_request c) = Inr up \<Longrightarrow> ur_body up = Inr raw \<Longrightarrow>
      case decode_mcp_body (ev_json_float E) raw (content_type_of up) of
        Inl e \<Rightarrow> True | Inr j \<Rightarrow> wf_json (ev_json_float E) j"
  shows "\<exists>n up raw parsed body.
    ev_send E n (call_request c) = Inr up \<and> ur_body up = Inr raw \<and>
    decode_mcp_body (ev_json_float E) raw (content_type_of up) = Inr parsed \<and>
    rs_content resp = CBytes body \<and> rs_status resp = ur_status up \<and>
    (result_of parsed = None \<and> body = raw \<or>
     (\<exists>out res. decode_mcp_body (ev_json_float E) body (content_type_of up) = Inr out \<and>
        json_frame out = json_frame parsed \<and> result_of out = Some res \<and> clean ps res))"
proof -
  obtain n up raw body w1 where f: "ev_send E n (call_request c) = Inr up" "ur_body up = Inr raw"
    and s: "stage8 E c ps raw (content_type_of up) w1 = (Inr (body, tags), w')"
    and r: "resp = \<lparr>rs_status = ur_status up, rs_headers = response_headers (ur_headers up), rs_content = CBytes body\<rparr>"
    by (rule forward_buffered_cases [OF assms(1)])
  obtain parsed where p: "decode_mcp_body (ev_json_float E) raw (content_type_of up) = Inr parsed"
    and b: "case result_of parsed of None \<Rightarrow> body = raw \<and> tags = []
      | Some res \<Rightarrow> \<exists>kvs payload. parsed = JObj kvs \<and> json_frame payload = json_frame res \<and>
          clean ps payload \<and> body = encode_mcp_body (JObj (dict_set ''result'' payload kvs)) (content_type_of up)"
    using stage8_body [OF s] by blast
  have wf: "wf_json (ev_json_float E) parsed" using assms(2) [OF f] p by simp
  show ?thesis
  proof (cases "result_of parsed")
    case None
    then show ?thesis using f p r b by auto
  next
    case (Some res)
    from stage8_decoded [OF s p Some wf] show ?thesis using f p r by fastforce
  qed
qed

theorem buffered_reply_is_redacted_witness:
  "\<exists>resp tags w' body out res.
    forward_buffered sample_env sample_call pii_set (sample_world []) = (Inr (resp, tags), w') \<and>
    rs_content resp = CBytes body \<and>
    decode_mcp_body (ev_json_float sample_env) body ''application/json'' = Inr out \<and>
    json_frame out = json_frame sample_message \<and> result_of out = Some res \<and> clean pii_set res"
proof -
  obtain resp tags w' where run: "forward_buffered sample_env sample_call pii_set (sample_world []) = (Inr (resp, tags), w')"
    by (rule sample_buffered)
  have up: "up = sample_up" if "ev_send sample_env n (call_request sample_call) = Inr up" for n up
    using that sample_send [of n "call_request sample_call"] by simp
  have b: "ur_body sample_up = Inr (encode_mcp_body sample_message ''application/json'')"
    by (simp add: sample_up_def)
  have wf: "case decode_mcp_body (ev_json_float sample_env) raw (content_type_of up) of
      Inl e \<Rightarrow> True | Inr j \<Rightarrow> wf_json (ev_json_float sample_env) j"
    if "ev_send sample_env n (call_request sample_call) = Inr up" "ur_body up = Inr raw" for n up raw
    using that(2) b sample_content_type sample_decoded sample_wf unfolding up [OF that(1)] by simp
  have r: "result_of sample_message \<noteq> None"
    by (simp add: result_of_def sample_message_def dict_get_def)
  from buffered_reply_is_redacted [OF run wf] show ?thesis
    using up b sample_content_type sample_decoded r run by fastforce
qed



text \<open>
  C12: The request-side decision, spelled out: evaluation passes a call exactly when some allowlist
  policy applies, or the server has no allowlist, no denylist, HITL gate or cost cap applies, no
  rate limit is exceeded, and every request-side custom policy is registered and has no objection.
\<close>

theorem pass_exactly_when:
  "(\<exists>d. fst (evaluate reg clock ps subject (Some ctx) lm) = Inr d \<and> pd_outcome d = OPass) \<longleftrightarrow>
     passes reg clock ps subject ctx lm"
  by (rule evaluate_pass_iff)

text \<open>
  C13: The engine's cache is transparent: from the engine built for a policy pack, any sequence of
  compilations gives for a server and tool what compiling afresh gives, namely the policies that
  match, sorted by the precedence of their effects and otherwise in file order, and the flag that
  some allowlist names the server.
\<close>

theorem cached_compile_is_fresh:
  "fst (compile (foldl (\<lambda>pe (srv, tool). snd (compile pe srv tool)) (new_engine policies) history) srv tool) =
     compiled policies srv tool \<and>
   set (ps_policies (compiled policies srv tool)) =
     {p \<in> set policies. applies_matches (pol_applies p) srv tool} \<and>
   sorted (map (\<lambda>p. effect_rank (pol_effect p)) (ps_policies (compiled policies srv tool))) \<and>
   (ps_server_has_allowlist (compiled policies srv tool) \<longleftrightarrow>
     list_ex (\<lambda>p. is_allowlist (pol_effect p) \<and> at_server (pol_applies p) = srv) policies)"
  using pc.fresh_after [OF engine_ok_new, of "(srv, tool)" policies history]
  by (simp add: case_prod_beta' compiled_policies compiled_sorted compiled_flag list_ex_iff)



text \<open>
  C15: The verdict of \<open>verify_chain\<close> is exact. It never raises; it accepts precisely the lists of rows
  each of which stores its predecessor's digest and the digest of its own contents; and it
  rejects every other list at the first row that breaks the chain, naming that row's id and the
  number of good rows before it.
\<close>

theorem verify_chain_verdict:
  "(audit_linked GENESIS_HASH es \<and> verify_chain es = Inr \<lparr>vr_valid = True, vr_checked = length es,
      vr_first_mismatch_id = None, vr_detail = None\<rparr>) \<or>
   (\<exists>us e vs r. es = us @ e # vs \<and> audit_linked GENESIS_HASH us \<and> \<not> audit_linked GENESIS_HASH (us @ [e]) \<and>
      verify_chain es = Inr r \<and> \<not> vr_valid r \<and> vr_checked r = length us \<and>
      vr_first_mismatch_id r = Some (ae_id e))"
proof (cases "audit_linked GENESIS_HASH es")
  case True
  then show ?thesis using verify_from_valid [OF True, of 0] by (simp add: verify_chain_def)
next
  case False
  from verify_from_invalid [OF this, of 0] show ?thesis unfolding verify_chain_def by simp
qed



text \<open>
  C17: Redaction is complete, and only redaction: after \<open>redact_json_value\<close> no string leaf of a value
  matches any of the named PII patterns, all else (keys, numbers, order, nesting) is as before,
  redacting again changes nothing, and only a value with a match is changed at all.
\<close>

theorem redaction_complete:
  "list_all (\<lambda>s. \<not> pii_in names s) (json_strings (redact_json_value j names)) \<and>
   json_frame (redact_json_value j names) = json_frame j \<and>
   redact_json_value (redact_json_value j names) names = redact_json_value j names \<and>
   (redact_json_value j names = j \<longleftrightarrow> list_all (\<lambda>s. \<not> pii_in names s) (json_strings j))"
  using rj.scrub_clean rj.shape_scrub rj.idem rj.fixed_iff by (simp add: list_all_iff)

text \<open>
  C18: Loading a pack is exact: \<open>load_policy_pack\<close> returns a list of policies precisely when they are
  what the pack's files parse to, in the order of the file names, their names are distinct, and
  the manifest, if there is one, parses and lists exactly those names.
\<close>

theorem pack_loads_exactly_when:
  "load_policy_pack pp pm path dir = Inr ps \<longleftrightarrow>
     list_all2 (\<lambda>f p. pp (snd f) = Inr p) (policy_files dir) ps \<and> distinct (map pol_name ps) \<and>
     (\<exists>mf. load_pack_manifest pm dir = Inr mf \<and>
        (case mf of None \<Rightarrow> True | Some m \<Rightarrow> set (pm_policies m) = pol_name ` set ps))"
proof
  assume l: "load_policy_pack pp pm path dir = Inr ps"
  then obtain mf where mf: "load_pack_manifest pm dir = Inr mf"
    by (auto simp: load_policy_pack_def bind_res_eq_Inr Let_def)
  have "case mf of None \<Rightarrow> True | Some m \<Rightarrow> set (pm_policies m) = pol_name ` set ps"
    using load_policy_pack_sound(3) [OF l] mf by (cases mf) auto
  with load_policy_pack_sound(1,2) [OF l] mf
  show "list_all2 (\<lambda>f p. pp (snd f) = Inr p) (policy_files dir) ps \<and> distinct (map pol_name ps) \<and>
     (\<exists>mf. load_pack_manifest pm dir = Inr mf \<and>
        (case mf of None \<Rightarrow> True | Some m \<Rightarrow> set (pm_policies m) = pol_name ` set ps))" by blast
next
  assume r: "list_all2 (\<lambda>f p. pp (snd f) = Inr p) (policy_files dir) ps \<and> distinct (map pol_name ps) \<and>
     (\<exists>mf. load_pack_manifest pm dir = Inr mf \<and>
        (case mf of None \<Rightarrow> True | Some m \<Rightarrow> set (pm_policies m) = pol_name ` set ps))"
  then obtain mf where "load_pack_manifest pm dir = Inr mf"
    "case mf of None \<Rightarrow> True | Some m \<Rightarrow> set (pm_policies m) = pol_name ` set ps" by blast
  then show "load_policy_pack pp pm path dir = Inr ps"
    using r by (intro load_policy_pack_complete) (auto split: option.splits)
qed

text \<open>
  C19: A decision is made once: deciding a pending ticket applies the decision and stores it, and any
  later decision, by anyone, finds it settled, changes nothing and returns the first one.
\<close>

theorem first_decision_stands:
  assumes "redis_laws R" and "get_ticket R fl fr i s = Inr (Some t)" and "tk_status t = ''PENDING''"
    and "ticket_ok fl fr (decided now st who why t)" and "st \<noteq> ''PENDING''"
    and "decide_ticket R fl fr now i st who why s = (Inr x, s')"
  shows "x = Some (decided now st who why t, True) \<and>
    decide_ticket R fl fr now' i st' who' why' s' =
      (Inr (Some (ticket_norm (decided now st who why t), False)), s')"
  using decide_pending(1) [OF assms(1,2,3,4,6)] decide_once [OF assms] by simp

theorem first_decision_stands_witness:
  "\<exists>x s'. decide_ticket mem_redis Inr id ''13.0'' ''ticket-1'' ''DENIED'' ''ana'' ''no'' sample_redis = (Inr x, s') \<and>
    x = Some (decided ''13.0'' ''DENIED'' ''ana'' ''no'' sample_ticket, True) \<and>
    decide_ticket mem_redis Inr id ''14.0'' ''ticket-1'' ''APPROVED'' ''bob'' ''ok'' s' =
      (Inr (Some (ticket_norm (decided ''13.0'' ''DENIED'' ''ana'' ''no'' sample_ticket), False)), s')"
proof -
  have p: "tk_status sample_ticket = ''PENDING''" and n: "''DENIED'' \<noteq> ''PENDING''" by simp_all
  from first_decision_stands [OF mem_redis_laws sample_ticket_stored p sample_decided_ok n sample_decide] sample_decide
  show ?thesis by blast
qed

text \<open>
  C20: Two reviewers can both win: \<open>decide_ticket\<close> reads and writes back without a transaction, so when
  two of them read the pending ticket before either writes, both are told their decision was
  applied and the second write replaces the first, against the function's documented promise.
\<close>

theorem concurrent_decisions_overwrite:
  assumes "redis_laws R" and "get_ticket R fl fr i s = Inr (Some t)" and "tk_status t = ''PENDING''"
    and "ticket_ok fl fr (decided now1 st1 who1 why1 t)" and "ticket_ok fl fr (decided now2 st2 who2 why2 t)"
  shows "\<exists>p1 p2. decide_read R fl fr now1 i st1 who1 why1 s = Inr (Decide p1) \<and>
      decide_read R fl fr now2 i st2 who2 why2 s = Inr (Decide p2) \<and>
      (\<forall>s1 s2. decide_write R i p1 s = (Inr (), s1) \<longrightarrow> decide_write R i p2 s1 = (Inr (), s2) \<longrightarrow>
         get_ticket R fl fr i s1 = Inr (Some (ticket_norm (decided now1 st1 who1 why1 t))) \<and>
         get_ticket R fl fr i s2 = Inr (Some (ticket_norm (decided now2 st2 who2 why2 t))))"
  using assms by (rule decide_race)

theorem concurrent_decisions_overwrite_witness:
  "\<exists>p1 p2. decide_read mem_redis Inr id ''13.0'' ''ticket-1'' ''DENIED'' ''ana'' ''no'' sample_redis = Inr (Decide p1) \<and>
     decide_read mem_redis Inr id ''13.0'' ''ticket-1'' ''APPROVED'' ''bob'' ''ok'' sample_redis = Inr (Decide p2)"
proof -
  have p: "tk_status sample_ticket = ''PENDING''" by simp
  from concurrent_decisions_overwrite [OF mem_redis_laws sample_ticket_stored p sample_decided_ok sample_decided_ok]
  show ?thesis by blast
qed

text \<open>
  C21: The wait for a reviewer ends with an answer: when the clock advances by at least the poll interval, or the time
  left, between polls, a wait whose remaining time is at most \<open>k\<close> intervals returns after at most
  \<open>k + 1\<close> polls, whatever the ticket does. It returns what its last poll saw, every earlier poll having
  found the ticket pending, and a ticket still pending only when the deadline has passed.
\<close>

theorem wait_for_decision_answers:
  assumes "paced clock poll (clock 0 + of_int timeout)" and "0 < poll"
    and "clock 0 + of_int timeout - clock 1 \<le> of_nat k * poll" and "k < fuel"
  shows "\<exists>r m. wait_for_decision R fl fr seen clock fuel i timeout = Some r \<and> get_ticket R fl fr i (seen m) = r \<and>
    (\<forall>j < m. \<exists>t. get_ticket R fl fr i (seen j) = Inr (Some t) \<and> tk_status t = ''PENDING'') \<and>
    (\<forall>t. r = Inr (Some t) \<longrightarrow> tk_status t = ''PENDING'' \<longrightarrow> clock 0 + of_int timeout \<le> clock (Suc m))"
proof -
  obtain r where run: "wait_loop (get_ticket R fl fr i) seen clock (clock 0 + of_int timeout) fuel 0 = Some r"
    using wait_loop_ends [OF assms(1,2) _ assms(4), of 0] assms(3) by auto
  from wait_loop_result [OF this] have "\<exists>m. get_ticket R fl fr i (seen m) = r \<and>
    (\<forall>j < m. \<exists>t. get_ticket R fl fr i (seen j) = Inr (Some t) \<and> tk_status t = ''PENDING'') \<and>
    (\<forall>t. r = Inr (Some t) \<longrightarrow> tk_status t = ''PENDING'' \<longrightarrow> clock 0 + of_int timeout \<le> clock (Suc m))"
    by (metis le0)
  with run show ?thesis unfolding wait_for_decision_def Let_def by blast
qed

theorem wait_for_decision_answers_witness:
  "\<exists>r m. wait_for_decision mem_redis Inr id (\<lambda>n. sample_redis) (\<lambda>n. of_nat n) 4 ''ticket-1'' 3 = Some r \<and>
    get_ticket mem_redis Inr id ''ticket-1'' sample_redis = r \<and> (0 :: nat) \<le> m"
proof -
  have "paced (\<lambda>n. of_nat n :: rat) 1 (of_nat 0 + of_int 3)" by (auto simp: paced_def)
  from wait_for_decision_answers [OF this, where k = 3 and fuel = 4 and R = mem_redis and fl = Inr and fr = id
      and seen = "\<lambda>n. sample_redis" and i = "''ticket-1''"]
  show ?thesis by auto
qed

text \<open>
  C22: The framing round trip: decoding an encoded MCP body, as plain JSON or as a server-sent event
  according to the content type, gives the message back, for every well-formed JSON value, so two
  messages have the same body only when they are equal.
\<close>

theorem mcp_body_round_trip:
  assumes "wf_json fr j" and "wf_json fr i"
  shows "decode_mcp_body fr (encode_mcp_body j ct) ct = Inr j \<and>
    (encode_mcp_body i ct = encode_mcp_body j ct \<longleftrightarrow> i = j)"
  using mb.decodes [OF assms(1)] mb.inject [OF assms(2,1)] by blast

theorem mcp_body_round_trip_witness:
  "decode_mcp_body id (encode_mcp_body sample_message ''text/event-stream'') ''text/event-stream'' = Inr sample_message"
  using mcp_body_round_trip [OF sample_wf sample_wf] by blast



text \<open>
  C24: Every run of the graph, failing or not, ends within four agents, long before the recursion
  limit, which therefore never shows: any limit of at least four gives the same result.
\<close>

theorem graph_ends_within_four_agents:
  "run_graph E ev w = run_from E (4 + k) Supervisor (initial_state ev) w \<and>
   (\<exists>bs. cw_visits (snd (run_graph E ev w)) = cw_visits w @ Supervisor # bs \<and> length bs \<le> 3)"
  using run_graph_visits(1) [of E ev w "fst (run_graph E ev w)" "snd (run_graph E ev w)"]
    run_from_fuel [of Supervisor 4 E k] run_graph_four [of E ev w] by auto

text \<open>
  C25: From gateway to control plane: a hold the gateway announces always names its ticket, so the
  evidence composer's guard against a missing ticket (or a missing enrichment) never fires; all
  that can escape the graph on an event of the gateway is a fault of the database, of Redis or of
  the language model other than its own \<open>LLMError\<close>.
\<close>

theorem announced_holds_can_be_composed:
  assumes "handle_tool_call G c v = (x, v')" and "wd_trace v' = wd_trace v @ tr"
    and "Published ev \<in> set tr" and "run_graph E ev w = (Inl e, w')"
  shows "cp_fault E e"
proof -
  obtain t where "\<forall>y \<in> set tr. about c t y" using handle_tool_call_about [OF assms(1,2)] by blast
  with assms(3) have "event_about c t ev" by force
  then have "cd_outcome (de_decision ev) = ''HOLD'' \<longrightarrow> de_hitl_ticket_id ev \<noteq> None"
    by (simp add: event_about_def)
  from run_graph_raises [OF this assms(4)] show ?thesis .
qed

theorem announced_holds_can_be_composed_witness:
  "\<exists>ev e w'. run_graph (sample_cp_env (Some (Exn DbErr ''down''))) ev sample_cp_world = (Inl e, w') \<and>
     cp_fault (sample_cp_env (Some (Exn DbErr ''down''))) e"
proof -
  let ?E = "sample_cp_env (Some (Exn DbErr ''down''))"
  obtain ev v' where run: "handle_tool_call sample_env sample_call (sample_world []) =
      (Inr (Replied (streamed sample_up)), v')"
    and tr: "wd_trace v' = wd_trace (sample_world []) @ wd_trace v'" and ev: "Published ev \<in> set (wd_trace v')"
    by (rule sample_pass_event)
  obtain e w' where g: "run_graph ?E ev sample_cp_world = (Inl e, w')" using sample_cp_down by blast
  from announced_holds_can_be_composed [OF run tr ev g] g show ?thesis by blast
qed





text \<open>
  C28: The anomaly detector flags by integer arithmetic on its counts: a rate spike exactly when at
  least three earlier buckets are there, they differ, and \<open>(n x - S)\<^sup>2 (n - 1) > 9 n (n Q - S\<^sup>2)\<close> for
  the current count \<open>x\<close> and the number, sum and sum of squares \<open>n\<close>, \<open>S\<close>, \<open>Q\<close> of the earlier ones
  (severe from 25 in place of 9 on); otherwise repeated denials, from three, severe from five on.
\<close>

theorem anomaly_flag_by_counts:
  "map_option (\<lambda>f. (af_anomaly_type f, af_severity f))
     (detect_anomaly \<lparr>sg_current_window_calls = x, sg_prior_window_call_counts = xs, sg_denials_last_15_min = d\<rparr> ev) =
    (let n = int (length xs); S = int (sum_list xs); Q = int (sum_list (map (\<lambda>x. x\<^sup>2) xs));
         l = (n * int x - S)\<^sup>2 * (n - 1); r = n * (n * Q - S\<^sup>2)
     in if n \<ge> 3 \<and> n * Q \<noteq> S\<^sup>2 \<and> l > 9 * r
        then Some (''rate_spike'', if l \<ge> 25 * r then ''high'' else ''med'')
        else if d \<ge> 3 then Some (''repeated_denials'', if d \<ge> 5 then ''high'' else ''med'')
        else None)"
  unfolding detect_anomaly_cases
  by (auto simp: Let_def far_def very_far_def beyond_def deviation_def spread_def mult.assoc)

text \<open>
  C29: The breadth-first search of the transaction graph is exact: \<open>neighbors\<close> returns each account once,
  and precisely the accounts whose distance from the origin, in the undirected graph of the
  transactions of at least the minimum amount, is between one and the clamped hop limit, with that
  distance as \<open>hop\<close>; amount and count are those of the transactions that join the account to the
  accounts one hop nearer.
\<close>

theorem neighbors_are_the_accounts_in_reach:
  assumes "orders_ok s"
  shows "distinct (map al_account_id (neighbors s a h m)) \<and>
    (\<lambda>l. (al_account_id l, al_hop l)) ` set (neighbors s a h m) =
      {(b, j). 1 \<le> j \<and> j \<le> clamp_hops s h \<and> b \<in> level (link_rel s m) a j} \<and>
    list_all (\<lambda>l. (al_total_amount l, al_transaction_count l) =
      link_totals s m (level (link_rel s m) a (al_hop l - 1)) (al_account_id l)) (neighbors s a h m)"
  using neighbors_links [OF assms] by (auto simp: list_all_iff)

theorem neighbors_are_the_accounts_in_reach_witness:
  "(\<lambda>l. (al_account_id l, al_hop l)) ` set (neighbors sample_store ''a'' 2 100) =
     {(b, j). 1 \<le> j \<and> j \<le> clamp_hops sample_store 2 \<and> b \<in> level (link_rel sample_store 100) ''a'' j} \<and>
   map al_account_id (neighbors sample_store ''a'' 2 100) = [''b'', ''c'']"
proof -
  have "map al_account_id (neighbors sample_store ''a'' 2 100) = [''b'', ''c'']" by code_simp
  with neighbors_are_the_accounts_in_reach [OF sample_orders, of "''a''" 2 100] show ?thesis by blast
qed

text \<open>
  C30: The induced subgraph is capped at the largest edges: with a limit of \<open>m\<close>, the edges are \<open>m\<close> of the
  account pairs with a transaction between two of the given accounts, or all of them, each with its
  total and count; nothing left out has a larger total than anything kept, and \<open>truncated\<close> says
  exactly whether something was left out.
\<close>

theorem subgraph_keeps_the_largest_edges:
  assumes "orders_ok s" and "ids \<noteq> []" and "0 \<le> m"
  shows "\<exists>g. subgraph s ids m = Inr g \<and> set (gr_edges g) \<subseteq> edge_of s ` pairs_of s ids \<and>
    length (gr_edges g) = min (nat m) (card (pairs_of s ids)) \<and>
    (gr_truncated g \<longleftrightarrow> nat m < card (pairs_of s ids)) \<and>
    (\<forall>e \<in> set (gr_edges g). \<forall>d \<in> edge_of s ` pairs_of s ids - set (gr_edges g).
       ge_total_amount d \<le> ge_total_amount e)"
  using assms by (rule subgraph_largest)

theorem subgraph_keeps_the_largest_edges_witness:
  "\<exists>g. subgraph sample_store [''a'', ''b'', ''c'', ''d''] 1 = Inr g \<and>
     (gr_truncated g \<longleftrightarrow> nat 1 < card (pairs_of sample_store [''a'', ''b'', ''c'', ''d'']))"
proof -
  have m: "(0::int) \<le> 1" by simp
  from subgraph_keeps_the_largest_edges [OF sample_orders _ m, of "[''a'', ''b'', ''c'', ''d'']"]
  show ?thesis by auto
qed



text \<open>
  C32: The sanctions tools always answer. For an index built from the two lists and a fuzzy matcher that
  picks among the names it is given, \<open>check_entity\<close> (for a valid type) and \<open>check_alias\<close> raise no
  exception: each match names an entry of the list, of the type asked for and with the matched name
  as its primary name, or in an alias search as one of its names, and \<open>is_match\<close> is the threshold
  test.
\<close>

theorem sanctions_tools_answer:
  assumes "build_index sdn alt = Inr ix" and "matcher_ok fz" and "ty \<in> set VALID_ENTITY_TYPES"
  shows "(\<exists>m. check_entity fz ix threshold name ty = Inr m \<and>
      (m = None \<or> (\<exists>x. m = Some x \<and> match_ok ix threshold (\<lambda>e n. sdn_type e = ty \<and> sdn_name e = n) x))) \<and>
    (\<exists>ms. check_alias fz ix threshold name = Inr ms \<and> list_all (match_ok ix threshold has_name) ms)"
  using check_entity_answers [OF assms] check_alias_answers [OF assms(1,2)] by blast

theorem sanctions_tools_answer_witness:
  "\<exists>ms. check_alias sample_matcher (index_of_entries [(''36'', sample_sdn_entry)]) 70 ''aero'' = Inr ms \<and>
     list_all (match_ok (index_of_entries [(''36'', sample_sdn_entry)]) 70 has_name) ms"
proof -
  have ty: "''entity'' \<in> set VALID_ENTITY_TYPES" by (simp add: VALID_ENTITY_TYPES_def)
  from sanctions_tools_answer [OF sample_index sample_matcher_ok ty] show ?thesis by blast
qed

text \<open>
  C33: An investigation that completes has followed the procedure: it looked the account up, screened
  its holder against the sanctions list before it read any transaction, and ended with exactly one
  write, whose disposition is one the server accepts and the one it recommends; in between it made
  the four further queries and at most one more, on a sanctions match. A denied write and a failed
  language model do not stop it.
\<close>

theorem investigation_follows_the_procedure:
  assumes "run_investigation E al w = (Inr st, w')"
  shows "\<exists>d r. iv_discovery st = Some d \<and> iv_recommendation st = Some r \<and> iv_report st \<noteq> None \<and>
    rc_disposition r \<in> set VALID_DISPOSITIONS \<and>
    tools_of w' = tools_of w @
      [(TRANSACTION_GRAPH_ROUTE, ''get_account''), (OFAC_ROUTE, ''check_entity''),
       (TRANSACTION_GRAPH_ROUTE, ''query_transactions''), (TRANSACTION_GRAPH_ROUTE, ''neighbors''),
       (TRANSACTION_GRAPH_ROUTE, ''subgraph''), (TRANSACTION_GRAPH_ROUTE, ''structuring_check'')] @
      (if hit_matched (df_sanctions_hit d) then [(OFAC_ROUTE, ''get_entity_detail'')] else []) @
      [(TRANSACTION_GRAPH_ROUTE, ''mark_investigated'')] \<and>
    (\<exists>cs. iw_calls w' = cs @ [(TRANSACTION_GRAPH_ROUTE, ''mark_investigated'',
       JObj [(''account_id'', JStr (at_account_id al)), (''disposition'', JStr (rc_disposition r)),
             (''rationale'', JStr (rc_rationale r))])])"
  using investigation_calls [OF assms]
proof (elim exE conjE, intro exI conjI)
  fix d a r
  assume "rc_disposition r = DISPOSITION_BY_RISK (as_risk_level a)"
  then show "rc_disposition r \<in> set VALID_DISPOSITIONS" using disposition_valid by simp
qed (simp_all add: write_args_def start_state_def)

theorem investigation_follows_the_procedure_witness:
  "\<exists>st r w'. run_investigation sample_inv_env sample_alert \<lparr>iw_call_log = [], iw_calls = []\<rparr> = (Inr st, w') \<and>
     length (iw_calls w') = 7 \<and> iv_recommendation st = Some r \<and> rc_disposition r \<in> set VALID_DISPOSITIONS"
proof -
  obtain st w' where run: "run_investigation sample_inv_env sample_alert \<lparr>iw_call_log = [], iw_calls = []\<rparr> = (Inr st, w')"
    and n: "length (iw_calls w') = 7" using sample_investigation by blast
  from investigation_follows_the_procedure [OF run] run n show ?thesis by blast
qed

text \<open>
  C34: The AML pack as shipped decides like this, for every server, tool, agent, audit log and limiter
  state: a transaction-graph tool other than \<open>get_account\<close> is denied to an agent without a
  COMPLETED screening row and otherwise passes, except \<open>mark_investigated\<close>, which is held for the
  AML analysts; \<open>check_entity\<close> passes within its rate limit; everything else passes.
\<close>

theorem aml_pack_decision:
  assumes "REQUEST_POLICIES = Inr reg" and "rc_session_factory ctx = Inr rows" and "rc_agent_id ctx = agent"
  shows "evaluate reg clock (compiled aml_policies srv tool) agent (Some ctx) lm =
   (if srv = ''transaction-graph'' \<and> tool \<in> {''query_transactions'', ''neighbors'', ''subgraph'', ''structuring_check'', ''mark_investigated''} then
      (Inr (if \<not> (\<exists>e \<in> set rows. ae_agent_id e = agent \<and> ae_server e = ''ofac-sanctions'' \<and>
                 ae_tool e \<in> {''check_entity'', ''check_alias''} \<and> ae_status e = ''COMPLETED'')
            then unscreened
            else if tool = ''mark_investigated'' then write_held else pass_decision), lm)
    else if srv = ''ofac-sanctions'' \<and> tool = ''check_entity'' then
      (case check_and_increment clock (''aml-rate-limit-sanctions'', agent) 60 60 lm of
         (ok, lm') \<Rightarrow>
           (Inr (if ok then pass_decision
                 else decision ODeny (Some ''aml-rate-limit-sanctions'') ''rate_limit_exceeded''), lm'))
    else (Inr pass_decision, lm))"
proof -
  have "screened agent rows \<longleftrightarrow> (\<exists>e \<in> set rows. ae_agent_id e = agent \<and> ae_server e = ''ofac-sanctions'' \<and>
      ae_tool e \<in> {''check_entity'', ''check_alias''} \<and> ae_status e = ''COMPLETED'')"
    by (auto simp: screened_def sanctions_check_row_def SANCTIONS_CHECK_TOOLS_def)
  then show ?thesis
    unfolding aml_pack_decides [OF assms] aml_verdict_def
    by (auto simp: aml_gated_tools_def split: prod.split)
qed

theorem aml_pack_decision_witness:
  "evaluate (ev_request_policies sample_env) (\<lambda>n. 0) (compiled aml_policies ''transaction-graph'' ''neighbors'')
      ''agent-a'' (Some (sample_ctx ''agent-a'' [])) new_limiter = (Inr unscreened, new_limiter)"
  using aml_pack_decision [OF sample_registry sample_ctx_simps, of "\<lambda>n. 0" "''transaction-graph''" "''neighbors''" "''agent-a''" "[]" new_limiter]
  by simp

text \<open>
  C35: The investigator complies with the pack. When each call of a completed investigation is
  evaluated over an audit log with the COMPLETED rows of the calls before it, and the agent has
  screened fewer than 60 times in the current window, then no call is denied: all pass but
  the last, which is held for the analysts.
\<close>

theorem investigation_complies_with_the_pack:
  assumes "REQUEST_POLICIES = Inr reg"
    and "run_investigation E al w = (Inr st, w')" and "tools_of w' = tools_of w @ calls" and "k < length calls"
    and "rc_session_factory ctx = Inr rows" and "rc_agent_id ctx = agent"
    and "\<forall>(srv, tool) \<in> set (take k calls). \<exists>e \<in> set rows.
        ae_agent_id e = agent \<and> ae_server e = srv \<and> ae_tool e = tool \<and> ae_status e = ''COMPLETED''"
    and "case map_of (rl_windows lm) (''aml-rate-limit-sanctions'', agent) of None \<Rightarrow> True | Some (n, s) \<Rightarrow> n < 60"
  shows "fst (evaluate reg clock (compiled aml_policies (fst (calls ! k)) (snd (calls ! k))) agent (Some ctx) lm) =
    Inr (if k = length calls - 1 then write_held else pass_decision)"
  using assms(7,8) by (intro investigation_under_pack [OF assms(1-6)]) (simp_all add: served_before_def window_open_def)

theorem investigation_complies_with_the_pack_witness:
  "\<exists>st w'. run_investigation sample_inv_env sample_alert \<lparr>iw_call_log = [], iw_calls = []\<rparr> = (Inr st, w') \<and>
     fst (evaluate (ev_request_policies sample_env) (\<lambda>n. 0)
       (compiled aml_policies (fst (tools_of w' ! 6)) (snd (tools_of w' ! 6))) ''investigation-1''
       (Some (sample_ctx ''investigation-1'' (served_rows ''investigation-1'' (tools_of w')))) new_limiter) = Inr write_held"
proof -
  obtain st w' where run: "run_investigation sample_inv_env sample_alert \<lparr>iw_call_log = [], iw_calls = []\<rparr> = (Inr st, w')"
    and n: "length (iw_calls w') = 7" using sample_investigation by blast
  have calls: "tools_of w' = tools_of \<lparr>iw_call_log = [], iw_calls = []\<rparr> @ tools_of w'" by (simp add: tools_of_def)
  have len: "length (tools_of w') = 7" using n by (simp add: tools_of_def)
  then have k: "6 < length (tools_of w')" by simp
  have room: "case map_of (rl_windows new_limiter) (''aml-rate-limit-sanctions'', ''investigation-1'') of
      None \<Rightarrow> True | Some (n, s) \<Rightarrow> n < 60" by (simp add: new_limiter_def)
  note served = served_rows_served [of "''investigation-1''" "tools_of w'" 6, unfolded served_before_def]
  from investigation_complies_with_the_pack [OF sample_registry run calls k sample_ctx_simps served room, of "\<lambda>n. 0"]
    run len show ?thesis by (intro exI conjI) simp_all
qed

text \<open>
  C36: The subsampling never loses a laundering transaction, whatever the seeded draw: a run that ends
  well has kept all of them, has drawn exactly the target number of accounts (all accounts if
  there are fewer, the parties of the laundering transactions if they alone are more), and has kept
  everything when the accounts fit the target. Its only \<open>RuntimeError\<close> blames a pattern naming
  an account that no labelled transaction has, and leaves the old files alone.
\<close>

theorem subsample_keeps_the_laundering:
  assumes "run_subsample S csv pats accs d = (r, d')" and "load_transactions S csv = Inr ts"
    and "\<And>xs. mset (sp_order_by_rand S SEED xs) = mset xs"
  shows "case r of
      Inr _ \<Rightarrow>
        filter laundering (map snd (od_transactions d')) = filter laundering ts \<and>
        map_option (\<lambda>R. sa_sampled_accounts (sr_account_stats R)) (od_report d') =
          Some (max (length (parties (filter laundering ts))) (min TARGET_ACCOUNTS (length (parties ts)))) \<and>
        (length (parties ts) \<le> TARGET_ACCOUNTS \<longrightarrow> map snd (od_transactions d') = ts)
    | Inl e \<Rightarrow> exn_kind e = RuntimeErr \<longrightarrow> d' = d \<and>
        (\<exists>ps p a. load_top_patterns (int VERIFY_PATTERN_COUNT) pats = Inr ps \<and> p \<in> set ps \<and>
           a \<in> set (pattern_accounts p) \<and> a \<notin> set (parties (filter laundering ts)))"
proof (cases r)
  case (Inl e)
  show ?thesis unfolding Inl sum.case
  proof
    assume e: "exn_kind e = RuntimeErr"
    obtain ps where ps: "load_top_patterns (int VERIFY_PATTERN_COUNT) pats = Inr ps"
      "broken_patterns (sample_of S ts) ps \<noteq> []" "d' = d"
      using assms(1) [unfolded Inl] e assms(2) by (rule run_subsample_runtime)
    with broken_pattern_unlabelled [OF ps(2)]
    show "d' = d \<and> (\<exists>ps p a. load_top_patterns (int VERIFY_PATTERN_COUNT) pats = Inr ps \<and> p \<in> set ps \<and>
        a \<in> set (pattern_accounts p) \<and> a \<notin> set (parties (filter laundering ts)))" by blast
  qed
next
  case (Inr u)
  then have run: "run_subsample S csv pats accs d = (Inr (), d')" using assms(1) by simp
  show ?thesis
    using run_subsample_done [OF run assms(2)] sample_size [OF assms(3)] small_universe_kept [OF assms(3)]
    by (auto simp: Inr laundering_kept sampling_stats_exact)
qed

theorem subsample_keeps_the_laundering_witness:
  "filter laundering
     (map snd (od_transactions (snd (run_subsample sample_spark [sample_raw] sample_patterns [] no_files)))) =
   filter laundering [sample_transfer]"
proof -
  have "run_subsample sample_spark [sample_raw] sample_patterns [] no_files =
      (Inr (), snd (run_subsample sample_spark [sample_raw] sample_patterns [] no_files))"
    using sample_run by (simp add: prod_eq_iff)
  from subsample_keeps_the_laundering [OF this sample_load sample_order] show ?thesis by simp
qed

text \<open>
  C37: The dashboards account for every generated call, whatever Spark draws: the hourly table
  adds up to the calls and to the upstream errors, the policy table to the policies fired, the
  review table to the reviewed calls, each approved or denied, the AML table to the calls of its
  two servers. Its three \<open>mark_investigated\<close> columns share out the calls of that tool except those
  that failed upstream, and every structuring alert is a call of \<open>structuring_check\<close>. Only a hash
  that is the least 32 bit integer stops the review table.
\<close>

theorem dashboards_account_for_every_call:
  fixes C F
  defines "calls \<equiv> generated_rows C"
  defines "aml \<equiv> aggregate_aml_pack_daily F (generated_rows C)"
  defines "mi \<equiv> on_tool ''mark_investigated'' (on_server ''transaction-graph'' (generated_rows C))"
  shows "column_sum ''call_count'' (aggregate_telemetry_hourly F calls) = int (length calls) \<and>
    column_sum ''error_count'' (aggregate_telemetry_hourly F calls) =
      int (length (filter (\<lambda>r. tl_status r = ''UPSTREAM_ERROR'') calls)) \<and>
    column_sum ''fire_count'' (aggregate_policy_fires_daily F calls) =
      int (sum_list (map (length \<circ> tl_policies_fired) calls)) \<and>
    (case aggregate_hitl_daily F calls of
       Inl e \<Rightarrow> (\<exists>r \<in> set (reviewed calls). sint (sf_hash F (tl_trace_id r)) = - (2 ^ 31))
     | Inr rows \<Rightarrow> column_sum ''tickets_created'' rows = int (length (reviewed calls)) \<and>
         column_sum ''approved'' rows + column_sum ''denied'' rows = int (length (reviewed calls))) \<and>
    column_sum ''ofac_calls'' aml = int (length (on_server ''ofac-sanctions'' calls)) \<and>
    column_sum ''transaction_graph_calls'' aml = int (length (on_server ''transaction-graph'' calls)) \<and>
    column_sum ''mark_investigated_denied'' aml + column_sum ''mark_investigated_approved'' aml +
      column_sum ''mark_investigated_auto_passed'' aml +
      count_when (\<lambda>r. tl_status r = ''UPSTREAM_ERROR'') mi = int (length mi) \<and>
    column_sum ''structuring_alerts'' aml \<le>
      int (length (on_tool ''structuring_check'' (on_server ''transaction-graph'' calls)))"
proof (intro conjI)
  have ok: "\<forall>r \<in> set calls. verdict_ok r" by (simp add: calls_def generated_verdict_ok)
  then show "case aggregate_hitl_daily F calls of
       Inl e \<Rightarrow> (\<exists>r \<in> set (reviewed calls). sint (sf_hash F (tl_trace_id r)) = - (2 ^ 31))
     | Inr rows \<Rightarrow> column_sum ''tickets_created'' rows = int (length (reviewed calls)) \<and>
         column_sum ''approved'' rows + column_sum ''denied'' rows = int (length (reviewed calls))"
    using hitl_fails [of F calls] by (cases "aggregate_hitl_daily F calls") (simp_all add: hitl_sums verdict_ok_review)
  have "\<forall>r \<in> set mi. verdict_ok r" using ok by (auto simp: mi_def calls_def on_tool_def on_server_def)
  then show "column_sum ''mark_investigated_denied'' aml + column_sum ''mark_investigated_approved'' aml +
      column_sum ''mark_investigated_auto_passed'' aml +
      count_when (\<lambda>r. tl_status r = ''UPSTREAM_ERROR'') mi = int (length mi)"
    unfolding aml_def aml_mark_investigated mi_def by (rule verdict_ok_shares)
  show "column_sum ''structuring_alerts'' aml \<le>
      int (length (on_tool ''structuring_check'' (on_server ''transaction-graph'' calls)))"
    unfolding aml_def calls_def by (rule structuring_alerts_bound)
qed (simp_all add: calls_def aml_def hourly_calls hourly_errors policy_fires aml_calls)



text \<open>
  C40: Every downgrade takes back its upgrade, on any well-formed database the migrations can be run on:
  downgrading to the base after upgrading to the head restores the schema exactly, and the upgraded
  schema is well-formed.
\<close>

theorem downgrades_take_back_upgrades:
  assumes "schema_ok S" and "upgrade_head revisions S = Inr S'"
  shows "schema_ok S' \<and> downgrade_base revisions S' = Inr S"
  using assms by (rule upgrade_then_downgrade)

theorem downgrades_take_back_upgrades_witness:
  "\<exists>S'. upgrade_head revisions [] = Inr S' \<and> downgrade_base revisions S' = Inr []"
proof (cases "upgrade_head revisions []")
  case (Inl e)
  then show ?thesis using upgrade_matches_models by simp
next
  case (Inr S')
  with downgrades_take_back_upgrades [OF empty_schema_ok Inr] show ?thesis by blast
qed

text \<open>
  The saturation gauge is balanced: whatever becomes of a request (a reply, an exception at any
  point, a wait that has not ended), the amounts it added to the in-flight gauge sum to zero once
  its handler has returned.
\<close>

theorem inflight_gauge_balanced:
  "\<exists>tr. wd_trace (snd (proxy_mcp E server_name req w)) = wd_trace w @ tr \<and> inflight_sum tr = 0"
  using balanced_proxy_mcp [of E server_name req] unfolding balanced_def by (metis prod.collapse)

text \<open>
  An edited row is found: change any hashed column of one row of a verified log, keeping its two
  stored hashes, and verification fails exactly at that row, unless the edit exhibits a SHA-256
  collision between the old and the new contents.
\<close>

theorem edited_row_reported:
  assumes "audit_valid (us @ e # vs)" and "entry_ok fr e" and "entry_ok fr e'"
    and "ae_this_hash e' = ae_this_hash e" and "ae_prev_hash e' = ae_prev_hash e"
    and "entry_content e' \<noteq> entry_content e"
  shows "(\<exists>r. verify_chain (us @ e' # vs) = Inr r \<and> \<not> vr_valid r \<and> vr_checked r = length us \<and>
      vr_first_mismatch_id r = Some (ae_id e')) \<or>
    sha_clash (ae_prev_hash e) e (ae_prev_hash e') e'"
  using assms by (rule modified_row_reported)

theorem edited_row_reported_witness:
  "(\<exists>r. verify_chain [sample_row\<lparr>ae_agent_id := ''agent-b''\<rparr>] = Inr r \<and> \<not> vr_valid r \<and>
      vr_first_mismatch_id r = Some (ae_id sample_row)) \<or>
    sha_clash (ae_prev_hash sample_row) sample_row (ae_prev_hash sample_row) (sample_row\<lparr>ae_agent_id := ''agent-b''\<rparr>)"
proof -
  have v: "audit_valid ([] @ sample_row # [])" by (simp add: sample_row_valid)
  have ok: "entry_ok id (sample_row\<lparr>ae_agent_id := ''agent-b''\<rparr>)"
    using sample_row_ok [of id] by (simp add: entry_ok_def)
  have a: "ae_agent_id sample_row = ''agent-a''"
    by (simp add: sample_row_def sealed_entry_def Let_def entry_of_args_def sample_args_def)
  then have c: "entry_content (sample_row\<lparr>ae_agent_id := ''agent-b''\<rparr>) \<noteq> entry_content sample_row"
    by (auto simp: entry_content_def dest: arg_cong [where f = ae_agent_id])
  from edited_row_reported [OF v sample_row_ok ok _ _ c] show ?thesis by auto
qed

text \<open>
  Skipping the response stage is sound: for a policy set without response-side policies, running
  the evaluation the gateway skips would return the payload as it is, add no tag and leave Redis
  untouched.
\<close>

theorem skipped_response_stage_is_identity:
  assumes "\<not> has_response_side_policies ps"
  shows "evaluate_response reg ps payload ctx s = (Inr \<lparr>er_payload = payload, er_tags = []\<rparr>, s)"
  using assms by (rule evaluate_response_unneeded)

theorem skipped_response_stage_is_identity_witness:
  "evaluate_response [] \<lparr>ps_policies = [sample_policy ''gate'' ''echo'' (HitlGateEffect ''g'' 30)],
      ps_server_has_allowlist = False\<rparr> (JStr ''123-45-6789'')
      \<lparr>pc_session_id = ''s'', pc_server = ''hello-echo'', pc_tool = ''echo'', pc_arguments = JObj [],
       pc_response_payload = JNull\<rparr> (0::nat) =
     (Inr \<lparr>er_payload = JStr ''123-45-6789'', er_tags = []\<rparr>, 0)"
  by (rule skipped_response_stage_is_identity) (simp add: has_response_side_policies_def)

text \<open>
  A ticket survives Redis: writing a ticket's hash and reading it back gives the ticket, with an
  empty reviewer or rationale read back as absent; and right after \<open>create_ticket\<close> succeeded the
  ticket is found pending under its id and listed in the pending set.
\<close>

theorem created_ticket_is_found:
  assumes "redis_laws R" and "ticket_ok fl fr t" and "0 \<le> tk_timeout_seconds t"
    and "length (tk_ticket_id t) \<noteq> 7"
    and "rd_hgetall R (ticket_key (tk_ticket_id t)) s = Inr d" and "rd_smembers R PENDING_SET_KEY s = Inr ms"
    and "create_ticket R t s = (Inr t', s')"
  shows "get_ticket R fl fr (tk_ticket_id t) s' = Inr (Some (ticket_norm t)) \<and> t' = t \<and>
    (\<exists>ms'. rd_smembers R PENDING_SET_KEY s' = Inr ms' \<and> set ms' = insert (tk_ticket_id t) (set ms)) \<and>
    from_redis fl fr (to_redis t) = Inr (ticket_norm t)"
  using create_then_get [OF assms] from_to_redis [OF assms(2)] by simp

theorem created_ticket_is_found_witness:
  "get_ticket mem_redis Inr id ''ticket-1'' sample_redis = Inr (Some sample_ticket)"
proof -
  have h: "rd_hgetall mem_redis (ticket_key (tk_ticket_id sample_ticket)) ([], []) = Inr []"
    and m: "rd_smembers mem_redis PENDING_SET_KEY ([], []) = Inr []"
    by (simp_all add: mem_redis_def get_or_def)
  from created_ticket_is_found [OF mem_redis_laws sample_ticket_ok _ _ h m sample_ticket_created]
  show ?thesis by simp
qed

text \<open>
  The wait for a reviewer ends: when the clock advances by at least the poll interval, or the time
  left, between polls, a wait whose remaining time is at most \<open>k\<close> intervals returns after at most
  \<open>k + 1\<close> polls, whatever the ticket does.
\<close>

theorem wait_for_decision_ends:
  assumes "paced clock poll (clock 0 + of_int timeout)" and "0 < poll"
    and "clock 0 + of_int timeout - clock 1 \<le> of_nat k * poll" and "k < fuel"
  shows "wait_for_decision R fl fr seen clock fuel i timeout \<noteq> None"
  using wait_loop_ends [OF assms(1,2) _ assms(4), of 0] assms(3)
  by (simp add: wait_for_decision_def Let_def)

theorem wait_for_decision_ends_witness:
  "wait_for_decision mem_redis Inr id (\<lambda>n. sample_redis) (\<lambda>n. of_nat n) 4 ''ticket-1'' 3 \<noteq> None"
proof (rule wait_for_decision_ends [where poll = 1 and k = 3])
  show "paced (\<lambda>n. of_nat n) 1 (of_nat 0 + of_int 3)" by (auto simp: paced_def)
qed simp_all

text \<open>
  What the wait returns is what a poll saw: the ticket at the last poll, every earlier poll having
  found it pending; and it is still pending in the result only when the deadline has passed.
\<close>

theorem wait_for_decision_result:
  assumes "wait_for_decision R fl fr seen clock fuel i timeout = Some r"
  shows "\<exists>m. get_ticket R fl fr i (seen m) = r \<and>
    (\<forall>j < m. \<exists>t. get_ticket R fl fr i (seen j) = Inr (Some t) \<and> tk_status t = ''PENDING'') \<and>
    (\<forall>t. r = Inr (Some t) \<longrightarrow> tk_status t = ''PENDING'' \<longrightarrow> clock 0 + of_int timeout \<le> clock (Suc m))"
  using wait_loop_result [of "get_ticket R fl fr i" seen clock "clock 0 + of_int timeout" fuel 0 r] assms
  unfolding wait_for_decision_def Let_def by (metis le0)

theorem wait_for_decision_result_witness:
  "\<exists>m r. get_ticket mem_redis Inr id ''ticket-1'' sample_redis = r \<and> (3::rat) \<le> of_nat (Suc m)"
proof -
  have "wait_for_decision mem_redis Inr id (\<lambda>n. sample_redis) (\<lambda>n. of_nat n) 4 ''ticket-1'' 3 =
      Some (Inr (Some sample_ticket))"
    by (simp add: wait_for_decision_def sample_ticket_stored numeral_eq_Suc)
  from wait_for_decision_result [OF this] show ?thesis by auto
qed

text \<open>
  A valid server-sent event can be refused: the JSON array of the one-character string U+0085,
  which JSON allows unescaped, is parsed when sent as plain JSON but rejected when it arrives in a
  \<open>data:\<close> line, because \<open>str.splitlines\<close> takes that character for a line end.
\<close>

theorem next_line_character_refused:
  "loads_text fr nel_json = Inr (JList [JStr [char_of (133::nat)]]) \<and>
   decode_mcp_body fr (encode_utf8 (''data: '' @ nel_json @ [newline, newline])) SSE =
     Inl (Exn ValueErr ''JSONDecodeError'')"
  by (simp only: nel_json_parses nel_sse_refused simp_thms)

text \<open>
  The exit code of \<open>verify-audit\<close> is its verdict: 2 for a date it cannot parse, otherwise 0 when the
  whole log, whatever the date, is an intact chain and 1 when it is not.
\<close>

theorem verify_audit_exit_code:
  "\<exists>ls. verify_audit fromisoformat since tb =
     (case map_option fromisoformat since of
        Some (Inl e) \<Rightarrow> if exn_kind e = ValueErr then Inr (ls, 2) else Inl e
      | _ \<Rightarrow> Inr (ls, if audit_valid (fetch_all_entries tb) then 0 else 1))"
proof (cases since)
  case None
  then show ?thesis using report_audit_exit [of None] by (simp add: verify_audit_def audit_valid_iff)
next
  case (Some t)
  show ?thesis
  proof (cases "fromisoformat t")
    case (Inr d)
    with Some show ?thesis using report_audit_exit [of "Some d" "fetch_all_entries tb"]
      by (simp add: verify_audit_def audit_valid_iff)
  qed (simp add: Some verify_audit_def)
qed

text \<open>
  A review command that exits with 0 was applied: the ticket was pending, and is now stored with the
  status, the reviewer and the rationale given; any other exit code leaves the queue as it was.
\<close>

theorem review_exit_code:
  assumes "redis_laws R" and "review_deny R fl fr now i who why s = (Inr (ls, code), s')"
    and "\<And>t. get_ticket R fl fr i s = Inr (Some t) \<Longrightarrow> ticket_ok fl fr (decided now ''DENIED'' who why t)"
  shows "if code = 0 then \<exists>t. get_ticket R fl fr i s = Inr (Some t) \<and> tk_status t = ''PENDING'' \<and>
      get_ticket R fl fr i s' = Inr (Some (ticket_norm (decided now ''DENIED'' who why t)))
    else s' = s"
  using review_applied [OF assms(1,3)] review_decide_exit(2) assms(2) unfolding review_deny_def by fastforce

theorem review_exit_code_witness:
  "\<exists>ls s'. review_deny mem_redis Inr id ''13.0'' ''ticket-1'' ''ana'' ''no'' sample_redis = (Inr (ls, 0), s') \<and>
     get_ticket mem_redis Inr id ''ticket-1'' s' =
       Inr (Some (ticket_norm (decided ''13.0'' ''DENIED'' ''ana'' ''no'' sample_ticket)))"
proof -
  obtain ls s' where r: "review_deny mem_redis Inr id ''13.0'' ''ticket-1'' ''ana'' ''no'' sample_redis = (Inr (ls, 0), s')"
    using sample_decide by (simp add: review_deny_def review_decide_def)
  have ok: "ticket_ok Inr id (decided ''13.0'' ''DENIED'' ''ana'' ''no'' t)"
    if "get_ticket mem_redis Inr id ''ticket-1'' sample_redis = Inr (Some t)" for t
    using that sample_ticket_stored sample_decided_ok by simp
  from review_exit_code [OF mem_redis_laws r ok] r sample_ticket_stored show ?thesis by auto
qed

text \<open>
  The exit code of \<open>interpose demo aml --run\<close>: 0 exactly when every process of it ended with 0 and
  the audit table it then reads is a non-empty intact chain.
\<close>

theorem demo_exit_code:
  assumes "demo_aml E do_setup True account_id gateway_url st = (e, st')"
  shows "e = Exited 0 \<longleftrightarrow> demo_went_well E do_setup account_id gateway_url (ds_world st) (ds_world st')"
  using assms by (rule demo_run_exit)

theorem demo_exit_code_witness:
  "fst (demo_aml sample_demo True True None ''http://127.0.0.1:8000'' \<lparr>ds_out = [], ds_started = [], ds_world = False\<rparr>) = Exited 0"
proof -
  let ?st = "\<lparr>ds_out = [], ds_started = [], ds_world = False\<rparr>"
  obtain e st' where r: "demo_aml sample_demo True True None ''http://127.0.0.1:8000'' ?st = (e, st')"
    by (rule prod.exhaust)
  obtain i where i: "run_setup sample_demo ?st = (Returned, i)"
    using demo_setup_ends [of sample_demo ?st "Inr 0" True] by (auto simp: sample_demo_def)
  obtain e' j where j: "run_demo_investigation sample_demo None ''http://127.0.0.1:8000'' i = (e', j)" "ds_world j = True"
    using demo_investigation_ends [of sample_demo None "''http://127.0.0.1:8000''" i "Inr 0" True]
    by (auto simp: sample_demo_def)
  have w: "ds_world st' = True" using r i j by (simp add: demo_aml_def)
  have "demo_went_well sample_demo True None ''http://127.0.0.1:8000'' False True"
    using sample_row_valid(1) unfolding audit_valid_iff
    by (auto simp: demo_went_well_def sample_demo_def fetch_all_entries_def)
  then show ?thesis using demo_exit_code [OF r] w r by simp
qed

text \<open>
  The generator draws the outcome of a call and its agent with the same column, so outside the
  incident windows every call that does not pass belongs to one of the first 100 of the 500
  agents and every call denied by a policy to one of the first 50 (325 and 275 inside a window).
\<close>

theorem failures_come_from_the_first_agents:
  assumes "unit_draws C" and "r \<in> set (build_base_rows C counts)"
  shows "(with_outcome r \<noteq> ''PASS'' \<longrightarrow>
      (\<exists>i < (if br_in_incident_window r then 325 else 100). with_agent r = agent_name i)) \<and>
    (with_outcome r = ''DENY_POLICY'' \<longrightarrow>
      (\<exists>i < (if br_in_incident_window r then 275 else 50). with_agent r = agent_name i))"
proof -
  have "\<exists>i < nat n. with_agent r = agent_name i" if "agent_index r < n" "0 < n" for n
    using that by (auto simp: with_agent_def intro: exI [of _ "nat (agent_index r)"])
  from this [OF not_passed_agents [OF assms]] this [OF denied_agents [OF assms]] show ?thesis
    by (auto split: if_splits)
qed

theorem failures_come_from_the_first_agents_witness:
  "\<exists>i < 50. with_agent sample_base = agent_name i"
  using failures_come_from_the_first_agents [OF sample_draws sample_base_built] sample_outcome
  by (simp add: sample_base_def)

end
